(* ===== verification/Prelude.thy ===== *)
theory Prelude
  imports Main "HOL-Library.Word" "HOL-Library.Signed_Division"
begin

text \<open>
  Shared ground of the Perigee development: results of contract calls, Rust's machine
  integers, the part of the Soroban host the contracts read, contract storage as maps with
  integer entries, and reachable states of a contract under arbitrary calls.

  A contract entry point is a function from the host environment, its arguments and the
  contract's storage to a \<open>result\<close>. \<open>Ok\<close> carries the value and the new storage; \<open>Err\<close>
  is the contract's own error, \<open>Panic\<close> a host trap. Soroban discards every write of an
  invocation that fails, so neither \<open>Err\<close> nor \<open>Panic\<close> carries a storage.
\<close>

section \<open>Results\<close>

datatype ('a, 'e) result = Ok 'a | Err 'e | Panic

text \<open>Rust's \<open>?\<close> operator: continue with the value, or return the failure as it is.\<close>

primrec and_then :: "('a, 'e) result \<Rightarrow> ('a \<Rightarrow> ('b, 'e) result) \<Rightarrow> ('b, 'e) result" where
  "and_then (Ok x) f = f x"
| "and_then (Err e) f = Err e"
| "and_then Panic f = Panic"

definition ok_or :: "'a option \<Rightarrow> 'e \<Rightarrow> ('a, 'e) result" where
  "ok_or x e = (case x of None \<Rightarrow> Err e | Some y \<Rightarrow> Ok y)"

text \<open>\<open>Option::unwrap\<close> and \<open>Result::expect\<close>: a missing value traps.\<close>

definition unwrap :: "'a option \<Rightarrow> ('a, 'e) result" where
  "unwrap x = (case x of None \<Rightarrow> Panic | Some y \<Rightarrow> Ok y)"

primrec expect :: "('a, 'e) result \<Rightarrow> ('a, 'f) result" where
  "expect (Ok x) = Ok x"
| "expect (Err e) = Panic"
| "expect Panic = Panic"

primrec is_ok :: "('a, 'e) result \<Rightarrow> bool" where
  "is_ok (Ok x) = True"
| "is_ok (Err e) = False"
| "is_ok Panic = False"

lemma and_then_eq_Ok [simp]:
  "and_then m f = Ok y \<longleftrightarrow> (\<exists>x. m = Ok x \<and> f x = Ok y)"
  by (cases m) auto

lemma and_then_eq_Err [simp]:
  "and_then m f = Err e \<longleftrightarrow> m = Err e \<or> (\<exists>x. m = Ok x \<and> f x = Err e)"
  by (cases m) auto

lemma and_then_eq_Panic [simp]:
  "and_then m f = Panic \<longleftrightarrow> m = Panic \<or> (\<exists>x. m = Ok x \<and> f x = Panic)"
  by (cases m) auto

text \<open>
  The early returns of an entry point, read backwards from a call that succeeded: every guard
  passed. The collection \<open>ok_iff\<close> gathers such rules.
\<close>

named_theorems ok_iff

lemma check_ok [ok_iff]:
  "(if b then Err x else m) = Ok r \<longleftrightarrow> \<not> b \<and> m = Ok r"
  "(if b then m else Err x) = Ok r \<longleftrightarrow> b \<and> m = Ok r"
  "(if b then Panic else m) = Ok r \<longleftrightarrow> \<not> b \<and> m = Ok r"
  "(if b then m else Panic) = Ok r \<longleftrightarrow> b \<and> m = Ok r"
  by auto

lemma and_then_assoc:
  "and_then (and_then m f) g = and_then m (\<lambda>x. and_then (f x) g)"
  by (cases m) auto

lemma and_then_cong [fundef_cong]:
  "m = m' \<Longrightarrow> (\<And>x. m' = Ok x \<Longrightarrow> f x = f' x) \<Longrightarrow> and_then m f = and_then m' f'"
  by (cases m') auto

lemma ok_or_simps [simp]:
  "ok_or (Some x) e = Ok x" "ok_or None e = Err e"
  by (simp_all add: ok_or_def)

lemma ok_or_eq [simp]:
  "ok_or x e = Ok y \<longleftrightarrow> x = Some y"
  "ok_or x e = Err e' \<longleftrightarrow> x = None \<and> e' = e"
  "ok_or x e \<noteq> Panic"
  by (cases x; auto)+

lemma unwrap_simps [simp]:
  "unwrap (Some x) = Ok x" "unwrap None = Panic"
  by (simp_all add: unwrap_def)

lemma unwrap_eq [simp]:
  "unwrap x = Ok y \<longleftrightarrow> x = Some y"
  "unwrap x \<noteq> Err e"
  "unwrap x = Panic \<longleftrightarrow> x = None"
  by (cases x; auto)+

lemma expect_eq [simp]:
  "expect m = Ok x \<longleftrightarrow> m = Ok x"
  "expect m \<noteq> Err e"
  by (cases m; auto)+

lemma is_ok_iff: "is_ok m \<longleftrightarrow> (\<exists>x. m = Ok x)"
  by (cases m) auto

section \<open>Machine integers\<close>

text \<open>
  Unsigned integers are words. An \<open>i128\<close> is an \<open>int\<close> whose range is written out: the
  contracts use the checked operations where they expect an overflow, and the plain
  operators elsewhere. The plain operators trap when the build has overflow checks and
  wrap around when it has not; the workspace manifest sets no release profile, so both
  builds exist and the environment below says which one runs.
\<close>

type_synonym u32 = "32 word"
type_synonym u64 = "64 word"
type_synonym u128 = "128 word"
type_synonym i128 = int

definition i128_min :: i128 where "i128_min = - (2 ^ 127)"
definition i128_max :: i128 where "i128_max = 2 ^ 127 - 1"

definition in_i128 :: "int \<Rightarrow> bool" where
  "in_i128 x \<longleftrightarrow> i128_min \<le> x \<and> x \<le> i128_max"

definition wrap_i128 :: "int \<Rightarrow> i128" where
  "wrap_i128 x = (x + 2 ^ 127) mod 2 ^ 128 - 2 ^ 127"

lemma i128_min_eq: "i128_min = - 170141183460469231731687303715884105728"
  and i128_max_eq: "i128_max = 170141183460469231731687303715884105727"
  by (simp_all add: i128_min_def i128_max_def)

lemma in_i128_iff:
  "in_i128 x \<longleftrightarrow> - 170141183460469231731687303715884105728 \<le> x
     \<and> x \<le> 170141183460469231731687303715884105727"
  by (simp add: in_i128_def i128_min_eq i128_max_eq)

lemma in_i128_between: "in_i128 a \<Longrightarrow> in_i128 b \<Longrightarrow> a \<le> x \<Longrightarrow> x \<le> b \<Longrightarrow> in_i128 x"
  by (simp add: in_i128_def)

lemma in_i128_0 [simp]: "in_i128 0"
  by (simp add: in_i128_iff)

lemma wrap_i128_in_range [simp]: "in_i128 (wrap_i128 x)"
proof -
  have "0 \<le> (x + 2 ^ 127) mod 2 ^ 128" and "(x + 2 ^ 127) mod 2 ^ 128 < 2 ^ 128"
    by simp_all
  then show ?thesis by (simp add: wrap_i128_def in_i128_iff)
qed

lemma wrap_i128_id: "in_i128 x \<Longrightarrow> wrap_i128 x = x"
  by (simp add: wrap_i128_def in_i128_iff)

lemma wrap_i128_add [simp]: "wrap_i128 (wrap_i128 x + y) = wrap_i128 (x + y)"
  by (simp add: wrap_i128_def algebra_simps mod_add_left_eq mod_add_right_eq)

lemma wrap_i128_minus: "wrap_i128 (x - 2 ^ 128) = wrap_i128 x"
proof -
  have "x - 2 ^ 128 + 2 ^ 127 = x + 2 ^ 127 - (2 ^ 128 :: int)" by simp
  then show ?thesis unfolding wrap_i128_def by (simp only: minus_mod_self2)
qed

lemma wrap_i128_cong: "2 ^ 128 dvd (wrap_i128 x - x)"
proof -
  have "wrap_i128 x - x = - ((x + 2 ^ 127) div 2 ^ 128) * 2 ^ 128"
    using div_mult_mod_eq [of "x + 2 ^ 127" "2 ^ 128"] unfolding wrap_i128_def by linarith
  then show ?thesis by (metis dvd_triv_right)
qed

lemma wrap_i128_less:
  assumes "in_i128 x" and "0 \<le> n" and "in_i128 n" and "wrap_i128 (x + n) < x"
  shows "i128_max < x + n"
proof (rule ccontr)
  assume "\<not> i128_max < x + n"
  then have "in_i128 (x + n)" using assms by (simp add: in_i128_def)
  with assms show False by (simp add: wrap_i128_id)
qed

definition checked_add :: "i128 \<Rightarrow> i128 \<Rightarrow> i128 option" where
  "checked_add a b = (if in_i128 (a + b) then Some (a + b) else None)"

definition checked_sub :: "i128 \<Rightarrow> i128 \<Rightarrow> i128 option" where
  "checked_sub a b = (if in_i128 (a - b) then Some (a - b) else None)"

definition checked_mul :: "i128 \<Rightarrow> i128 \<Rightarrow> i128 option" where
  "checked_mul a b = (if in_i128 (a * b) then Some (a * b) else None)"

definition clamp_i128 :: "int \<Rightarrow> i128" where
  "clamp_i128 x = max i128_min (min i128_max x)"

definition saturating_sub :: "i128 \<Rightarrow> i128 \<Rightarrow> i128" where
  "saturating_sub a b = clamp_i128 (a - b)"

definition saturating_mul :: "i128 \<Rightarrow> i128 \<Rightarrow> i128" where
  "saturating_mul a b = clamp_i128 (a * b)"

lemma checked_add_eq [simp]:
  "checked_add a b = Some c \<longleftrightarrow> in_i128 (a + b) \<and> c = a + b"
  "checked_add a b = None \<longleftrightarrow> \<not> in_i128 (a + b)"
  by (auto simp: checked_add_def)

lemma checked_sub_eq [simp]:
  "checked_sub a b = Some c \<longleftrightarrow> in_i128 (a - b) \<and> c = a - b"
  "checked_sub a b = None \<longleftrightarrow> \<not> in_i128 (a - b)"
  by (auto simp: checked_sub_def)

lemma checked_mul_eq [simp]:
  "checked_mul a b = Some c \<longleftrightarrow> in_i128 (a * b) \<and> c = a * b"
  "checked_mul a b = None \<longleftrightarrow> \<not> in_i128 (a * b)"
  by (auto simp: checked_mul_def)

lemma clamp_i128_id: "in_i128 x \<Longrightarrow> clamp_i128 x = x"
  by (simp add: clamp_i128_def in_i128_def)

text \<open>
  Rust's \<open>/\<close> and \<open>%\<close> on signed integers truncate towards zero; \<open>sdiv\<close> and \<open>smod\<close> of
  the library do the same. For a non-negative dividend and a positive divisor they are
  \<open>div\<close> and \<open>mod\<close>.
\<close>

lemma sdiv_nonneg: "0 \<le> a \<Longrightarrow> 0 < b \<Longrightarrow> (a::int) sdiv b = a div b"
  by (cases "a = 0") (auto simp: signed_divide_int_def)

lemma smod_nonneg: "0 \<le> a \<Longrightarrow> 0 < b \<Longrightarrow> (a::int) smod b = a mod b"
  by (cases "a = 0") (auto simp: signed_modulo_int_def)

text \<open>Checked and saturating operations on unsigned words.\<close>

definition checked_add_word :: "'a::len word \<Rightarrow> 'a word \<Rightarrow> 'a word option" where
  "checked_add_word a b = (if unat a + unat b < 2 ^ LENGTH('a) then Some (a + b) else None)"

definition saturating_add_word :: "'a::len word \<Rightarrow> 'a word \<Rightarrow> 'a word" where
  "saturating_add_word a b = (if unat a + unat b < 2 ^ LENGTH('a) then a + b else - 1)"

definition saturating_sub_word :: "'a::len word \<Rightarrow> 'a word \<Rightarrow> 'a word" where
  "saturating_sub_word a b = (if b \<le> a then a - b else 0)"

lemma checked_add_word_Some:
  "checked_add_word a b = Some c \<Longrightarrow> unat c = unat a + unat b \<and> c = a + b"
  by (auto simp: checked_add_word_def unat_word_ariths split: if_splits)

text \<open>For evaluation: a sum does not overflow when it is at least its first summand.\<close>

lemma add_word_code [code]:
  "checked_add_word a b = (if a \<le> a + b then Some (a + b) else None)"
  "saturating_add_word a b = (if a \<le> a + b then a + b else - 1)"
  by (simp_all add: checked_add_word_def saturating_add_word_def no_olen_add_nat)

lemma unat_saturating_sub_word: "unat (saturating_sub_word a b) = unat a - unat b"
  by (auto simp: saturating_sub_word_def unat_sub word_le_nat_alt)

section \<open>The host environment\<close>

type_synonym address = nat

text \<open>
  What an invocation reads from the host: the ledger's sequence number and timestamp, the
  addresses whose authorization the transaction carries, the running contract's own
  address, and whether the build checks plain arithmetic for overflow.
\<close>

record env =
  sequence :: u32
  timestamp :: u64
  authorized :: "address \<Rightarrow> bool"
  self :: address
  overflow_checks :: bool

text \<open>\<open>Address::require_auth\<close> traps when the authorization is missing.\<close>

definition require_auth :: "env \<Rightarrow> address \<Rightarrow> (unit, 'e) result" where
  "require_auth e a = (if authorized e a then Ok () else Panic)"

lemma require_auth_eq [simp]:
  "require_auth e a = Ok u \<longleftrightarrow> authorized e a"
  "require_auth e a \<noteq> Err x"
  "require_auth e a = Panic \<longleftrightarrow> \<not> authorized e a"
  by (auto simp: require_auth_def)

text \<open>A sub-invocation: the calling contract authorizes what it asks for itself.\<close>

definition invoke_env :: "env \<Rightarrow> address \<Rightarrow> env" where
  "invoke_env e callee = e\<lparr>authorized := (\<lambda>a. a = self e \<or> authorized e a), self := callee\<rparr>"

lemma invoke_env_simps [simp]:
  "sequence (invoke_env e c) = sequence e"
  "timestamp (invoke_env e c) = timestamp e"
  "authorized (invoke_env e c) a \<longleftrightarrow> a = self e \<or> authorized e a"
  "overflow_checks (invoke_env e c) = overflow_checks e"
  by (simp_all add: invoke_env_def)

text \<open>A sub-invocation that fails in any way traps its caller.\<close>

definition sub_call :: "('a, 'e) result \<Rightarrow> ('a, 'f) result" where
  "sub_call r = (case r of Ok v \<Rightarrow> Ok v | _ \<Rightarrow> Panic)"

lemma sub_call_eq [simp]:
  "sub_call r = Ok v \<longleftrightarrow> r = Ok v"
  "sub_call r \<noteq> Err x"
  by (auto simp: sub_call_def split: result.splits)

text \<open>Plain \<open>+\<close>, \<open>-\<close> and unary minus on \<open>i128\<close>, and \<open>/\<close>.\<close>

definition plain_i128 :: "env \<Rightarrow> int \<Rightarrow> (i128, 'e) result" where
  "plain_i128 e x =
     (if in_i128 x then Ok x else if overflow_checks e then Panic else Ok (wrap_i128 x))"

definition div_i128 :: "i128 \<Rightarrow> i128 \<Rightarrow> (i128, 'e) result" where
  "div_i128 a b = (if b = 0 \<or> (a = i128_min \<and> b = - 1) then Panic else Ok (a sdiv b))"

definition add_u32 :: "env \<Rightarrow> u32 \<Rightarrow> u32 \<Rightarrow> (u32, 'e) result" where
  "add_u32 e a b =
     (if unat a + unat b < 2 ^ 32 \<or> \<not> overflow_checks e then Ok (a + b) else Panic)"

lemma add_u32_code [code]:
  "add_u32 e a b = (if a \<le> a + b \<or> \<not> overflow_checks e then Ok (a + b) else Panic)"
  by (simp add: add_u32_def no_olen_add_nat)

lemma plain_i128_ok: "in_i128 x \<Longrightarrow> plain_i128 e x = Ok x"
  by (simp add: plain_i128_def)

lemma plain_i128_checked:
  "overflow_checks e \<Longrightarrow> plain_i128 e x = Ok y \<longleftrightarrow> in_i128 x \<and> y = x"
  by (auto simp: plain_i128_def)

lemma plain_i128_not_Err [simp]: "plain_i128 e x \<noteq> Err y"
  by (simp add: plain_i128_def)

lemma plain_i128_wrap: "plain_i128 e x = Ok y \<Longrightarrow> y = wrap_i128 x"
  by (auto simp: plain_i128_def wrap_i128_id split: if_splits)

lemma plain_i128_in_range: "plain_i128 e x = Ok y \<Longrightarrow> in_i128 y"
  by (auto simp: plain_i128_def split: if_splits)

lemma div_i128_pos: "0 \<le> a \<Longrightarrow> 0 < b \<Longrightarrow> div_i128 a b = Ok (a div b)"
  by (simp add: div_i128_def sdiv_nonneg)

lemma div_i128_not_Err [simp]: "div_i128 a b \<noteq> Err y"
  by (simp add: div_i128_def)

section \<open>Storage maps with integer entries\<close>

text \<open>\<open>get(..).unwrap_or(0)\<close> on a map of amounts, and the total of all its entries.\<close>

definition get0 :: "('k \<rightharpoonup> int) \<Rightarrow> 'k \<Rightarrow> int" where
  "get0 m k = (case m k of None \<Rightarrow> 0 | Some v \<Rightarrow> v)"

definition map_total :: "('k \<rightharpoonup> int) \<Rightarrow> int" where
  "map_total m = (\<Sum>k\<in>dom m. get0 m k)"

lemma get0_simps [simp]:
  "get0 Map.empty k = 0"
  "get0 (m(k \<mapsto> v)) k' = (if k' = k then v else get0 m k')"
  by (simp_all add: get0_def)

lemma map_total_empty [simp]: "map_total Map.empty = 0"
  by (simp add: map_total_def)

lemma map_total_upd [simp]:
  assumes "finite (dom m)"
  shows "map_total (m(k \<mapsto> v)) = map_total m + (v - get0 m k)"
proof (cases "k \<in> dom m")
  case True
  have "map_total (m(k \<mapsto> v)) = (\<Sum>j\<in>dom m. get0 (m(k \<mapsto> v)) j)"
    using True by (simp add: map_total_def insert_absorb)
  also have "\<dots> = v + (\<Sum>j\<in>dom m - {k}. get0 (m(k \<mapsto> v)) j)"
    using assms True by (subst sum.remove [of _ k]) simp_all
  also have "(\<Sum>j\<in>dom m - {k}. get0 (m(k \<mapsto> v)) j) = (\<Sum>j\<in>dom m - {k}. get0 m j)"
    by (rule sum.cong) simp_all
  also have "\<dots> = map_total m - get0 m k"
    using assms True by (simp add: map_total_def sum_diff1)
  finally show ?thesis by (simp del: fun_upd_apply)
next
  case False
  then have "get0 m k = 0" by (auto simp: get0_def split: option.split)
  moreover have "(\<Sum>j\<in>dom m. get0 (m(k \<mapsto> v)) j) = (\<Sum>j\<in>dom m. get0 m j)"
    using False by (intro sum.cong) auto
  ultimately show ?thesis using assms False by (simp add: map_total_def)
qed

lemma get0_le_map_total:
  assumes "finite (dom m)" and "\<And>j. 0 \<le> get0 m j"
  shows "get0 m k \<le> map_total m"
proof (cases "k \<in> dom m")
  case True
  then show ?thesis
    using assms by (simp add: map_total_def member_le_sum)
next
  case False
  then have "get0 m k = 0" by (auto simp: get0_def split: option.split)
  then show ?thesis using assms by (simp add: map_total_def sum_nonneg)
qed

lemma map_total_pair_le:
  assumes "finite (dom m)" and nn: "\<And>j. 0 \<le> get0 m j" and "k \<noteq> l"
  shows "get0 m k + get0 m l \<le> map_total m"
proof -
  have fin: "finite (dom (m(k \<mapsto> 0)))" using assms(1) by simp
  have "get0 (m(k \<mapsto> 0)) l \<le> map_total (m(k \<mapsto> 0))"
    by (rule get0_le_map_total [OF fin]) (simp add: nn)
  then show ?thesis using assms(1) \<open>k \<noteq> l\<close> by simp
qed

section \<open>Reachable states\<close>

text \<open>
  The states a contract can be in: those of \<open>init\<close>, closed under \<open>step\<close>. A safety
  property is an invariant of \<open>step\<close> that holds initially.
\<close>

inductive reach :: "('s \<Rightarrow> bool) \<Rightarrow> ('s \<Rightarrow> 's \<Rightarrow> bool) \<Rightarrow> 's \<Rightarrow> bool" for init step where
  reach_init: "init s \<Longrightarrow> reach init step s"
| reach_step: "reach init step s \<Longrightarrow> step s t \<Longrightarrow> reach init step t"

lemma reach_invariant [consumes 1, case_names init step]:
  assumes "reach init step s"
    and "\<And>s. init s \<Longrightarrow> I s"
    and "\<And>s t. reach init step s \<Longrightarrow> I s \<Longrightarrow> step s t \<Longrightarrow> I t"
  shows "I s"
  using assms(1) by induction (auto intro: assms(2,3))

section \<open>Administrator gates\<close>

text \<open>
  Most contracts gate their administrative entry points on a stored administrator: the
  caller names an address, which must be the stored one and must have authorized the
  invocation. The interface below states that contract once; each contract's own
  \<open>require_admin\<close> is an interpretation of it.
\<close>

locale admin_gate =
  fixes gate :: "env \<Rightarrow> address \<Rightarrow> 's \<Rightarrow> (unit, 'e) result"
    and admin_of :: "'s \<Rightarrow> address option"
  assumes gate_ok: "gate e a s = Ok u \<longleftrightarrow> admin_of s = Some a \<and> authorized e a"
begin

lemma gated_ok:
  "and_then (gate e a s) k = Ok r \<longleftrightarrow> admin_of s = Some a \<and> authorized e a \<and> k () = Ok r"
  by (auto simp: gate_ok)

lemma gate_pass: "admin_of s = Some a \<Longrightarrow> authorized e a \<Longrightarrow> gate e a s = Ok ()"
  by (simp add: gate_ok)

lemma gated_unsigned: "\<not> authorized e a \<Longrightarrow> and_then (gate e a s) k \<noteq> Ok r"
  by (simp add: gate_ok)

lemma gated_stranger: "admin_of s \<noteq> Some a \<Longrightarrow> and_then (gate e a s) k \<noteq> Ok r"
  by (simp add: gate_ok)

end

section \<open>Asset tokens\<close>

text \<open>The calls a contract makes to a token contract with states of type \<open>'t\<close>.\<close>

type_synonym ('t, 'x) transfer = "env \<Rightarrow> address \<Rightarrow> address \<Rightarrow> i128 \<Rightarrow> 't \<Rightarrow> ('t, 'x) result"
type_synonym 't balance = "'t \<Rightarrow> address \<Rightarrow> i128"

text \<open>
  What a vault relies on of the token contract that holds its assets: a transfer of a
  non-negative amount is authorized by the sender, is covered by the sender's balance, moves
  exactly that amount, and keeps the token in a sound state, in which no balance is negative.
\<close>

locale token_iface =
  fixes transfer :: "env \<Rightarrow> address \<Rightarrow> address \<Rightarrow> i128 \<Rightarrow> 't \<Rightarrow> ('t, 'e) result"
    and balance :: "'t \<Rightarrow> address \<Rightarrow> i128"
    and sound :: "'t \<Rightarrow> bool"
  assumes balance_range: "sound t \<Longrightarrow> 0 \<le> balance t a \<and> in_i128 (balance t a)"
    and transfer_sound: "transfer e a b n t = Ok t' \<Longrightarrow> sound t \<Longrightarrow> 0 \<le> n \<Longrightarrow> sound t'"
    and transfer_auth: "transfer e a b n t = Ok t' \<Longrightarrow> sound t \<Longrightarrow> 0 \<le> n \<Longrightarrow>
      authorized e a \<and> n \<le> balance t a"
    and transfer_moves: "transfer e a b n t = Ok t' \<Longrightarrow> sound t \<Longrightarrow> 0 \<le> n \<Longrightarrow>
      balance t' c = balance t c - (if c = a then n else 0) + (if c = b then n else 0)"
begin

lemma transfer_pair:
  assumes "transfer e a b n t = Ok t'" and "sound t" and "0 \<le> n" and "a \<noteq> b"
  shows "balance t' a = balance t a - n \<and> balance t' b = balance t b + n"
  using transfer_moves [OF assms(1-3)] assms(4) by simp

lemma transfer_others:
  assumes "transfer e a b n t = Ok t'" and "sound t" and "0 \<le> n" and "c \<noteq> a"
  shows "balance t c \<le> balance t' c"
  using transfer_moves [OF assms(1-3), of c] assms(3,4) by simp

end

section \<open>Fee splits\<close>

text \<open>
  A basis-point split divides a fee between a vault and the protocol. The contract its
  users rely on: nothing is lost or invented, and neither share is negative or exceeds
  the fee.
\<close>

locale fee_split =
  fixes split :: "i128 \<Rightarrow> u32 \<Rightarrow> (i128 \<times> i128, 'e) result"
  assumes split_ok: "split fee bps = Ok (v, p) \<Longrightarrow>
      v = fee - p \<and> (0 \<le> fee \<longrightarrow> p = fee * uint bps div 10000)"
begin

lemma split_sum: "split fee bps = Ok (v, p) \<Longrightarrow> v + p = fee"
  using split_ok by fastforce

lemma split_bounds:
  assumes "split fee bps = Ok (v, p)" and "0 \<le> fee" and "bps \<le> 10000"
  shows "0 \<le> p \<and> p \<le> fee \<and> 0 \<le> v \<and> v \<le> fee"
proof -
  have b: "uint bps \<le> 10000"
    using assms(3) by (simp add: word_le_def)
  have p: "p = fee * uint bps div 10000" and v: "v = fee - p"
    using split_ok [OF assms(1)] assms(2) by auto
  have "0 \<le> p" unfolding p using assms(2) by (simp add: pos_imp_zdiv_nonneg_iff)
  moreover have "p \<le> fee * 10000 div 10000"
    unfolding p by (intro zdiv_mono1 mult_left_mono b assms(2)) simp
  ultimately show ?thesis by (simp add: v)
qed

end

end
