(* ===== verification/Fixed_Math.thy ===== *)
theory Fixed_Math
  imports Prelude
begin

text \<open>
  The fixed-point library \<open>contracts/math/src/lib.rs\<close> and the shared error codes of
  \<open>contracts/error_codes/src/lib.rs\<close>. The core is \<open>mul_div\<close>, a 128 by 128 bit product
  divided by a 128 bit number without losing the high half: the schoolbook product in four
  64 bit limbs and a restoring division, bit by bit. The lemmas show that it computes the
  exact truncated quotient. Plain arithmetic inside \<open>mul_div_u128\<close> is on words; no step of
  it overflows (\<open>mul_high_low_exact\<close>, \<open>div_rel_step\<close>), so the build's overflow checks do not matter.
\<close>

unbundle bit_operations_syntax

section \<open>Error codes\<close>

datatype contract_error =
    AlreadyInitialized | NotInitialized | Unauthorized
  | InsufficientBalance | InsufficientLiquidity | InsufficientShares | InsufficientAllowance
  | SlippageExceeded | InvalidFee | NoPendingFeeUpdate | TimelockNotElapsed
  | OracleNotConfigured | InvalidOraclePrice | Paused
  | Overflow | DivisionByZero | InvalidInput

section \<open>Multiplication and division at double width\<close>

text \<open>The loop \<open>for i in (0..128).rev()\<close>: the bits \<open>i-1, \<dots>, 0\<close> of \<open>low\<close> are still to come.\<close>

fun div_loop :: "nat \<Rightarrow> u128 \<Rightarrow> u128 \<Rightarrow> u128 \<Rightarrow> u128 \<Rightarrow> u128" where
  "div_loop 0 low d quo rmd = quo"
| "div_loop (Suc i) low d quo rmd =
     (let rmd = push_bit 1 rmd OR (drop_bit i low AND 1)
      in if d \<le> rmd
         then div_loop i low d (quo OR push_bit i 1) (rmd - d)
         else div_loop i low d quo rmd)"

definition limb_mask :: u128 where "limb_mask = 0xFFFFFFFFFFFFFFFF"

definition mul_high_low :: "u128 \<Rightarrow> u128 \<Rightarrow> u128 \<times> u128" where
  "mul_high_low a b =
     (let a_low = a AND limb_mask; a_high = drop_bit 64 a;
          b_low = b AND limb_mask; b_high = drop_bit 64 b;
          p0 = a_low * b_low; p1 = a_low * b_high; p2 = a_high * b_low; p3 = a_high * b_high;
          mid = (p1 AND limb_mask) + (p2 AND limb_mask) + drop_bit 64 p0;
          high = p3 + drop_bit 64 p1 + drop_bit 64 p2 + drop_bit 64 mid;
          low = push_bit 64 mid OR (p0 AND limb_mask)
      in (high, low))"

definition mul_div_u128 :: "u128 \<Rightarrow> u128 \<Rightarrow> u128 \<Rightarrow> (u128 \<times> bool, 'e) result" where
  "mul_div_u128 a b d =
     (if unat a * unat b < 2 ^ 128
      then if d = 0 then Panic else Ok (a * b div d, False)
      else let (high, low) = mul_high_low a b
           in if d \<le> high then Ok (0, True)
              else Ok (div_loop 128 low d 0 high, False))"

definition unsigned_abs :: "i128 \<Rightarrow> u128" where
  "unsigned_abs x = word_of_int \<bar>x\<bar>"

definition mul_div :: "i128 \<Rightarrow> i128 \<Rightarrow> i128 \<Rightarrow> (i128 option, 'e) result" where
  "mul_div a b d =
     (if d = 0 then Ok None
      else and_then (mul_div_u128 (unsigned_abs a) (unsigned_abs b) (unsigned_abs d))
        (\<lambda>(res_abs, overflow).
           if overflow \<or> word_of_int i128_max < res_abs then Ok None
           else let res = uint res_abs
                in if ((a < 0) \<noteq> (b < 0)) \<noteq> (d < 0) then Ok (Some (- res))
                   else Ok (Some res)))"

subsection \<open>The restoring division\<close>

lemma unat_128: "unat (w :: u128) < 2 ^ 128"
  using unsigned_less [of w] by simp

lemma take_bit_unat_128: "take_bit LENGTH(128) (unat (w :: u128)) = unat w"
  using unat_128 [of w] by (simp add: take_bit_nat_eq_self_iff)

lemma double_bit_word:
  fixes r low :: u128
  assumes "unat r < 2 ^ 127"
  shows "unat (push_bit 1 r OR (drop_bit i low AND 1)) = 2 * unat r + unat low div 2 ^ i mod 2"
proof -
  have disj: "push_bit 1 r AND (drop_bit i low AND 1) = 0"
    by (rule bit_eqI) (auto simp: bit_simps mult.commute [of r 2] bit_double_iff)
  have "push_bit 1 r OR (drop_bit i low AND 1) = push_bit 1 r + (drop_bit i low AND 1)"
    using disj by (simp add: disjunctive_add_eq_or)
  moreover have "unat (push_bit 1 r) = 2 * unat r"
    using assms by (simp add: unat_word_ariths)
  moreover have "unat (drop_bit i low AND 1) = unat low div 2 ^ i mod 2"
  proof -
    have "unat (drop_bit i low AND 1) = drop_bit i (unat low) AND 1"
      by (simp only: unsigned_and_eq unsigned_drop_bit_eq unsigned_1 take_bit_unat_128)
    then show ?thesis by (simp only: and_one_eq drop_bit_eq_div)
  qed
  moreover have "2 * unat r + unat low div 2 ^ i mod 2 < 2 ^ 128"
    using assms by simp
  ultimately show ?thesis
    by (simp add: unat_word_ariths)
qed


lemma or_bit_word:
  fixes q :: u128
  assumes "i < 128" and "unat q mod 2 ^ Suc i = 0"
  shows "unat (q OR push_bit i 1) = unat q + 2 ^ i"
proof -
  have "\<not> bit q i"
  proof -
    obtain k where "unat q = 2 ^ Suc i * k" using assms(2) by auto
    then have "even (unat q div 2 ^ i)" by simp
    then have "\<not> bit (unat q) i" by (simp add: bit_nat_def)
    then show ?thesis by (simp add: bit_unsigned_iff bit_imp_le_length)
  qed
  then have disj: "q AND push_bit i 1 = 0"
    by (intro bit_eqI) (auto simp: bit_simps)
  have "unat q + 2 ^ i < 2 ^ 128"
  proof -
    obtain k where k: "unat q = 2 ^ Suc i * k"
      using assms(2) by auto
    have e: "(2::nat) ^ 128 = 2 ^ Suc i * 2 ^ (127 - i)"
      using assms(1) by (simp flip: power_add)
    have "unat q < 2 ^ 128" by (rule unat_128)
    then have "k < 2 ^ (127 - i)" unfolding k e by simp
    then have "2 ^ Suc i * (k + 1) \<le> 2 ^ Suc i * (2::nat) ^ (127 - i)"
      by (intro mult_le_mono) simp_all
    then have "2 ^ Suc i * k + 2 ^ Suc i \<le> 2 ^ Suc i * (2::nat) ^ (127 - i)"
      by simp
    moreover have "(2::nat) ^ i < 2 ^ Suc i" by simp
    ultimately show ?thesis unfolding k e by linarith
  qed
  moreover have "unat (push_bit i 1 :: u128) = 2 ^ i"
    using assms(1) power_strict_increasing [of i 128 "2::nat"]
    by (simp only: unsigned_push_bit_eq) (simp add: take_bit_nat_eq_self_iff)
  ultimately show ?thesis
    using disj by (simp add: disjunctive_add_eq_or [symmetric] unat_word_ariths)
qed

text \<open>
  One step keeps the division relation: after the bits \<open>127, \<dots>, i\<close> the quotient collected
  so far (its low \<open>i\<close> bits still zero) and the remainder describe \<open>N div 2 ^ i\<close>.
\<close>

definition div_rel :: "nat \<Rightarrow> nat \<Rightarrow> nat \<Rightarrow> nat \<Rightarrow> nat \<Rightarrow> bool" where
  "div_rel N D i q r \<longleftrightarrow> r < D \<and> q mod 2 ^ i = 0 \<and> N div 2 ^ i = q div 2 ^ i * D + r"

lemma div_rel_step:
  assumes "div_rel N D (Suc i) q r" and "b = N div 2 ^ i mod 2"
  shows "D \<le> 2 * r + b \<Longrightarrow> div_rel N D i (q + 2 ^ i) (2 * r + b - D)"
    and "2 * r + b < D \<Longrightarrow> div_rel N D i q (2 * r + b)"
proof -
  obtain k where q: "q = 2 ^ Suc i * k"
    using assms(1) by (auto simp: div_rel_def)
  have "N div 2 ^ i = 2 * (N div 2 ^ Suc i) + b"
  proof -
    have "N div 2 ^ Suc i = N div 2 ^ i div 2"
      by (simp add: div_mult2_eq [symmetric] mult.commute)
    then show ?thesis using assms(2) by simp
  qed
  also have "N div 2 ^ Suc i = k * D + r"
    using assms(1) by (simp add: div_rel_def q)
  finally have N: "N div 2 ^ i = 2 * k * D + (2 * r + b)" by (simp add: algebra_simps)
  have r: "r < D" and b: "b \<le> 1" using assms by (auto simp: div_rel_def)
  have e: "q + 2 ^ i = 2 ^ i * (2 * k + 1)" "q = 2 ^ i * (2 * k)" by (simp_all add: q)
  show "div_rel N D i (q + 2 ^ i) (2 * r + b - D)" if "D \<le> 2 * r + b"
    unfolding div_rel_def e(1) N using that r b by (simp add: algebra_simps)
  show "div_rel N D i q (2 * r + b)" if "2 * r + b < D"
    unfolding div_rel_def N using that by (simp add: e(2))
qed


lemma div_loop_correct:
  fixes low d q r :: u128
  assumes D: "unat d \<le> 2 ^ 127" and L: "N mod 2 ^ 128 = unat low"
  shows "i \<le> 128 \<Longrightarrow> div_rel N (unat d) i (unat q) (unat r) \<Longrightarrow>
           unat (div_loop i low d q r) = N div unat d"
proof (induction i arbitrary: q r)
  case 0
  then have "N = unat q * unat d + unat r" and "unat r < unat d"
    by (simp_all add: div_rel_def)
  then show ?case by simp
next
  case (Suc i)
  define r' where "r' = push_bit 1 r OR (drop_bit i low AND 1)"
  define b where "b = N div 2 ^ i mod 2"
  have i: "i < 128" using Suc.prems by simp
  have rD: "unat r < unat d" and q0: "unat q mod 2 ^ Suc i = 0"
    using Suc.prems(2) by (simp_all add: div_rel_def)
  have "unat low div 2 ^ i mod 2 = b"
  proof -
    have "bit (take_bit 128 N) i = bit N i" using i by (simp add: bit_take_bit_iff)
    then have "odd (unat low div 2 ^ i) = odd (N div 2 ^ i)"
      using L by (simp add: take_bit_eq_mod bit_nat_def)
    then show ?thesis by (simp add: b_def mod2_eq_if)
  qed
  then have r': "unat r' = 2 * unat r + b"
    using double_bit_word [of r i low] rD D by (simp add: r'_def)
  have step: "div_loop (Suc i) low d q r =
      (if d \<le> r' then div_loop i low d (q OR push_bit i 1) (r' - d) else div_loop i low d q r')"
    by (simp only: div_loop.simps Let_def r'_def)
  show ?case
  proof (cases "d \<le> r'")
    case True
    then have "unat (r' - d) = 2 * unat r + b - unat d"
      by (simp add: unat_sub r')
    moreover have "div_rel N (unat d) i (unat q + 2 ^ i) (2 * unat r + b - unat d)"
      using True r' by (intro div_rel_step(1) [OF Suc.prems(2) b_def]) (simp add: word_le_nat_alt)
    ultimately have "div_rel N (unat d) i (unat (q OR push_bit i 1)) (unat (r' - d))"
      by (simp only: or_bit_word [OF i q0])
    with True i show ?thesis
      by (simp only: step if_True Suc.IH less_imp_le)
  next
    case False
    then have "div_rel N (unat d) i (unat q) (unat r')"
      using r' by (simp add: div_rel_step(2) [OF Suc.prems(2) b_def] word_le_nat_alt)
    with False i show ?thesis
      by (simp only: step if_False Suc.IH less_imp_le)
  qed
qed


subsection \<open>The product in limbs\<close>

text \<open>The identity behind the four partial products, on natural numbers.\<close>

lemma limbs_nat:
  fixes p0 p1 p2 p3 B :: nat
  defines "mid \<equiv> p1 mod B + p2 mod B + p0 div B"
  shows "(p3 + p1 div B + p2 div B + mid div B) * B\<^sup>2 + (mid mod B * B + p0 mod B)
       = p3 * B\<^sup>2 + (p1 + p2) * B + p0"
proof -
  define q1 r1 q2 r2 q0 r0 where "q1 = p1 div B" and "r1 = p1 mod B" and "q2 = p2 div B"
    and "r2 = p2 mod B" and "q0 = p0 div B" and "r0 = p0 mod B"
  note defs = this
  obtain qm rm where qm: "qm = mid div B" and rm: "rm = mid mod B" by blast
  have p: "p1 = q1 * B + r1" "p2 = q2 * B + r2" "p0 = q0 * B + r0"
    by (simp_all add: defs)
  have "p3 * B\<^sup>2 + (p1 + p2) * B + p0 = (p3 + q1 + q2) * B\<^sup>2 + (r1 + r2 + q0) * B + r0"
    unfolding p by (simp add: power2_eq_square algebra_simps)
  also have "r1 + r2 + q0 = qm * B + rm"
    by (simp add: qm rm mid_def defs)
  finally show ?thesis
    by (simp add: power2_eq_square algebra_simps qm [symmetric] rm [symmetric]
        defs(1,3,6) [symmetric])
qed

lemma limb_split:
  fixes x :: u128
  shows "unat (x AND limb_mask) = unat x mod 2 ^ 64" and "unat (drop_bit 64 x) = unat x div 2 ^ 64"
proof -
  have "limb_mask = mask 64" by (simp add: limb_mask_def mask_numeral)
  then have "x AND limb_mask = take_bit 64 x" by (simp add: take_bit_eq_mask)
  then have "unat (x AND limb_mask) = take_bit 64 (unat x)"
    by (simp only: unsigned_take_bit_eq)
  then show "unat (x AND limb_mask) = unat x mod 2 ^ 64"
    by (simp only: take_bit_eq_mod)
  show "unat (drop_bit 64 x) = unat x div 2 ^ 64"
    by (subst unsigned_drop_bit_eq) (simp only: take_bit_unat_128 drop_bit_eq_div)
qed

lemma limb_mult:
  fixes x y :: u128
  assumes "unat x < 2 ^ 64" and "unat y < 2 ^ 64"
  shows "unat (x * y) = unat x * unat y" and "unat x * unat y \<le> (2 ^ 64 - 1) * (2 ^ 64 - 1)"
proof -
  show "unat x * unat y \<le> (2 ^ 64 - 1) * (2 ^ 64 - 1)"
    using assms by (intro mult_le_mono) auto
  then show "unat (x * y) = unat x * unat y"
    by (simp add: unat_word_ariths)
qed


lemma limb_join:
  fixes m p :: u128
  shows "unat (push_bit 64 m OR (p AND limb_mask)) = unat m mod 2 ^ 64 * 2 ^ 64 + unat p mod 2 ^ 64"
proof -
  have mask: "limb_mask = mask 64" by (simp add: limb_mask_def mask_numeral)
  have disj: "push_bit 64 m AND (p AND limb_mask) = 0"
    by (intro bit_eqI) (auto simp: mask bit_simps)
  have "unat (push_bit 64 m) = unat m * 2 ^ 64 mod 2 ^ 128"
    by (subst unsigned_push_bit_eq) (simp add: push_bit_eq_mult take_bit_eq_mod)
  also have "\<dots> = unat m mod 2 ^ 64 * 2 ^ 64"
    using mult_mod_left [of "unat m" "2 ^ 64" "2 ^ 64"] by simp
  finally have "unat (push_bit 64 m) = unat m mod 2 ^ 64 * 2 ^ 64" .
  moreover have "unat m mod 2 ^ 64 * 2 ^ 64 + unat p mod 2 ^ 64 < 2 ^ 128"
  proof -
    have "unat m mod 2 ^ 64 \<le> 2 ^ 64 - 1" "unat p mod 2 ^ 64 < 2 ^ 64"
      by (simp_all add: less_Suc_eq_le [symmetric])
    then show ?thesis by simp
  qed
  ultimately show ?thesis
    using disj by (simp add: disjunctive_add_eq_or [symmetric] unat_word_ariths limb_split)
qed

lemma mul_high_low_exact:
  assumes "mul_high_low a b = (high, low)"
  shows "unat high * 2 ^ 128 + unat low = unat a * unat b"
proof -
  define al ah bl bh where "al = a AND limb_mask" and "ah = drop_bit 64 a"
    and "bl = b AND limb_mask" and "bh = drop_bit 64 b"
  note limbs = this
  have u: "unat al = unat a mod 2 ^ 64" "unat ah = unat a div 2 ^ 64"
    "unat bl = unat b mod 2 ^ 64" "unat bh = unat b div 2 ^ 64"
    by (simp_all only: limbs limb_split)
  have lt: "unat al < 2 ^ 64" "unat ah < 2 ^ 64" "unat bl < 2 ^ 64" "unat bh < 2 ^ 64"
    using unat_128 [of a] unat_128 [of b] by (auto simp: u less_mult_imp_div_less)
  define p0 p1 p2 p3 where "p0 = al * bl" and "p1 = al * bh" and "p2 = ah * bl" and "p3 = ah * bh"
  note prods = this
  have up: "unat p0 = unat al * unat bl" "unat p1 = unat al * unat bh"
    "unat p2 = unat ah * unat bl" "unat p3 = unat ah * unat bh"
    using lt by (simp_all only: prods limb_mult)
  have p3_le: "unat p3 \<le> (2 ^ 64 - 1) * (2 ^ 64 - 1)" "unat p0 \<le> (2 ^ 64 - 1) * (2 ^ 64 - 1)"
    "unat p1 \<le> (2 ^ 64 - 1) * (2 ^ 64 - 1)" "unat p2 \<le> (2 ^ 64 - 1) * (2 ^ 64 - 1)"
    using lt limb_mult(2) by (simp_all only: up)
  define mid where "mid = (p1 AND limb_mask) + (p2 AND limb_mask) + drop_bit 64 p0"
  have um: "unat mid = unat p1 mod 2 ^ 64 + unat p2 mod 2 ^ 64 + unat p0 div 2 ^ 64"
    using p3_le unfolding mid_def unat_word_ariths limb_split by simp
  have hl: "high = p3 + drop_bit 64 p1 + drop_bit 64 p2 + drop_bit 64 mid"
    "low = push_bit 64 mid OR (p0 AND limb_mask)"
    using assms by (simp_all only: mul_high_low_def Let_def limbs prods mid_def prod.inject)
  have "unat high = unat p3 + unat p1 div 2 ^ 64 + unat p2 div 2 ^ 64 + unat mid div 2 ^ 64"
    using p3_le unfolding hl unat_word_ariths limb_split um by simp
  then have "unat high * 2 ^ 128 + unat low
      = unat p3 * (2 ^ 64)\<^sup>2 + (unat p1 + unat p2) * 2 ^ 64 + unat p0"
    using limbs_nat [where B = "2 ^ 64" and ?p0.0 = "unat p0" and ?p1.0 = "unat p1"
        and ?p2.0 = "unat p2" and ?p3.0 = "unat p3"]
    by (simp only: hl(2) limb_join um power_mult [symmetric]) simp
  also have "\<dots> = (unat ah * 2 ^ 64 + unat al) * (unat bh * 2 ^ 64 + unat bl)"
    by (simp only: up power2_eq_square) (simp add: algebra_simps)
  also have "\<dots> = unat a * unat b"
    by (simp only: u div_mult_mod_eq)
  finally show ?thesis .
qed


subsection \<open>Exactness\<close>

lemma mul_div_u128_exact:
  fixes a b d :: u128
  assumes "d \<noteq> 0" and "unat d \<le> 2 ^ 127"
  shows "mul_div_u128 a b d =
    (if unat a * unat b div unat d < 2 ^ 128
     then Ok (of_nat (unat a * unat b div unat d), False) else Ok (0, True))"
proof (cases "unat a * unat b < 2 ^ 128")
  case True
  then have "unat (a * b) = unat a * unat b" by (simp add: unat_word_ariths)
  then have "unat (a * b div d) = unat a * unat b div unat d" by (simp add: unat_div)
  moreover have fits: "unat a * unat b div unat d < 2 ^ 128"
    using True by (rule le_less_trans [OF div_le_dividend])
  ultimately have "a * b div d = of_nat (unat a * unat b div unat d)"
    by (simp add: word_unat_eq_iff unat_of_nat)
  then show ?thesis
    using True fits assms(1) by (simp add: mul_div_u128_def)
next
  case False
  obtain high low where hl: "mul_high_low a b = (high, low)" by force
  define N where "N = unat a * unat b"
  have N: "N = unat high * 2 ^ 128 + unat low"
    using mul_high_low_exact [OF hl] by (simp add: N_def)
  have d0: "0 < unat d" using assms(1) by (simp add: unat_gt_0)
  have fits: "N div unat d < 2 ^ 128 \<longleftrightarrow> unat high < unat d"
  proof -
    have "N div unat d < 2 ^ 128 \<longleftrightarrow> N < 2 ^ 128 * unat d"
      using d0 by (simp only: div_less_iff_less_mult)
    also have "\<dots> \<longleftrightarrow> unat high < unat d"
      unfolding N using unat_128 [of low] by auto
    finally show ?thesis .
  qed
  have "unat (div_loop 128 low d 0 high) = N div unat d" if "unat high < unat d"
  proof (rule div_loop_correct [OF assms(2)])
    show "N mod 2 ^ 128 = unat low" unfolding N using unat_128 [of low] by simp
    show "div_rel N (unat d) 128 (unat 0) (unat high)"
      using that unat_128 [of low] by (simp add: div_rel_def N)
  qed simp
  then have "div_loop 128 low d 0 high = of_nat (N div unat d)" if "unat high < unat d"
    using that fits by (simp add: word_unat_eq_iff unat_of_nat)
  then show ?thesis
    using False hl fits
    by (auto simp: mul_div_u128_def N_def [symmetric] word_le_nat_alt not_le)
qed


lemma unat_unsigned_abs:
  assumes "in_i128 x"
  shows "unat (unsigned_abs x) = nat \<bar>x\<bar>"
proof -
  have "\<bar>x\<bar> mod 2 ^ 128 = \<bar>x\<bar>"
    using assms by (intro mod_pos_pos_trivial) (auto simp: in_i128_iff)
  then show ?thesis
    by (simp add: unsigned_abs_def unat_eq_nat_uint uint_word_of_int)
qed

lemma sdiv_sign:
  fixes a b d :: int
  assumes "d \<noteq> 0"
  shows "(a * b) sdiv d =
    (if ((a < 0) \<noteq> (b < 0)) \<noteq> (d < 0) then - (\<bar>a * b\<bar> div \<bar>d\<bar>) else \<bar>a * b\<bar> div \<bar>d\<bar>)"
proof (cases "a * b = 0")
  case True
  then show ?thesis by (simp only: signed_divide_int_def) simp
next
  case False
  then have "sgn (a * b) = (if (a < 0) = (b < 0) then 1 else - 1)"
    by (auto simp: sgn_if zero_less_mult_iff)
  then show ?thesis using assms by (simp add: signed_divide_int_def sgn_if)
qed

lemma mul_div_exact:
  assumes "in_i128 a" and "in_i128 b" and "in_i128 d" and "d \<noteq> 0"
  shows "mul_div a b d =
    Ok (if \<bar>a * b\<bar> div \<bar>d\<bar> \<le> i128_max then Some ((a * b) sdiv d) else None)"
proof -
  define q where "q = \<bar>a * b\<bar> div \<bar>d\<bar>"
  have q0: "0 \<le> q" using assms(4) by (simp add: q_def pos_imp_zdiv_nonneg_iff)
  have nq: "unat (unsigned_abs a) * unat (unsigned_abs b) div unat (unsigned_abs d) = nat q"
    by (simp add: unat_unsigned_abs assms q_def abs_mult nat_mult_distrib nat_div_distrib)
  have "unsigned_abs d \<noteq> 0" and "unat (unsigned_abs d) \<le> 2 ^ 127"
    using assms(3,4) unat_unsigned_abs [OF assms(3)] by (auto simp: in_i128_iff)
  note ex = mul_div_u128_exact [OF this, of "unsigned_abs a" "unsigned_abs b", unfolded nq]
  show ?thesis
  proof (cases "q \<le> i128_max")
    case True
    then have fits: "nat q < 2 ^ 128" and u: "uint (of_nat (nat q) :: u128) = q"
      using q0 by (simp_all add: i128_max_eq uint_word_of_int)
    have "\<not> word_of_int i128_max < (of_nat (nat q) :: u128)"
      using True u by (simp add: word_less_def i128_max_eq)
    then show ?thesis
      using True fits assms(4)
      by (simp add: mul_div_def ex u sdiv_sign [OF assms(4)] q_def [symmetric] Let_def)
  next
    case False
    have "word_of_int i128_max < (of_nat (nat q) :: u128)" if "nat q < 2 ^ 128"
      using False q0 that by (simp add: word_less_def i128_max_eq uint_word_of_int)
    then show ?thesis
      using False assms(4) by (auto simp: mul_div_def ex q_def [symmetric])
  qed
qed


section \<open>Fixed-point numbers\<close>

datatype fixed = Fixed (raw: i128)

definition SCALE :: i128 where "SCALE = 1000000000000000000"
definition LN2 :: i128 where "LN2 = 693147180559945309"

definition fixed_from_int :: "i128 \<Rightarrow> (fixed, contract_error) result" where
  "fixed_from_int v = ok_or (map_option Fixed (checked_mul v SCALE)) Overflow"

definition fixed_to_int :: "fixed \<Rightarrow> i128" where
  "fixed_to_int x = raw x sdiv SCALE"

definition fixed_add :: "fixed \<Rightarrow> fixed \<Rightarrow> (fixed, contract_error) result" where
  "fixed_add x y = ok_or (map_option Fixed (checked_add (raw x) (raw y))) Overflow"

definition fixed_sub :: "fixed \<Rightarrow> fixed \<Rightarrow> (fixed, contract_error) result" where
  "fixed_sub x y = ok_or (map_option Fixed (checked_sub (raw x) (raw y))) Overflow"

definition fixed_mul :: "fixed \<Rightarrow> fixed \<Rightarrow> (fixed, contract_error) result" where
  "fixed_mul x y =
     and_then (mul_div (raw x) (raw y) SCALE) (\<lambda>r. ok_or (map_option Fixed r) Overflow)"

definition fixed_div :: "fixed \<Rightarrow> fixed \<Rightarrow> (fixed, contract_error) result" where
  "fixed_div x y =
     (if raw y = 0 then Err DivisionByZero
      else and_then (mul_div (raw x) SCALE (raw y)) (\<lambda>r. ok_or (map_option Fixed r) Overflow))"

text \<open>The Taylor loop \<open>for i in 1..25\<close>: \<open>k\<close> iterations left, the next index is \<open>i\<close>.\<close>

fun exp_loop :: "nat \<Rightarrow> i128 \<Rightarrow> i128 \<Rightarrow> i128 \<Rightarrow> i128 \<Rightarrow> (i128, contract_error) result" where
  "exp_loop 0 i r term acc = Ok acc"
| "exp_loop (Suc k) i r term acc =
     and_then (mul_div term r (i * SCALE)) (\<lambda>t.
     and_then (ok_or t Overflow) (\<lambda>term.
       if term = 0 then Ok acc
       else and_then (ok_or (checked_add acc term) Overflow) (\<lambda>acc.
         exp_loop k (i + 1) r term acc)))"

text \<open>
  \<open>checked_shl\<close> checks the shift amount only: bits shifted out of the 128 are lost.
\<close>

definition checked_shl :: "i128 \<Rightarrow> nat \<Rightarrow> i128 option" where
  "checked_shl x k = (if k < 128 then Some (wrap_i128 (push_bit k x)) else None)"

definition fixed_exp :: "fixed \<Rightarrow> (fixed, contract_error) result" where
  "fixed_exp x =
     (if raw x = 0 then Ok (Fixed SCALE)
      else if raw x < - 42 * SCALE then Ok (Fixed 0)
      else if 88 * SCALE < raw x then Err Overflow
      else let n = raw x sdiv LN2; r = raw x smod LN2
        in and_then (exp_loop 24 1 r SCALE SCALE) (\<lambda>acc.
             if 0 \<le> n then and_then (ok_or (checked_shl acc (nat n)) Overflow) (\<lambda>v. Ok (Fixed v))
             else Ok (Fixed (drop_bit (nat (- n)) acc))))"

text \<open>The two range-reduction loops of \<open>ln\<close>. \<open>None\<close> is a loop that does not end.\<close>

partial_function (option) ln_down :: "i128 \<Rightarrow> i128 \<Rightarrow> (i128 \<times> i128) option" where
  "ln_down x n = (if 2 * SCALE < x then ln_down (drop_bit 1 x) (n + 1) else Some (x, n))"

partial_function (option) ln_up :: "i128 \<Rightarrow> i128 \<Rightarrow> (i128 \<times> i128) option" where
  "ln_up x n = (if x < SCALE then ln_up (wrap_i128 (push_bit 1 x)) (n - 1) else Some (x, n))"

text \<open>The Newton loop \<open>for _ in 0..8\<close>.\<close>

fun ln_newton :: "env \<Rightarrow> nat \<Rightarrow> i128 \<Rightarrow> i128 \<Rightarrow> (i128, contract_error) result" where
  "ln_newton e 0 x y = Ok y"
| "ln_newton e (Suc k) x y =
     and_then (fixed_exp (Fixed y)) (\<lambda>ey.
     and_then (plain_i128 e (x - raw ey)) (\<lambda>diff.
     and_then (ok_or (checked_mul diff 2) Overflow) (\<lambda>num.
     and_then (plain_i128 e (x + raw ey)) (\<lambda>den.
     and_then (mul_div num SCALE den) (\<lambda>d.
     and_then (ok_or d Overflow) (\<lambda>delta.
     and_then (ok_or (checked_add y delta) Overflow) (\<lambda>y.
       if \<bar>delta\<bar> \<le> 1 then Ok y else ln_newton e k x y)))))))"

text \<open>\<open>fixed_ln\<close> is \<open>None\<close> when a range-reduction loop does not end.\<close>

definition fixed_ln :: "env \<Rightarrow> fixed \<Rightarrow> (fixed, contract_error) result option" where
  "fixed_ln e v =
     (if raw v \<le> 0 then Some (Err InvalidInput)
      else Option.bind (ln_down (raw v) 0) (\<lambda>(x, n).
        Option.bind (ln_up x n) (\<lambda>(x, n).
          Some (and_then (ln_newton e 8 x 0) (\<lambda>y.
                and_then (ok_or (checked_mul n LN2) Overflow) (\<lambda>nln2.
                  ok_or (map_option Fixed (checked_add y nln2)) Overflow))))))"

definition fixed_pow :: "env \<Rightarrow> fixed \<Rightarrow> fixed \<Rightarrow> (fixed, contract_error) result option" where
  "fixed_pow e x y =
     (if raw x = 0 then Some (if raw y = 0 then Ok (Fixed SCALE) else Ok (Fixed 0))
      else if raw x < 0 then Some (Err InvalidInput)
      else map_option (\<lambda>l. and_then l (\<lambda>lnx.
             and_then (fixed_mul y lnx) (\<lambda>ylnx. fixed_exp ylnx)))
           (fixed_ln e x))"


subsection \<open>Range reduction ends\<close>

lemma ln_down_ends:
  assumes "0 < x"
  shows "\<exists>k y. ln_down x n = Some (y, n + int k) \<and> y = x div 2 ^ k \<and> y \<le> 2 * SCALE
           \<and> (0 < k \<longrightarrow> SCALE \<le> y)"
  using assms
proof (induction "nat x" arbitrary: x n rule: less_induct)
  case less
  show ?case
  proof (cases "2 * SCALE < x")
    case False
    then have "ln_down x n = Some (x, n + int 0)" by (subst ln_down.simps) simp
    with False show ?thesis by (intro exI [of _ 0] exI [of _ x]) simp
  next
    case True
    then have half: "0 < x div 2" "nat (x div 2) < nat x" "SCALE \<le> x div 2"
      by (auto simp: SCALE_def)
    from less.hyps [OF half(2,1), of "n + 1"] obtain k where
      k: "ln_down (x div 2) (n + 1) = Some (x div 2 div 2 ^ k, n + 1 + int k)"
        "x div 2 div 2 ^ k \<le> 2 * SCALE" "0 < k \<longrightarrow> SCALE \<le> x div 2 div 2 ^ k"
      by blast
    have e: "x div 2 div 2 ^ k = x div 2 ^ Suc k" by (simp add: zdiv_zmult2_eq [symmetric])
    have "ln_down x n = Some (x div 2 ^ Suc k, n + int (Suc k))"
      using True k(1) by (subst ln_down.simps) (simp add: drop_bit_eq_div e)
    moreover have "SCALE \<le> x div 2 ^ Suc k"
      using k(3) half(3) by (cases "k = 0") (simp_all only: e [symmetric], simp_all)
    ultimately show ?thesis using k(2) unfolding e by blast
  qed
qed

lemma ln_up_ends:
  assumes "0 < x" and "x \<le> 2 * SCALE"
  shows "\<exists>k y. ln_up x n = Some (y, n - int k) \<and> y = x * 2 ^ k \<and> SCALE \<le> y \<and> y \<le> 2 * SCALE
           \<and> (SCALE \<le> x \<longrightarrow> k = 0)"
  using assms
proof (induction "nat (2 * SCALE - x)" arbitrary: x n rule: less_induct)
  case less
  show ?case
  proof (cases "x < SCALE")
    case False
    then have "ln_up x n = Some (x, n - int 0)" by (subst ln_up.simps) simp
    with False less.prems show ?thesis by (intro exI [of _ 0] exI [of _ x]) simp
  next
    case True
    then have dbl: "0 < x * 2" "x * 2 \<le> 2 * SCALE" "nat (2 * SCALE - x * 2) < nat (2 * SCALE - x)"
      using less.prems by auto
    from less.hyps [OF dbl(3,1,2), of "n - 1"] obtain k where
      k: "ln_up (x * 2) (n - 1) = Some (x * 2 * 2 ^ k, n - 1 - int k)"
        "SCALE \<le> x * 2 * 2 ^ k" "x * 2 * 2 ^ k \<le> 2 * SCALE"
      by blast
    have "wrap_i128 (push_bit 1 x) = x * 2"
      using True less.prems by (simp add: wrap_i128_id in_i128_iff SCALE_def)
    then have "ln_up x n = Some (x * 2 ^ Suc k, n - int (Suc k))"
      using True k(1) by (subst ln_up.simps) (simp add: algebra_simps)
    moreover have "SCALE \<le> x * 2 ^ Suc k" "x * 2 ^ Suc k \<le> 2 * SCALE"
      using k(2,3) by (simp_all add: algebra_simps)
    ultimately show ?thesis using True by (metis not_less)
  qed
qed

lemma mul_div_small:
  assumes "0 \<le> a" and "0 \<le> b" and "0 < d" and "d \<le> i128_max" and "a * b \<le> i128_max"
    and "a \<le> i128_max" and "b \<le> i128_max"
  shows "mul_div a b d = Ok (Some (a * b div d))"
proof -
  have "in_i128 a" "in_i128 b" "in_i128 d"
    using assms by (simp_all add: in_i128_def i128_min_eq)
  moreover have "\<bar>a * b\<bar> div \<bar>d\<bar> \<le> i128_max"
    using assms by (simp add: abs_mult) (rule order_trans [OF zdiv_mono2 [of _ 1]], auto)
  ultimately show ?thesis
    using assms by (simp add: mul_div_exact sdiv_nonneg)
qed


lemma exp_loop_numeral:
  "exp_loop (numeral k) i r term acc =
     and_then (mul_div term r (i * SCALE)) (\<lambda>t.
     and_then (ok_or t Overflow) (\<lambda>term.
       if term = 0 then Ok acc
       else and_then (ok_or (checked_add acc term) Overflow) (\<lambda>acc.
         exp_loop (pred_numeral k) (i + 1) r term acc)))"
  by (simp only: numeral_eq_Suc exp_loop.simps)

section \<open>Properties\<close>

text \<open>C21. Fixed-point multiplication and division are exact at double width: for any two
  \<open>i128\<close> values the product (or scaled dividend) is formed without losing its high half,
  divided with truncation towards zero, and the only failures are a quotient whose magnitude
  exceeds \<open>i128::MAX\<close> and a zero divisor.\<close>

theorem fixed_mul_div_exact:
  assumes "in_i128 (raw x)" and "in_i128 (raw y)"
  shows "fixed_mul x y =
      (if \<bar>raw x * raw y\<bar> div SCALE \<le> i128_max then Ok (Fixed ((raw x * raw y) sdiv SCALE))
       else Err Overflow)
    \<and> fixed_div x y =
      (if raw y = 0 then Err DivisionByZero
       else if \<bar>raw x * SCALE\<bar> div \<bar>raw y\<bar> \<le> i128_max
            then Ok (Fixed ((raw x * SCALE) sdiv raw y))
       else Err Overflow)"
proof
  have sc: "in_i128 SCALE" "SCALE \<noteq> 0" "\<bar>SCALE\<bar> = SCALE"
    by (simp_all add: SCALE_def in_i128_iff)
  show "fixed_mul x y =
      (if \<bar>raw x * raw y\<bar> div SCALE \<le> i128_max then Ok (Fixed ((raw x * raw y) sdiv SCALE))
       else Err Overflow)"
    by (simp add: fixed_mul_def mul_div_exact [OF assms sc(1,2)] sc)
  show "fixed_div x y =
      (if raw y = 0 then Err DivisionByZero
       else if \<bar>raw x * SCALE\<bar> div \<bar>raw y\<bar> \<le> i128_max
            then Ok (Fixed ((raw x * SCALE) sdiv raw y))
       else Err Overflow)"
    by (simp add: fixed_div_def mul_div_exact [OF assms(1) sc(1) assms(2)])
qed

theorem fixed_mul_div_exact_witness:
  "fixed_mul (Fixed (170141183460469231731687303715884105727)) (Fixed (- 1500000000000000000))
     = Err Overflow
   \<and> fixed_mul (Fixed (- 3000000000000000000000000000000)) (Fixed 1500000000000000000)
     = Ok (Fixed (- 4500000000000000000000000000000))
   \<and> fixed_div (Fixed 1) (Fixed 0) = Err DivisionByZero"
proof -
  have h: "in_i128 (raw (Fixed 170141183460469231731687303715884105727))"
    "in_i128 (raw (Fixed (- 1500000000000000000)))"
    "in_i128 (raw (Fixed (- 3000000000000000000000000000000)))"
    "in_i128 (raw (Fixed 1500000000000000000))" "in_i128 (raw (Fixed 1))" "in_i128 (raw (Fixed 0))"
    by (simp_all add: in_i128_iff)
  show ?thesis
    using fixed_mul_div_exact [OF h(1,2), THEN conjunct1]
      fixed_mul_div_exact [OF h(3,4), THEN conjunct1]
      fixed_mul_div_exact [OF h(5,6), THEN conjunct2]
    by (simp add: SCALE_def i128_max_eq signed_divide_int_def)
qed

text \<open>An integer converted to fixed point and back is itself; the conversion fails with
  \<open>Overflow\<close> exactly when the scaled value is not an \<open>i128\<close>.\<close>

lemma fixed_int_roundtrip:
  "fixed_from_int v = (if in_i128 (v * SCALE) then Ok (Fixed (v * SCALE)) else Err Overflow)
   \<and> fixed_to_int (Fixed (v * SCALE)) = v"
proof -
  have "(v * SCALE) sdiv SCALE = v"
    by (simp add: SCALE_def signed_divide_int_def abs_mult sgn_mult mult_sgn_abs)
  then show ?thesis by (simp add: fixed_from_int_def fixed_to_int_def checked_mul_def)
qed

text \<open>C33. The range reduction of \<open>ln\<close> ends for every positive input and normalises it: the
  result lies between one and two, and it is the input divided by \<open>2 ^ n\<close> (rounded down) or
  multiplied by \<open>2 ^ (- n)\<close>. Hence \<open>ln\<close> itself always returns.\<close>

theorem fixed_ln_returns:
  assumes "0 < x"
  shows "(\<exists>y n m. Option.bind (ln_down x 0) (\<lambda>(x, n). ln_up x n) = Some (y, n - m)
            \<and> 0 \<le> n \<and> 0 \<le> m \<and> (n = 0 \<or> m = 0)
            \<and> y = x div 2 ^ nat n * 2 ^ nat m \<and> SCALE \<le> y \<and> y \<le> 2 * SCALE)
         \<and> (\<exists>r. fixed_ln e (Fixed x) = Some r)"
proof -
  obtain k where k: "ln_down x 0 = Some (x div 2 ^ k, int k)" "x div 2 ^ k \<le> 2 * SCALE"
    "0 < k \<longrightarrow> SCALE \<le> x div 2 ^ k"
    using ln_down_ends [OF assms, of 0] by auto
  have "0 < x div 2 ^ k"
    using k(3) assms by (cases "k = 0") (auto simp: SCALE_def)
  then obtain l where l: "ln_up (x div 2 ^ k) (int k) = Some (x div 2 ^ k * 2 ^ l, int k - int l)"
    "SCALE \<le> x div 2 ^ k * 2 ^ l" "x div 2 ^ k * 2 ^ l \<le> 2 * SCALE"
    "SCALE \<le> x div 2 ^ k \<longrightarrow> l = 0"
    using ln_up_ends [OF _ k(2), of "int k"] by blast
  have "Option.bind (ln_down x 0) (\<lambda>(x, n). ln_up x n) = Some (x div 2 ^ k * 2 ^ l, int k - int l)
      \<and> 0 \<le> int k \<and> 0 \<le> int l \<and> (int k = 0 \<or> int l = 0)
      \<and> x div 2 ^ k * 2 ^ l = x div 2 ^ nat (int k) * 2 ^ nat (int l)"
    using k l by auto
  moreover have "\<exists>r. fixed_ln e (Fixed x) = Some r"
    using k(1) l(1) assms by (simp add: fixed_ln_def)
  ultimately show ?thesis using l(2,3) by blast
qed

theorem fixed_ln_returns_witness:
  "\<forall>e. \<exists>r. fixed_ln e (Fixed 5000000000000000000) = Some r"
  using fixed_ln_returns [of 5000000000000000000] by simp

text \<open>\<open>exp\<close> accepts every argument up to 88, but its final left shift only checks the shift
  amount: from 47 on the shifted result no longer fits and high bits are dropped without an
  error. \<open>exp(47)\<close> comes out negative and \<open>exp(88)\<close> is zero, both as \<open>Ok\<close>.\<close>

lemma fixed_exp_drops_high_bits:
  "fixed_exp (Fixed (47 * SCALE)) = Ok (Fixed (- 82151078301931717902810754159891972096))
   \<and> fixed_exp (Fixed (88 * SCALE)) = Ok (Fixed 0)"
proof -
  have "exp_loop 24 1 559138902483664297 SCALE SCALE = Ok 1749165649420061745"
    and "exp_loop 24 1 663455249446891066 SCALE SCALE = Ok 1941489087358728420"
    by (simp_all add: exp_loop_numeral SCALE_def mul_div_small i128_max_eq checked_add_def in_i128_iff)
  moreover have "47 * SCALE sdiv LN2 = 67" "47 * SCALE smod LN2 = 559138902483664297"
    "88 * SCALE sdiv LN2 = 126" "88 * SCALE smod LN2 = 663455249446891066"
    by (simp_all add: SCALE_def LN2_def sdiv_nonneg smod_nonneg)
  moreover have "checked_shl 1749165649420061745 67 = Some (- 82151078301931717902810754159891972096)"
    "checked_shl 1941489087358728420 126 = Some 0"
    by (simp_all add: checked_shl_def push_bit_eq_mult wrap_i128_def)
  moreover have "47 * SCALE \<noteq> 0" "\<not> 47 * SCALE < - 42 * SCALE" "\<not> 88 * SCALE < 47 * SCALE"
    "88 * SCALE \<noteq> 0" "\<not> 88 * SCALE < - 42 * SCALE"
    by (simp_all add: SCALE_def)
  ultimately show ?thesis
    by (simp only: fixed_exp_def fixed.sel if_False order.irrefl Let_def and_then.simps) simp
qed

end
