(* ===== verification/Guards.thy ===== *)
theory Guards
  imports Prelude
begin

text \<open>
  The circuit-breaker core \<open>contracts/guards/src/lib.rs\<close> and the entry points of
  \<open>contracts/emergency_guard/src/lib.rs\<close> over it: a pause bitmask, an administrator
  committee with a signature threshold, and a reentrancy lock. The host vectors have fewer
  than \<open>2 ^ 32\<close> entries, so their \<open>u32\<close> lengths are the lengths of the lists; the published
  events are not part of the state. The entry-point crate still carries older copies of the
  mask type and of a few helpers beside its re-export of the shared core; the model follows the
  core, which the entry points call, and takes from the copies only the \<open>METADATA\<close> bit.
\<close>

unbundle bit_operations_syntax

section \<open>The pause bitmask\<close>

datatype pause_type = PauseType (as_u32: u32)

definition PAUSE_SWAP :: u32 where "PAUSE_SWAP = push_bit 0 1"
definition PAUSE_DEPOSIT :: u32 where "PAUSE_DEPOSIT = push_bit 1 1"
definition PAUSE_WITHDRAW :: u32 where "PAUSE_WITHDRAW = push_bit 2 1"
definition PAUSE_TRANSFER :: u32 where "PAUSE_TRANSFER = push_bit 3 1"
definition PAUSE_MINT :: u32 where "PAUSE_MINT = push_bit 4 1"
definition PAUSE_BURN :: u32 where "PAUSE_BURN = push_bit 5 1"
definition PAUSE_CREATE_PAIR :: u32 where "PAUSE_CREATE_PAIR = push_bit 6 1"
definition PAUSE_STAKE :: u32 where "PAUSE_STAKE = push_bit 7 1"
definition PAUSE_CLAIM_REWARDS :: u32 where "PAUSE_CLAIM_REWARDS = push_bit 8 1"
definition PAUSE_METADATA :: u32 where "PAUSE_METADATA = push_bit 9 1"

definition pause_is_paused :: "pause_type \<Rightarrow> u32 \<Rightarrow> bool" where
  "pause_is_paused p operation \<longleftrightarrow> as_u32 p AND operation \<noteq> 0"

definition pause_set_paused :: "pause_type \<Rightarrow> u32 \<Rightarrow> bool \<Rightarrow> pause_type" where
  "pause_set_paused p operation paused =
     (if paused then PauseType (as_u32 p OR operation)
      else PauseType (as_u32 p AND NOT operation))"

definition pause_all :: "pause_type \<Rightarrow> pause_type" where
  "pause_all p = PauseType (- 1)"

section \<open>Storage and errors\<close>

datatype guard_error =
    Reentrancy | NotInitialized | Unauthorized | Paused | InsufficientSignatures
  | InvalidThreshold | AdminNotFound | AlreadyInitialized

record guard =
  pause_state :: "pause_type option"
  admins :: "address list option"
  signature_threshold :: "u32 option"
  locked :: "bool option"

section \<open>Pause state\<close>

definition guard_read_state :: "guard \<Rightarrow> pause_type" where
  "guard_read_state g = (case pause_state g of None \<Rightarrow> PauseType 0 | Some p \<Rightarrow> p)"

definition guard_is_paused :: "guard \<Rightarrow> u32 \<Rightarrow> bool" where
  "guard_is_paused g operation = pause_is_paused (guard_read_state g) operation"

definition guard_get_pause_state :: "guard \<Rightarrow> u32" where
  "guard_get_pause_state g = as_u32 (guard_read_state g)"

definition guard_check_not_paused :: "guard \<Rightarrow> u32 \<Rightarrow> (unit, guard_error) result" where
  "guard_check_not_paused g operation =
     (if guard_is_paused g operation then Err Paused else Ok ())"

definition guard_ensure_not_paused :: "guard \<Rightarrow> u32 \<Rightarrow> (unit, 'e) result" where
  "guard_ensure_not_paused g operation = (if guard_is_paused g operation then Panic else Ok ())"

definition guard_set_pause_state :: "u32 \<Rightarrow> bool \<Rightarrow> guard \<Rightarrow> (guard, guard_error) result" where
  "guard_set_pause_state operation paused g =
     Ok (g\<lparr>pause_state := Some (pause_set_paused (guard_read_state g) operation paused)\<rparr>)"

section \<open>The committee\<close>

definition guard_get_admins :: "guard \<Rightarrow> address list" where
  "guard_get_admins g = (case admins g of None \<Rightarrow> [] | Some as \<Rightarrow> as)"

definition guard_get_threshold :: "guard \<Rightarrow> u32" where
  "guard_get_threshold g = (case signature_threshold g of None \<Rightarrow> 0 | Some t \<Rightarrow> t)"

definition guard_is_admin :: "guard \<Rightarrow> address \<Rightarrow> bool" where
  "guard_is_admin g a \<longleftrightarrow> a \<in> set (guard_get_admins g)"

definition guard_set_pause_by_admin ::
  "env \<Rightarrow> address \<Rightarrow> u32 \<Rightarrow> bool \<Rightarrow> guard \<Rightarrow> (guard, guard_error) result" where
  "guard_set_pause_by_admin e admin operation paused g =
     and_then (require_auth e admin) (\<lambda>_.
       if \<not> guard_is_admin g admin then Err Unauthorized
       else Ok (g\<lparr>pause_state := Some (pause_set_paused (guard_read_state g) operation paused)\<rparr>))"

definition guard_init :: "address list \<Rightarrow> u32 \<Rightarrow> guard \<Rightarrow> (guard, guard_error) result" where
  "guard_init as threshold g =
     (if admins g \<noteq> None then Err AlreadyInitialized
      else if threshold = 0 \<or> length as < unat threshold then Err InvalidThreshold
      else Ok (g\<lparr>admins := Some as, signature_threshold := Some threshold,
                 pause_state := Some (PauseType 0)\<rparr>))"

text \<open>The loop over the approvers: duplicates are skipped, a stranger ends it.\<close>

fun multi_sig_loop ::
  "env \<Rightarrow> guard \<Rightarrow> address list \<Rightarrow> address list \<Rightarrow> nat \<Rightarrow> (nat, guard_error) result" where
  "multi_sig_loop e g [] seen valid = Ok valid"
| "multi_sig_loop e g (addr # rest) seen valid =
     (if addr \<in> set seen then multi_sig_loop e g rest seen valid
      else if guard_is_admin g addr
           then and_then (require_auth e addr) (\<lambda>_.
                  multi_sig_loop e g rest (seen @ [addr]) (valid + 1))
           else Err Unauthorized)"

definition guard_validate_multi_sig ::
  "env \<Rightarrow> guard \<Rightarrow> address list \<Rightarrow> (unit, guard_error) result" where
  "guard_validate_multi_sig e g approvers =
     and_then (ok_or (signature_threshold g) NotInitialized) (\<lambda>threshold.
       if length approvers < unat threshold then Err InsufficientSignatures
       else and_then (multi_sig_loop e g approvers [] 0) (\<lambda>valid.
         if valid < unat threshold then Err InsufficientSignatures else Ok ()))"

definition guard_emergency_pause_all ::
  "env \<Rightarrow> address list \<Rightarrow> guard \<Rightarrow> (guard, guard_error) result" where
  "guard_emergency_pause_all e approvers g =
     and_then (guard_validate_multi_sig e g approvers) (\<lambda>_.
       Ok (g\<lparr>pause_state := Some (pause_all (PauseType 0))\<rparr>))"

definition guard_resume_all ::
  "env \<Rightarrow> address list \<Rightarrow> guard \<Rightarrow> (guard, guard_error) result" where
  "guard_resume_all e approvers g =
     and_then (guard_validate_multi_sig e g approvers) (\<lambda>_.
       Ok (g\<lparr>pause_state := Some (PauseType 0)\<rparr>))"

definition guard_unpause :: "u32 \<Rightarrow> guard \<Rightarrow> (guard, guard_error) result" where
  "guard_unpause operation g = guard_set_pause_state operation False g"

definition guard_unpause_all :: "guard \<Rightarrow> (guard, guard_error) result" where
  "guard_unpause_all g = Ok (g\<lparr>pause_state := Some (PauseType 0)\<rparr>)"

definition guard_add_admin ::
  "env \<Rightarrow> address list \<Rightarrow> address \<Rightarrow> guard \<Rightarrow> (guard, guard_error) result" where
  "guard_add_admin e approvers new_admin g =
     and_then (guard_validate_multi_sig e g approvers) (\<lambda>_.
       let as = guard_get_admins g
       in if new_admin \<in> set as then Ok g
          else Ok (g\<lparr>admins := Some (as @ [new_admin])\<rparr>))"

text \<open>The loop of \<open>remove_admin\<close> copies every entry but \<open>admin\<close> and notes whether one was dropped.\<close>

fun remove_loop :: "address \<Rightarrow> address list \<Rightarrow> address list \<Rightarrow> bool \<Rightarrow> address list \<times> bool" where
  "remove_loop admin [] new_admins found = (new_admins, found)"
| "remove_loop admin (a # as) new_admins found =
     (if a \<noteq> admin then remove_loop admin as (new_admins @ [a]) found
      else remove_loop admin as new_admins True)"

definition guard_remove_admin ::
  "env \<Rightarrow> address list \<Rightarrow> address \<Rightarrow> guard \<Rightarrow> (guard, guard_error) result" where
  "guard_remove_admin e approvers admin g =
     and_then (guard_validate_multi_sig e g approvers) (\<lambda>_.
       let as = guard_get_admins g; threshold = guard_get_threshold g
       in if length as \<le> unat threshold then Err InvalidThreshold
          else let (new_admins, found) = remove_loop admin as [] False
               in if \<not> found then Err AdminNotFound
                  else Ok (g\<lparr>admins := Some new_admins\<rparr>))"

fun rotate_loop ::
  "address \<Rightarrow> address \<Rightarrow> address list \<Rightarrow> address list \<Rightarrow> bool \<Rightarrow> address list \<times> bool" where
  "rotate_loop old_admin new_admin [] new_admins found = (new_admins, found)"
| "rotate_loop old_admin new_admin (a # as) new_admins found =
     (if a = old_admin then rotate_loop old_admin new_admin as new_admins True
      else if a \<noteq> new_admin then rotate_loop old_admin new_admin as (new_admins @ [a]) found
      else rotate_loop old_admin new_admin as new_admins found)"

definition guard_rotate_admin ::
  "env \<Rightarrow> address list \<Rightarrow> address \<Rightarrow> address \<Rightarrow> guard \<Rightarrow> (guard, guard_error) result" where
  "guard_rotate_admin e approvers old_admin new_admin g =
     and_then (guard_validate_multi_sig e g approvers) (\<lambda>_.
       let (new_admins, found) = rotate_loop old_admin new_admin (guard_get_admins g) [] False
       in if \<not> found then Err AdminNotFound
          else let new_admins = new_admins @ [new_admin]
               in if length new_admins < unat (guard_get_threshold g) then Err InvalidThreshold
                  else Ok (g\<lparr>admins := Some new_admins\<rparr>))"

section \<open>The reentrancy lock\<close>

definition reentrancy_enter :: "guard \<Rightarrow> (guard, guard_error) result" where
  "reentrancy_enter g =
     (case locked g of
        Some True \<Rightarrow> Err Reentrancy
      | _ \<Rightarrow> Ok (g\<lparr>locked := Some True\<rparr>))"

definition reentrancy_exit :: "guard \<Rightarrow> guard" where
  "reentrancy_exit g = g\<lparr>locked := Some False\<rparr>"

definition reentrancy_is_entered :: "guard \<Rightarrow> bool" where
  "reentrancy_is_entered g = (case locked g of None \<Rightarrow> False | Some b \<Rightarrow> b)"

section \<open>The EmergencyGuard contract\<close>

definition eg_initialize :: "address list \<Rightarrow> u32 \<Rightarrow> guard \<Rightarrow> (guard, guard_error) result" where
  "eg_initialize as threshold g = guard_init as threshold g"

definition eg_is_paused :: "guard \<Rightarrow> u32 \<Rightarrow> bool" where
  "eg_is_paused g operation = guard_is_paused g operation"

definition eg_set_pause ::
  "env \<Rightarrow> address \<Rightarrow> u32 \<Rightarrow> bool \<Rightarrow> guard \<Rightarrow> (guard, guard_error) result" where
  "eg_set_pause e admin operation paused g = guard_set_pause_by_admin e admin operation paused g"

definition eg_emergency_pause :: "env \<Rightarrow> address list \<Rightarrow> guard \<Rightarrow> (guard, guard_error) result" where
  "eg_emergency_pause e approvers g = guard_emergency_pause_all e approvers g"

definition eg_resume :: "env \<Rightarrow> address list \<Rightarrow> guard \<Rightarrow> (guard, guard_error) result" where
  "eg_resume e approvers g = guard_resume_all e approvers g"

definition eg_add_admin ::
  "env \<Rightarrow> address list \<Rightarrow> address \<Rightarrow> guard \<Rightarrow> (guard, guard_error) result" where
  "eg_add_admin e approvers new_admin g = guard_add_admin e approvers new_admin g"

definition eg_remove_admin ::
  "env \<Rightarrow> address list \<Rightarrow> address \<Rightarrow> guard \<Rightarrow> (guard, guard_error) result" where
  "eg_remove_admin e approvers admin g = guard_remove_admin e approvers admin g"

definition eg_rotate_admin ::
  "env \<Rightarrow> address list \<Rightarrow> address \<Rightarrow> address \<Rightarrow> guard \<Rightarrow> (guard, guard_error) result" where
  "eg_rotate_admin e approvers old_admin new_admin g =
     guard_rotate_admin e approvers old_admin new_admin g"

text \<open>One call of the deployed contract, in some environment.\<close>

inductive eg_step :: "env \<Rightarrow> guard \<Rightarrow> guard \<Rightarrow> bool" for e where
  initialize: "eg_initialize as t g = Ok g' \<Longrightarrow> eg_step e g g'"
| set_pause: "eg_set_pause e a op b g = Ok g' \<Longrightarrow> eg_step e g g'"
| emergency_pause: "eg_emergency_pause e as g = Ok g' \<Longrightarrow> eg_step e g g'"
| resume: "eg_resume e as g = Ok g' \<Longrightarrow> eg_step e g g'"
| add_admin: "eg_add_admin e as a g = Ok g' \<Longrightarrow> eg_step e g g'"
| remove_admin: "eg_remove_admin e as a g = Ok g' \<Longrightarrow> eg_step e g g'"
| rotate_admin: "eg_rotate_admin e as a b g = Ok g' \<Longrightarrow> eg_step e g g'"

lemmas eg_defs = eg_initialize_def eg_is_paused_def eg_set_pause_def eg_emergency_pause_def
  eg_resume_def eg_add_admin_def eg_remove_admin_def eg_rotate_admin_def


section \<open>Quorums\<close>

text \<open>
  What the committee's operations rely on: an approval passes exactly when the approvers are
  members, each has authorized the invocation, and there are enough different ones.
\<close>

locale quorum =
  fixes validate :: "env \<Rightarrow> 's \<Rightarrow> address list \<Rightarrow> (unit, 'e) result"
    and members :: "'s \<Rightarrow> address set"
    and needed :: "'s \<Rightarrow> nat option"
  assumes finite_members: "finite (members s)"
    and validate_ok: "validate e s as = Ok u \<longleftrightarrow>
      (\<exists>n. needed s = Some n \<and> n \<le> card (set as)) \<and> set as \<subseteq> members s
      \<and> (\<forall>a\<in>set as. authorized e a)"
begin

lemma signers:
  assumes "validate e s as = Ok u"
  shows "\<exists>n. needed s = Some n \<and> n \<le> card {a \<in> members s. authorized e a}"
proof -
  obtain n where n: "needed s = Some n" "n \<le> card (set as)"
    and sub: "set as \<subseteq> {a \<in> members s. authorized e a}"
    using assms by (auto simp: validate_ok)
  have "card (set as) \<le> card {a \<in> members s. authorized e a}"
    using finite_members sub by (intro card_mono) auto
  with n show ?thesis by auto
qed

lemma gated_signers:
  assumes "and_then (validate e s as) k = Ok r"
  shows "\<exists>n. needed s = Some n \<and> n \<le> card {a \<in> members s. authorized e a}"
  using assms signers by auto

lemma attainable:
  assumes "needed s = Some n" and "n \<le> card (members s)" and "\<forall>a\<in>members s. authorized e a"
  shows "\<exists>as. validate e s as = Ok ()"
proof -
  obtain as where "set as = members s" using finite_members finite_list by blast
  with assms show ?thesis by (intro exI [of _ as]) (simp add: validate_ok)
qed

lemma unattainable:
  assumes "needed s = Some n" and "card (members s) < n"
  shows "validate e s as \<noteq> Ok u"
proof
  assume "validate e s as = Ok u"
  then obtain m where "needed s = Some m" "m \<le> card {a \<in> members s. authorized e a}"
    using signers by blast
  moreover have "card {a \<in> members s. authorized e a} \<le> card (members s)"
    by (intro card_mono) (auto simp: finite_members)
  ultimately show False using assms by simp
qed

end

lemma multi_sig_loop_ok:
  "multi_sig_loop e g as seen v = Ok n \<longleftrightarrow>
     (\<forall>a\<in>set as - set seen. guard_is_admin g a \<and> authorized e a) \<and> n = v + card (set as - set seen)"
proof (induction as arbitrary: seen v)
  case Nil
  then show ?case by auto
next
  case (Cons a as)
  show ?case
  proof (cases "a \<in> set seen")
    case True
    then show ?thesis by (simp add: Cons.IH insert_Diff_if)
  next
    case False
    have "set (a # as) - set seen = insert a (set as - set (seen @ [a]))" using False by auto
    moreover have "card (insert a (set as - set (seen @ [a]))) = Suc (card (set as - set (seen @ [a])))"
      by (subst card_insert_disjoint) auto
    ultimately show ?thesis using False by (auto simp: Cons.IH)
  qed
qed

lemma validate_multi_sig_ok:
  "guard_validate_multi_sig e g as = Ok u \<longleftrightarrow>
     (\<exists>n. map_option unat (signature_threshold g) = Some n \<and> n \<le> card (set as))
     \<and> set as \<subseteq> set (guard_get_admins g) \<and> (\<forall>a\<in>set as. authorized e a)"
  using card_length [of as]
  by (cases "signature_threshold g")
    (auto simp: guard_validate_multi_sig_def multi_sig_loop_ok guard_is_admin_def not_less subset_iff)

interpretation committee: quorum guard_validate_multi_sig "\<lambda>g. set (guard_get_admins g)"
  "\<lambda>g. map_option unat (signature_threshold g)"
  by unfold_locales (simp_all add: validate_multi_sig_ok)

lemma remove_loop_eq:
  "remove_loop admin as acc found = (acc @ filter (\<lambda>a. a \<noteq> admin) as, found \<or> admin \<in> set as)"
  by (induction as arbitrary: acc found) auto

lemma rotate_loop_eq:
  "rotate_loop old new as acc found =
     (acc @ filter (\<lambda>a. a \<noteq> old \<and> a \<noteq> new) as, found \<or> old \<in> set as)"
  by (induction as arbitrary: acc found) auto

text \<open>The committee is well formed: no duplicates and a threshold it can meet.\<close>

definition committee_ok :: "guard \<Rightarrow> bool" where
  "committee_ok g \<longleftrightarrow>
     (case (admins g, signature_threshold g) of
        (Some as, Some t) \<Rightarrow> distinct as \<and> 1 \<le> unat t \<and> unat t \<le> length as
      | _ \<Rightarrow> False)"

lemma committee_okI:
  "admins g = Some as \<Longrightarrow> signature_threshold g = Some t \<Longrightarrow> distinct as \<Longrightarrow> 1 \<le> unat t \<Longrightarrow>
     unat t \<le> length as \<Longrightarrow> committee_ok g"
  by (simp add: committee_ok_def)

lemma committee_okE:
  assumes "committee_ok g"
  obtains as t where "admins g = Some as" "signature_threshold g = Some t" "distinct as"
    "1 \<le> unat t" "unat t \<le> length as"
  using assms by (auto simp: committee_ok_def split: option.splits)

lemma committee_ok_pause [simp]: "committee_ok (g\<lparr>pause_state := p\<rparr>) = committee_ok g"
  by (simp add: committee_ok_def)

lemma length_filter_neq:
  "distinct as \<Longrightarrow> a \<in> set as \<Longrightarrow> length (filter (\<lambda>x. x \<noteq> a) as) = length as - 1"
proof (induction as)
  case (Cons b bs)
  show ?case
  proof (cases "a = b")
    case True
    with Cons.prems have "filter (\<lambda>x. x \<noteq> a) bs = bs" by (intro filter_True) auto
    with True show ?thesis by simp
  next
    case False
    then have "0 < length bs" using Cons.prems by (cases bs) auto
    with False Cons show ?thesis by simp
  qed
qed simp

lemma eg_step_committee:
  assumes "committee_ok g" and "eg_step e g g'"
  shows "committee_ok g'"
  using assms(2)
proof cases
  case (initialize as t)
  with assms(1) show ?thesis
    by (auto elim!: committee_okE simp: eg_defs guard_init_def)
next
  case (remove_admin as a)
  obtain cs t where c: "admins g = Some cs" "signature_threshold g = Some t" "distinct cs"
    "1 \<le> unat t" "unat t \<le> length cs" using assms(1) by (rule committee_okE)
  from remove_admin have r: "g' = g\<lparr>admins := Some (filter (\<lambda>x. x \<noteq> a) cs)\<rparr>"
    "unat t < length cs" "a \<in> set cs"
    using c by (auto simp: eg_defs guard_remove_admin_def remove_loop_eq guard_get_admins_def
        guard_get_threshold_def Let_def split: if_splits)
  show ?thesis
    using c r by (intro committee_okI [of _ "filter (\<lambda>x. x \<noteq> a) cs" t]) (auto simp: length_filter_neq)
next
  case (rotate_admin as a b)
  with assms(1) show ?thesis
    by (elim committee_okE) (auto simp: eg_defs guard_rotate_admin_def rotate_loop_eq Let_def
        guard_get_admins_def guard_get_threshold_def committee_ok_def split: if_splits)
next
  case (add_admin as a)
  with assms(1) show ?thesis
    by (elim committee_okE) (auto simp: eg_defs guard_add_admin_def guard_get_admins_def
        guard_is_admin_def committee_ok_def split: if_splits)
qed (use assms(1) in \<open>auto simp: eg_defs guard_set_pause_by_admin_def
      guard_emergency_pause_all_def guard_resume_all_def guard_set_pause_state_def split: if_splits\<close>)


section \<open>Properties of the guard\<close>

lemmas pause_mask_defs = guard_get_pause_state_def guard_is_paused_def guard_read_state_def
  pause_is_paused_def pause_set_paused_def pause_all_def

lemma bit_u32_bound: "bit (w :: u32) i \<Longrightarrow> i < 32"
  using bit_imp_le_length [of w i] by simp

definition eg_run :: "guard \<Rightarrow> guard \<Rightarrow> bool" where
  "eg_run g0 = reach (\<lambda>g. g = g0) (\<lambda>g g'. \<exists>e. eg_step e g g')"

definition fresh_guard :: guard where
  "fresh_guard = \<lparr>pause_state = None, admins = None, signature_threshold = None, locked = None\<rparr>"

lemma eg_run_committee:
  assumes "eg_run g0 g" and "committee_ok g0"
  shows "committee_ok g"
  using assms(1) unfolding eg_run_def
  by (induction rule: reach_invariant) (auto simp: assms(2) dest: eg_step_committee)

text \<open>
  C6. A guard initialized with different administrators keeps a usable committee: after any
  sequence of calls, under any authorizations, the administrators are still pairwise different,
  the threshold lies between one and their number, and a quorum that every multi-signature
  operation accepts exists.
\<close>

theorem guard_committee_stays_usable:
  assumes "guard_init as t fresh_guard = Ok g0" and "distinct as" and "eg_run g0 g"
  shows "committee_ok g \<and>
    (\<forall>e. (\<forall>a\<in>set (guard_get_admins g). authorized e a) \<longrightarrow>
      (\<exists>approvers g'. eg_resume e approvers g = Ok g'))"
proof
  have "committee_ok g0"
    using assms(1,2) unat_gt_0 [of t]
    by (auto simp: guard_init_def fresh_guard_def committee_ok_def Suc_le_eq split: if_splits)
  then show ok: "committee_ok g" using assms(3) eg_run_committee by blast
  then obtain as t where c: "admins g = Some as" "signature_threshold g = Some t" "distinct as"
    "unat t \<le> length as" by (rule committee_okE)
  show "\<forall>e. (\<forall>a\<in>set (guard_get_admins g). authorized e a) \<longrightarrow>
      (\<exists>approvers g'. eg_resume e approvers g = Ok g')"
  proof (intro allI impI)
    fix e :: env
    assume "\<forall>a\<in>set (guard_get_admins g). authorized e a"
    with c committee.attainable [of g "unat t" e] obtain approvers
      where "guard_validate_multi_sig e g approvers = Ok ()"
      by (auto simp: guard_get_admins_def distinct_card)
    then show "\<exists>approvers g'. eg_resume e approvers g = Ok g'"
      by (intro exI [of _ approvers]) (simp add: eg_defs guard_resume_all_def)
  qed
qed

theorem guard_committee_stays_usable_witness:
  "\<exists>g0. guard_init [1, 2, 3] 2 fresh_guard = Ok g0 \<and> distinct [1, 2, 3 :: address] \<and> eg_run g0 g0
     \<and> committee_ok g0"
proof -
  let ?g0 = "\<lparr>pause_state = Some (PauseType 0), admins = Some [1, 2, 3],
    signature_threshold = Some 2, locked = None\<rparr>"
  have i: "guard_init [1, 2, 3] 2 fresh_guard = Ok ?g0" by (simp add: guard_init_def fresh_guard_def)
  have d: "distinct [1, 2, 3 :: address]" by simp
  have r: "eg_run ?g0 ?g0" unfolding eg_run_def by (rule reach_init) simp
  show ?thesis using i d r guard_committee_stays_usable [OF i d r] by blast
qed

text \<open>
  C22. On a well-formed guard, a call that changes anything was authorized by an administrator,
  and a call that changes the committee was authorized by at least the threshold of them.
\<close>

theorem guard_changes_are_authorized:
  assumes "committee_ok g" and "eg_step e g g'" and "g' \<noteq> g"
  shows "(\<exists>a\<in>set (guard_get_admins g). authorized e a) \<and> signature_threshold g' = signature_threshold g
    \<and> (admins g' \<noteq> admins g \<longrightarrow>
         unat (guard_get_threshold g) \<le> card {a \<in> set (guard_get_admins g). authorized e a})"
proof -
  let ?S = "{a \<in> set (guard_get_admins g). authorized e a}"
  obtain as t where c: "admins g = Some as" "signature_threshold g = Some t" "1 \<le> unat t"
    using assms(1) by (rule committee_okE)
  have q: "unat t \<le> card ?S \<and> (\<exists>a\<in>set (guard_get_admins g). authorized e a)"
    if "guard_validate_multi_sig e g approvers = Ok ()" for approvers
  proof -
    have "unat t \<le> card ?S" using committee.signers [OF that] c by auto
    moreover from this c(3) have "?S \<noteq> {}" by (metis card.empty not_one_le_zero order_trans)
    ultimately show ?thesis by blast
  qed
  from assms(2) show ?thesis
  proof cases
    case (initialize as t)
    with c show ?thesis by (simp add: eg_defs guard_init_def)
  next
    case (set_pause a op b)
    then show ?thesis
      by (auto simp: eg_defs guard_set_pause_by_admin_def guard_is_admin_def split: if_splits)
  qed (use q c assms(3) in \<open>auto simp: eg_defs guard_emergency_pause_all_def guard_resume_all_def
      guard_add_admin_def guard_remove_admin_def guard_rotate_admin_def guard_get_threshold_def
      Let_def split: if_splits prod.splits\<close>)
qed

definition guard_example :: guard where
  "guard_example = \<lparr>pause_state = Some (PauseType 0), admins = Some [1, 2, 3],
     signature_threshold = Some 2, locked = None\<rparr>"

definition env_example :: env where
  "env_example = \<lparr>sequence = 100, timestamp = 1000, authorized = (\<lambda>a. a < 3), self = 9,
     overflow_checks = True\<rparr>"

theorem guard_changes_are_authorized_witness:
  "committee_ok guard_example \<and>
   (\<exists>g'. eg_step env_example guard_example g' \<and> g' \<noteq> guard_example \<and>
      (\<exists>a\<in>set (guard_get_admins guard_example). authorized env_example a))"
proof -
  let ?g' = "guard_example\<lparr>admins := Some [1, 2]\<rparr>"
  have c: "committee_ok guard_example" by (simp add: committee_ok_def guard_example_def)
  have "eg_remove_admin env_example [1, 2] 3 guard_example = Ok ?g'" by code_simp
  then have s: "eg_step env_example guard_example ?g'" by (rule eg_step.remove_admin)
  have n: "?g' \<noteq> guard_example" by (simp add: guard_example_def)
  show ?thesis using c s n guard_changes_are_authorized [OF c s n] by blast
qed

text \<open>
  The pause mask is exact, bit by bit: an administrator's \<open>set_pause\<close> sets or clears the
  bits of its operation mask and no other, \<open>emergency_pause\<close> pauses every non-empty operation
  mask, and \<open>resume\<close> pauses none.
\<close>

lemma guard_pause_exact:
  "(eg_set_pause e a op b g = Ok g' \<longrightarrow> (\<forall>i. bit (guard_get_pause_state g') i =
      (if bit op i then b else bit (guard_get_pause_state g) i)))
   \<and> (eg_emergency_pause e as g = Ok g' \<longrightarrow> (\<forall>m. eg_is_paused g' m = (m \<noteq> 0)))
   \<and> (eg_resume e as g = Ok g' \<longrightarrow> (\<forall>m. \<not> eg_is_paused g' m))"
  by (auto simp: eg_defs guard_set_pause_by_admin_def guard_emergency_pause_all_def
      guard_resume_all_def pause_mask_defs bit_simps split: if_splits dest: bit_u32_bound)

text \<open>
  \<open>init\<close> accepts a list that names an administrator twice, and \<open>remove_admin\<close> compares the length of
  the list with the threshold but drops every copy of the one it removes. A removal after which fewer
  different administrators are left than the threshold needs, which takes such a duplicate, freezes the
  committee: in every later state it is the same and no multi-signature operation is accepted, although
  \<open>remove_admin\<close> is documented never to drop the committee below the threshold. Single administrators
  can still set pauses.
\<close>

lemma eg_step_frozen:
  assumes "admins g = Some as" and "signature_threshold g = Some t" and "card (set as) < unat t"
    and "eg_step e g h"
  shows "admins h = Some as \<and> signature_threshold h = Some t"
proof -
  have no: "guard_validate_multi_sig e g approvers \<noteq> Ok u" for approvers u
    by (rule committee.unattainable [of _ "unat t"]) (use assms in \<open>simp_all add: guard_get_admins_def\<close>)
  from assms(4) show ?thesis
    by cases (use assms(1,2) no in \<open>auto simp: eg_defs guard_init_def guard_set_pause_by_admin_def
        guard_emergency_pause_all_def guard_resume_all_def guard_add_admin_def guard_remove_admin_def
        guard_rotate_admin_def split: if_splits\<close>)
qed

lemma guard_duplicate_admins_freeze:
  assumes "admins g = Some as" and "signature_threshold g = Some t" and "card (set as - {a}) < unat t"
    and "eg_remove_admin e approvers a g = Ok g'" and "eg_run g' h"
  shows "guard_get_admins h = filter (\<lambda>b. b \<noteq> a) as \<and> guard_get_threshold h = t
    \<and> (\<forall>e' approvers' k. eg_resume e' approvers' h \<noteq> Ok k \<and> eg_emergency_pause e' approvers' h \<noteq> Ok k
        \<and> (\<forall>b. eg_add_admin e' approvers' b h \<noteq> Ok k \<and> eg_remove_admin e' approvers' b h \<noteq> Ok k)
        \<and> (\<forall>b c. eg_rotate_admin e' approvers' b c h \<noteq> Ok k))"
proof -
  let ?as = "filter (\<lambda>b. b \<noteq> a) as"
  have g': "admins g' = Some ?as" "signature_threshold g' = Some t"
    using assms(1,2,4) by (auto simp: eg_defs guard_remove_admin_def remove_loop_eq guard_get_admins_def
        Let_def split: if_splits)
  have few: "card (set ?as) < unat t" using assms(3) by (simp add: set_diff_eq)
  have h: "admins h = Some ?as \<and> signature_threshold h = Some t"
    using assms(5) unfolding eg_run_def
    by (induction rule: reach_invariant) (use g' eg_step_frozen few in blast)+
  have "guard_validate_multi_sig e' h approvers' \<noteq> Ok u" for e' approvers' u
    by (rule committee.unattainable [of _ "unat t"]) (use h few in \<open>simp_all add: guard_get_admins_def\<close>)
  with h show ?thesis
    by (simp add: eg_defs guard_resume_all_def guard_emergency_pause_all_def guard_add_admin_def
        guard_remove_admin_def guard_rotate_admin_def guard_get_admins_def guard_get_threshold_def)
qed

lemma guard_duplicate_admins_reachable:
  "\<exists>g g'. guard_init [1, 1, 2] 2 fresh_guard = Ok g \<and> card (set [1, 1, 2 :: address] - {1}) < unat (2 :: u32)
     \<and> eg_remove_admin env_example [1, 2] 1 g = Ok g'"
proof -
  let ?g = "\<lparr>pause_state = Some (PauseType 0), admins = Some [1, 1, 2],
    signature_threshold = Some 2, locked = None\<rparr>"
  have "guard_init [1, 1, 2] 2 fresh_guard = Ok ?g" by (simp add: guard_init_def fresh_guard_def)
  moreover have "eg_remove_admin env_example [1, 2] 1 ?g = Ok (?g\<lparr>admins := Some [2]\<rparr>)" by code_simp
  ultimately show ?thesis by simp
qed

end
