(* ===== verification/Token.thy ===== *)
theory Token
  imports Guards
begin

text \<open>
  The token contract, \<open>contracts/token/src\<close>: balances, allowances, the administrator, the
  metadata with its cached URI, and the emergency guard the contract embeds in its own storage.
  The contract's functions trap instead of returning errors, except for the guard's, which
  return a \<open>GuardError\<close>. Strings are byte strings; the rent of storage entries is not modelled.
\<close>

section \<open>State\<close>

record allowance_value =
  amount :: i128
  expiration_ledger :: u32

record token_metadata =
  meta_name :: string
  meta_symbol :: string
  meta_decimals :: u32

record cached_uri =
  cached :: string
  cached_ledger :: u32

record uri_info =
  info_uri :: string
  info_cached_ledger :: u32
  info_ttl :: u32
  info_expired :: bool

record token =
  tok_guard :: guard
  administrator :: "address option"
  balances :: "address \<rightharpoonup> i128"
  allowances :: "address \<times> address \<rightharpoonup> allowance_value"
  metadata :: "token_metadata option"
  uri_cache :: "cached_uri option"
  uri_ttl :: "u32 option"

type_synonym tok_result = "(token, guard_error) result"

section \<open>Administrator, metadata, balances\<close>

definition has_administrator :: "token \<Rightarrow> bool" where
  "has_administrator s \<longleftrightarrow> administrator s \<noteq> None"

definition read_administrator :: "token \<Rightarrow> (address, 'e) result" where
  "read_administrator s = unwrap (administrator s)"

definition write_administrator :: "address \<Rightarrow> token \<Rightarrow> token" where
  "write_administrator a s = s\<lparr>administrator := Some a\<rparr>"

definition load_metadata :: "token \<Rightarrow> (token_metadata, 'e) result" where
  "load_metadata s = unwrap (metadata s)"

definition write_metadata :: "string \<Rightarrow> string \<Rightarrow> u32 \<Rightarrow> token \<Rightarrow> token" where
  "write_metadata name symbol decimals s =
     s\<lparr>metadata := Some \<lparr>meta_name = name, meta_symbol = symbol, meta_decimals = decimals\<rparr>\<rparr>"

definition write_decimal :: "u32 \<Rightarrow> token \<Rightarrow> (token, 'e) result" where
  "write_decimal d s =
     and_then (load_metadata s) (\<lambda>meta. Ok (s\<lparr>metadata := Some (meta\<lparr>meta_decimals := d\<rparr>)\<rparr>))"

definition write_name :: "string \<Rightarrow> token \<Rightarrow> (token, 'e) result" where
  "write_name name s =
     and_then (load_metadata s) (\<lambda>meta. Ok (s\<lparr>metadata := Some (meta\<lparr>meta_name := name\<rparr>)\<rparr>))"

definition write_symbol :: "string \<Rightarrow> token \<Rightarrow> (token, 'e) result" where
  "write_symbol symbol s =
     and_then (load_metadata s) (\<lambda>meta. Ok (s\<lparr>metadata := Some (meta\<lparr>meta_symbol := symbol\<rparr>)\<rparr>))"

definition read_balance :: "token \<Rightarrow> address \<Rightarrow> i128" where
  "read_balance s a = get0 (balances s) a"

definition write_balance :: "address \<Rightarrow> i128 \<Rightarrow> token \<Rightarrow> token" where
  "write_balance a n s = s\<lparr>balances := (balances s)(a \<mapsto> n)\<rparr>"

definition receive_balance :: "env \<Rightarrow> address \<Rightarrow> i128 \<Rightarrow> token \<Rightarrow> tok_result" where
  "receive_balance e a n s =
     and_then (plain_i128 e (read_balance s a + n)) (\<lambda>b. Ok (write_balance a b s))"

definition spend_balance :: "env \<Rightarrow> address \<Rightarrow> i128 \<Rightarrow> token \<Rightarrow> tok_result" where
  "spend_balance e a n s =
     (if read_balance s a < n then Panic
      else and_then (plain_i128 e (read_balance s a - n)) (\<lambda>b. Ok (write_balance a b s)))"

section \<open>Allowances\<close>

definition read_allowance :: "token \<Rightarrow> address \<Rightarrow> address \<Rightarrow> allowance_value" where
  "read_allowance s from spender =
     (case allowances s (from, spender) of
        Some v \<Rightarrow> v
      | None \<Rightarrow> \<lparr>amount = 0, expiration_ledger = 0\<rparr>)"

definition write_allowance :: "address \<Rightarrow> address \<Rightarrow> i128 \<Rightarrow> u32 \<Rightarrow> token \<Rightarrow> token" where
  "write_allowance from spender n expiration s =
     (if n > 0
      then s\<lparr>allowances := (allowances s)
               ((from, spender) \<mapsto> \<lparr>amount = n, expiration_ledger = expiration\<rparr>)\<rparr>
      else s\<lparr>allowances := (allowances s)((from, spender) := None)\<rparr>)"

definition spend_allowance :: "env \<Rightarrow> address \<Rightarrow> address \<Rightarrow> i128 \<Rightarrow> token \<Rightarrow> tok_result" where
  "spend_allowance e from spender n s =
     (let a = read_allowance s from spender
      in if amount a < n then Panic
         else if expiration_ledger a < sequence e then Panic
         else and_then (plain_i128 e (amount a - n)) (\<lambda>rest.
           Ok (write_allowance from spender rest (expiration_ledger a) s)))"

section \<open>The metadata URI\<close>

definition MAX_URI_BYTES :: nat where "MAX_URI_BYTES = 512"
definition DEFAULT_URI_TTL :: u32 where "DEFAULT_URI_TTL = 8640"
definition MAX_URI_TTL :: u32 where "MAX_URI_TTL = 3115200"

definition URI_PREFIXES :: "string list" where
  "URI_PREFIXES = [''http://'', ''https://'', ''ipfs://'']"

definition starts_with :: "string \<Rightarrow> string \<Rightarrow> bool" where
  "starts_with p u \<longleftrightarrow> take (length p) u = p"

definition uri_byte_ok :: "char \<Rightarrow> bool" where
  "uri_byte_ok c \<longleftrightarrow> (0x21::nat) \<le> of_char c \<and> (of_char c::nat) \<le> 0x7e"

definition validate_uri :: "string \<Rightarrow> (unit, guard_error) result" where
  "validate_uri u =
     (if u = [] then Panic
      else if MAX_URI_BYTES < length u then Panic
      else if \<not> list_ex (\<lambda>p. starts_with p u) URI_PREFIXES then Panic
      else if \<not> list_all uri_byte_ok u then Panic
      else Ok ())"

definition read_ttl :: "token \<Rightarrow> u32" where
  "read_ttl s = (case uri_ttl s of None \<Rightarrow> DEFAULT_URI_TTL | Some t \<Rightarrow> t)"

definition write_cache :: "string \<Rightarrow> u32 \<Rightarrow> token \<Rightarrow> token" where
  "write_cache u ledger s = s\<lparr>uri_cache := Some \<lparr>cached = u, cached_ledger = ledger\<rparr>\<rparr>"

definition is_expired :: "env \<Rightarrow> token \<Rightarrow> cached_uri \<Rightarrow> bool" where
  "is_expired e s cache \<longleftrightarrow> read_ttl s < saturating_sub_word (sequence e) (cached_ledger cache)"

definition uri_set_token_uri :: "env \<Rightarrow> string \<Rightarrow> token \<Rightarrow> tok_result" where
  "uri_set_token_uri e u s =
     and_then (validate_uri u) (\<lambda>_. Ok (write_cache u (sequence e) s))"

definition uri_token_uri :: "env \<Rightarrow> token \<Rightarrow> string \<times> token" where
  "uri_token_uri e s =
     (case uri_cache s of
        None \<Rightarrow> ('''', s)
      | Some cache \<Rightarrow>
          (cached cache,
           if is_expired e s cache then write_cache (cached cache) (sequence e) s else s))"

definition uri_token_uri_info :: "env \<Rightarrow> token \<Rightarrow> uri_info" where
  "uri_token_uri_info e s =
     (case uri_cache s of
        Some cache \<Rightarrow> \<lparr>info_uri = cached cache, info_cached_ledger = cached_ledger cache,
                       info_ttl = read_ttl s, info_expired = is_expired e s cache\<rparr>
      | None \<Rightarrow> \<lparr>info_uri = '''', info_cached_ledger = sequence e,
                 info_ttl = read_ttl s, info_expired = True\<rparr>)"

definition uri_set_token_uri_ttl :: "u32 \<Rightarrow> token \<Rightarrow> tok_result" where
  "uri_set_token_uri_ttl ttl s =
     (if ttl = 0 \<or> MAX_URI_TTL < ttl then Panic else Ok (s\<lparr>uri_ttl := Some ttl\<rparr>))"

definition uri_invalidate_token_uri :: "token \<Rightarrow> token" where
  "uri_invalidate_token_uri s = s\<lparr>uri_cache := None\<rparr>"

section \<open>Entry points\<close>

definition require_not_paused :: "token \<Rightarrow> u32 \<Rightarrow> (unit, 'e) result" where
  "require_not_paused s operation =
     (if eg_is_paused (tok_guard s) operation then Panic else Ok ())"

definition with_guard ::
  "(guard \<Rightarrow> (guard, guard_error) result) \<Rightarrow> token \<Rightarrow> tok_result" where
  "with_guard f s = and_then (f (tok_guard s)) (\<lambda>g. Ok (s\<lparr>tok_guard := g\<rparr>))"

definition tok_initialize :: "address \<Rightarrow> u32 \<Rightarrow> string \<Rightarrow> string \<Rightarrow> token \<Rightarrow> tok_result" where
  "tok_initialize admin decimal name symbol s =
     (if has_administrator s then Panic
      else and_then (sub_call (with_guard (eg_initialize [admin] 1) (write_administrator admin s)))
        (\<lambda>s. Ok (write_metadata name symbol decimal s)))"

definition tok_mint :: "env \<Rightarrow> address \<Rightarrow> i128 \<Rightarrow> token \<Rightarrow> tok_result" where
  "tok_mint e to n s =
     and_then (require_not_paused s PAUSE_MINT) (\<lambda>_.
     and_then (read_administrator s) (\<lambda>admin.
     and_then (require_auth e admin) (\<lambda>_.
       receive_balance e to n s)))"

definition tok_set_admin :: "env \<Rightarrow> address \<Rightarrow> token \<Rightarrow> tok_result" where
  "tok_set_admin e new_admin s =
     and_then (read_administrator s) (\<lambda>admin.
     and_then (sub_call (with_guard (eg_rotate_admin e [admin] admin new_admin) s)) (\<lambda>s.
       Ok (write_administrator new_admin s)))"

definition tok_guard_pause :: "env \<Rightarrow> address \<Rightarrow> u32 \<Rightarrow> bool \<Rightarrow> token \<Rightarrow> tok_result" where
  "tok_guard_pause e admin operation paused = with_guard (eg_set_pause e admin operation paused)"

definition tok_emergency_pause :: "env \<Rightarrow> address list \<Rightarrow> token \<Rightarrow> tok_result" where
  "tok_emergency_pause e approvers = with_guard (eg_emergency_pause e approvers)"

definition tok_guard_resume :: "env \<Rightarrow> address list \<Rightarrow> token \<Rightarrow> tok_result" where
  "tok_guard_resume e approvers = with_guard (eg_resume e approvers)"

definition tok_guard_add_admin :: "env \<Rightarrow> address list \<Rightarrow> address \<Rightarrow> token \<Rightarrow> tok_result" where
  "tok_guard_add_admin e approvers new_admin = with_guard (eg_add_admin e approvers new_admin)"

definition tok_guard_remove_admin :: "env \<Rightarrow> address list \<Rightarrow> address \<Rightarrow> token \<Rightarrow> tok_result" where
  "tok_guard_remove_admin e approvers admin = with_guard (eg_remove_admin e approvers admin)"

definition tok_allowance :: "token \<Rightarrow> address \<Rightarrow> address \<Rightarrow> i128" where
  "tok_allowance s from spender = amount (read_allowance s from spender)"

definition tok_approve ::
  "env \<Rightarrow> address \<Rightarrow> address \<Rightarrow> i128 \<Rightarrow> u32 \<Rightarrow> token \<Rightarrow> tok_result" where
  "tok_approve e from spender n expiration s =
     and_then (require_auth e from) (\<lambda>_. Ok (write_allowance from spender n expiration s))"

definition tok_balance :: "token \<Rightarrow> address \<Rightarrow> i128" where
  "tok_balance s a = read_balance s a"

definition tok_transfer :: "env \<Rightarrow> address \<Rightarrow> address \<Rightarrow> i128 \<Rightarrow> token \<Rightarrow> tok_result" where
  "tok_transfer e from to n s =
     and_then (require_not_paused s PAUSE_TRANSFER) (\<lambda>_.
     and_then (require_auth e from) (\<lambda>_.
     and_then (spend_balance e from n s) (\<lambda>s.
       receive_balance e to n s)))"

definition tok_transfer_from ::
  "env \<Rightarrow> address \<Rightarrow> address \<Rightarrow> address \<Rightarrow> i128 \<Rightarrow> token \<Rightarrow> tok_result" where
  "tok_transfer_from e spender from to n s =
     and_then (require_not_paused s PAUSE_TRANSFER) (\<lambda>_.
     and_then (require_auth e spender) (\<lambda>_.
     and_then (spend_allowance e from spender n s) (\<lambda>s.
     and_then (spend_balance e from n s) (\<lambda>s.
       receive_balance e to n s))))"

definition tok_burn :: "env \<Rightarrow> address \<Rightarrow> i128 \<Rightarrow> token \<Rightarrow> tok_result" where
  "tok_burn e from n s =
     and_then (require_not_paused s PAUSE_BURN) (\<lambda>_.
     and_then (require_auth e from) (\<lambda>_.
       spend_balance e from n s))"

definition tok_burn_from :: "env \<Rightarrow> address \<Rightarrow> address \<Rightarrow> i128 \<Rightarrow> token \<Rightarrow> tok_result" where
  "tok_burn_from e spender from n s =
     and_then (require_not_paused s PAUSE_BURN) (\<lambda>_.
     and_then (require_auth e spender) (\<lambda>_.
     and_then (spend_allowance e from spender n s) (\<lambda>s.
       spend_balance e from n s)))"

definition tok_set_token_uri :: "env \<Rightarrow> string \<Rightarrow> token \<Rightarrow> tok_result" where
  "tok_set_token_uri e u s =
     and_then (require_not_paused s PAUSE_METADATA) (\<lambda>_.
     and_then (read_administrator s) (\<lambda>admin.
     and_then (require_auth e admin) (\<lambda>_.
       uri_set_token_uri e u s)))"

definition tok_token_uri :: "env \<Rightarrow> token \<Rightarrow> string \<times> token" where
  "tok_token_uri e s = uri_token_uri e s"

definition tok_set_token_uri_ttl :: "env \<Rightarrow> u32 \<Rightarrow> token \<Rightarrow> tok_result" where
  "tok_set_token_uri_ttl e ttl s =
     and_then (require_not_paused s PAUSE_METADATA) (\<lambda>_.
     and_then (read_administrator s) (\<lambda>admin.
     and_then (require_auth e admin) (\<lambda>_.
       uri_set_token_uri_ttl ttl s)))"

definition tok_invalidate_token_uri :: "env \<Rightarrow> token \<Rightarrow> tok_result" where
  "tok_invalidate_token_uri e s =
     and_then (require_not_paused s PAUSE_METADATA) (\<lambda>_.
     and_then (read_administrator s) (\<lambda>admin.
     and_then (require_auth e admin) (\<lambda>_.
       Ok (uri_invalidate_token_uri s))))"

text \<open>The calls of the contract that can change its state, and their dispatch.\<close>

datatype tok_call =
    Initialize address u32 string string
  | Mint address i128
  | SetAdmin address
  | GuardPause address u32 bool
  | EmergencyPause "address list"
  | GuardResume "address list"
  | GuardAddAdmin "address list" address
  | GuardRemoveAdmin "address list" address
  | Approve address address i128 u32
  | Transfer address address i128
  | TransferFrom address address address i128
  | Burn address i128
  | BurnFrom address address i128
  | SetTokenUri string
  | TokenUri
  | SetTokenUriTtl u32
  | InvalidateTokenUri

fun tok_exec :: "env \<Rightarrow> tok_call \<Rightarrow> token \<Rightarrow> tok_result" where
  "tok_exec e (Initialize a d n y) s = tok_initialize a d n y s"
| "tok_exec e (Mint to n) s = tok_mint e to n s"
| "tok_exec e (SetAdmin a) s = tok_set_admin e a s"
| "tok_exec e (GuardPause a op b) s = tok_guard_pause e a op b s"
| "tok_exec e (EmergencyPause as) s = tok_emergency_pause e as s"
| "tok_exec e (GuardResume as) s = tok_guard_resume e as s"
| "tok_exec e (GuardAddAdmin as a) s = tok_guard_add_admin e as a s"
| "tok_exec e (GuardRemoveAdmin as a) s = tok_guard_remove_admin e as a s"
| "tok_exec e (Approve f p n x) s = tok_approve e f p n x s"
| "tok_exec e (Transfer f t n) s = tok_transfer e f t n s"
| "tok_exec e (TransferFrom p f t n) s = tok_transfer_from e p f t n s"
| "tok_exec e (Burn f n) s = tok_burn e f n s"
| "tok_exec e (BurnFrom p f n) s = tok_burn_from e p f n s"
| "tok_exec e (SetTokenUri u) s = tok_set_token_uri e u s"
| "tok_exec e TokenUri s = Ok (snd (tok_token_uri e s))"
| "tok_exec e (SetTokenUriTtl t) s = tok_set_token_uri_ttl e t s"
| "tok_exec e InvalidateTokenUri s = tok_invalidate_token_uri e s"


section \<open>Balances\<close>

lemma write_balance_simps [simp]:
  "read_balance (write_balance a n s) b = (if b = a then n else read_balance s b)"
  "balances (write_balance a n s) = (balances s)(a \<mapsto> n)"
  "tok_guard (write_balance a n s) = tok_guard s"
  "administrator (write_balance a n s) = administrator s"
  "allowances (write_balance a n s) = allowances s"
  "uri_cache (write_balance a n s) = uri_cache s"
  "uri_ttl (write_balance a n s) = uri_ttl s"
  by (simp_all add: write_balance_def read_balance_def)

lemma write_allowance_simps [simp]:
  "balances (write_allowance f p n x s) = balances s"
  "read_balance (write_allowance f p n x s) b = read_balance s b"
  "tok_guard (write_allowance f p n x s) = tok_guard s"
  "administrator (write_allowance f p n x s) = administrator s"
  "uri_cache (write_allowance f p n x s) = uri_cache s"
  "uri_ttl (write_allowance f p n x s) = uri_ttl s"
  by (simp_all add: write_allowance_def read_balance_def)

lemma receive_balance_checked:
  "overflow_checks e \<Longrightarrow> receive_balance e a n s = Ok s' \<longleftrightarrow>
     in_i128 (read_balance s a + n) \<and> s' = write_balance a (read_balance s a + n) s"
  by (auto simp: receive_balance_def plain_i128_checked)

lemma spend_balance_checked:
  "overflow_checks e \<Longrightarrow> spend_balance e a n s = Ok s' \<longleftrightarrow>
     n \<le> read_balance s a \<and> in_i128 (read_balance s a - n)
     \<and> s' = write_balance a (read_balance s a - n) s"
  by (auto simp: spend_balance_def plain_i128_checked)

lemma spend_allowance_checked:
  "overflow_checks e \<Longrightarrow> spend_allowance e f p n s = Ok s' \<longleftrightarrow>
     n \<le> tok_allowance s f p \<and> sequence e \<le> expiration_ledger (read_allowance s f p)
     \<and> in_i128 (tok_allowance s f p - n)
     \<and> s' = write_allowance f p (tok_allowance s f p - n) (expiration_ledger (read_allowance s f p)) s"
  by (auto simp: spend_allowance_def plain_i128_checked tok_allowance_def Let_def not_less)

lemma require_not_paused_ok [simp]:
  "require_not_paused s op = Ok u \<longleftrightarrow> \<not> eg_is_paused (tok_guard s) op"
  by (simp add: require_not_paused_def)

lemma read_administrator_ok [simp]: "read_administrator s = Ok a \<longleftrightarrow> administrator s = Some a"
  by (simp add: read_administrator_def)

lemma with_guard_ok:
  "with_guard f s = Ok s' \<longleftrightarrow> (\<exists>g. f (tok_guard s) = Ok g \<and> s' = s\<lparr>tok_guard := g\<rparr>)"
  by (auto simp: with_guard_def)

lemmas tok_op_defs = tok_initialize_def tok_mint_def tok_set_admin_def tok_guard_pause_def
  tok_emergency_pause_def tok_guard_resume_def tok_guard_add_admin_def tok_guard_remove_admin_def
  tok_approve_def tok_transfer_def tok_transfer_from_def tok_burn_def tok_burn_from_def
  tok_set_token_uri_def tok_token_uri_def tok_set_token_uri_ttl_def tok_invalidate_token_uri_def

lemmas uri_defs = uri_set_token_uri_def uri_token_uri_def uri_set_token_uri_ttl_def
  uri_invalidate_token_uri_def write_cache_def


section \<open>The ledger of postings\<close>

text \<open>
  The specification of the balances: every call posts a list of signed amounts to accounts, and
  the balances are what the postings of the accepted calls add up to.
\<close>

fun postings :: "tok_call \<Rightarrow> (address \<times> i128) list" where
  "postings (Mint to n) = [(to, n)]"
| "postings (Transfer f t n) = [(f, - n), (t, n)]"
| "postings (TransferFrom p f t n) = [(f, - n), (t, n)]"
| "postings (Burn f n) = [(f, - n)]"
| "postings (BurnFrom p f n) = [(f, - n)]"
| "postings _ = []"

definition post :: "(address \<rightharpoonup> i128) \<Rightarrow> address \<times> i128 \<Rightarrow> (address \<rightharpoonup> i128)" where
  "post m p = m(fst p \<mapsto> get0 m (fst p) + snd p)"

lemma get0_postings:
  "get0 (foldl post m ps) a = get0 m a + sum_list (map snd (filter (\<lambda>p. fst p = a) ps))"
  by (induction ps arbitrary: m) (auto simp: post_def)

lemma total_postings:
  "finite (dom m) \<Longrightarrow> finite (dom (foldl post m ps)) \<and>
     map_total (foldl post m ps) = map_total m + sum_list (map snd ps)"
  by (induction ps arbitrary: m) (simp_all add: post_def)

lemma with_guard_balances: "with_guard f s = Ok s' \<Longrightarrow> balances s' = balances s"
  by (auto simp: with_guard_ok)

text \<open>Either build posts modulo \<open>2 ^ 128\<close>; one that checks its arithmetic posts the amounts themselves.\<close>

definition wpost :: "(address \<rightharpoonup> i128) \<Rightarrow> address \<times> i128 \<Rightarrow> (address \<rightharpoonup> i128)" where
  "wpost m p = m(fst p \<mapsto> wrap_i128 (get0 m (fst p) + snd p))"

lemma get0_wpost:
  "get0 (wpost m p) a = (if fst p = a then wrap_i128 (get0 m a + snd p) else get0 m a)"
  by (simp add: wpost_def)

lemma total_wpost:
  assumes "finite (dom m)"
  shows "finite (dom (wpost m p))" and "2 ^ 128 dvd (map_total (wpost m p) - (map_total m + snd p))"
proof -
  show "finite (dom (wpost m p))" using assms by (simp add: wpost_def)
  have "map_total (wpost m p) - (map_total m + snd p)
      = wrap_i128 (get0 m (fst p) + snd p) - (get0 m (fst p) + snd p)"
    using assms by (simp add: wpost_def)
  then show "2 ^ 128 dvd (map_total (wpost m p) - (map_total m + snd p))" by (simp only: wrap_i128_cong)
qed

lemma get0_wpostings:
  "in_i128 (get0 m a) \<Longrightarrow>
     get0 (foldl wpost m ps) a = wrap_i128 (get0 m a + sum_list (map snd (filter (\<lambda>p. fst p = a) ps)))"
proof (induction ps arbitrary: m)
  case (Cons p ps)
  then have "in_i128 (get0 (wpost m p) a)" by (simp add: get0_wpost)
  with Cons.IH show ?case by (simp add: get0_wpost add.assoc)
qed (simp add: wrap_i128_id)

lemma total_wpostings:
  "finite (dom m) \<Longrightarrow> finite (dom (foldl wpost m ps)) \<and>
     2 ^ 128 dvd (map_total (foldl wpost m ps) - (map_total m + sum_list (map snd ps)))"
proof (induction ps arbitrary: m)
  case (Cons p ps)
  note p = total_wpost [OF Cons.prems, of p]
  have "map_total (foldl wpost m (p # ps)) - (map_total m + sum_list (map snd (p # ps)))
      = (map_total (foldl wpost (wpost m p) ps) - (map_total (wpost m p) + sum_list (map snd ps)))
        + (map_total (wpost m p) - (map_total m + snd p))"
    by simp
  also have "2 ^ 128 dvd \<dots>" using Cons.IH [OF p(1)] p(2) by (intro dvd_add) blast+
  finally show ?case using Cons.IH [OF p(1)] by simp
qed simp

lemmas balance_defs = receive_balance_def spend_balance_def spend_allowance_def write_balance_def
  write_allowance_def read_balance_def

lemma tok_exec_wpostings:
  assumes "tok_exec e c s = Ok s'"
  shows "balances s' = foldl wpost (balances s) (postings c)"
proof (cases c)
  case Initialize
  with assms show ?thesis
    by (auto simp: tok_op_defs with_guard_ok write_administrator_def write_metadata_def split: if_splits)
next
  case SetAdmin
  with assms show ?thesis by (auto simp: tok_op_defs with_guard_ok write_administrator_def)
next
  case TokenUri
  with assms show ?thesis by (auto simp: tok_op_defs uri_defs split: option.splits)
qed (use assms in \<open>auto simp: tok_op_defs uri_defs with_guard_ok balance_defs wpost_def Let_def
      dest!: plain_i128_wrap split: if_splits\<close>)

lemma tok_exec_postings:
  assumes "overflow_checks e" and "tok_exec e c s = Ok s'"
  shows "balances s' = foldl post (balances s) (postings c)"
  using assms(2)
proof (cases c)
  case Initialize
  with assms(2) show ?thesis
    by (auto simp: tok_op_defs with_guard_ok write_administrator_def write_metadata_def split: if_splits)
next
  case SetAdmin
  with assms(2) show ?thesis by (auto simp: tok_op_defs with_guard_ok write_administrator_def)
next
  case TokenUri
  with assms(2) show ?thesis by (auto simp: tok_op_defs uri_defs split: option.splits)
qed (use assms in \<open>auto simp: tok_op_defs uri_defs with_guard_ok receive_balance_checked
      spend_balance_checked spend_allowance_checked post_def read_balance_def split: if_splits\<close>)

text \<open>A history of calls, in which a call that fails leaves the state as it was.\<close>

fun tok_run :: "token \<Rightarrow> (env \<times> tok_call) list \<Rightarrow> token" where
  "tok_run s [] = s"
| "tok_run s ((e, c) # cs) = tok_run (case tok_exec e c s of Ok s' \<Rightarrow> s' | _ \<Rightarrow> s) cs"

fun tok_accepted :: "token \<Rightarrow> (env \<times> tok_call) list \<Rightarrow> (address \<times> i128) list" where
  "tok_accepted s [] = []"
| "tok_accepted s ((e, c) # cs) =
     (case tok_exec e c s of Ok s' \<Rightarrow> postings c @ tok_accepted s' cs | _ \<Rightarrow> tok_accepted s cs)"

definition fresh_token :: token where
  "fresh_token = \<lparr>tok_guard = fresh_guard, administrator = None, balances = Map.empty,
     allowances = Map.empty, metadata = None, uri_cache = None, uri_ttl = None\<rparr>"

lemma tok_run_postings:
  "\<forall>(e, c)\<in>set cs. overflow_checks e \<Longrightarrow>
     balances (tok_run s cs) = foldl post (balances s) (tok_accepted s cs)"
  by (induction s cs rule: tok_run.induct)
    (auto simp: tok_exec_postings split: result.splits)

lemma tok_run_wpostings: "balances (tok_run s cs) = foldl wpost (balances s) (tok_accepted s cs)"
  by (induction s cs rule: tok_run.induct) (auto simp: tok_exec_wpostings split: result.splits)

text \<open>
  C5. The token's ledger. After any history of calls from deployment, in either build, every balance is
  the sum of the postings of the accepted calls to that account, reduced to the range of \<open>i128\<close>, and
  the total of all balances differs from everything minted less everything burned by a multiple of
  \<open>2 ^ 128\<close>. In a build that checks its arithmetic both are exact: a transfer neither creates nor
  destroys a unit. A failed call leaves no trace.
\<close>

theorem token_ledger_exact:
  "tok_balance (tok_run fresh_token cs) a =
      wrap_i128 (sum_list (map snd (filter (\<lambda>p. fst p = a) (tok_accepted fresh_token cs))))
    \<and> 2 ^ 128 dvd (map_total (balances (tok_run fresh_token cs)) - sum_list (map snd (tok_accepted fresh_token cs)))
    \<and> ((\<forall>(e, c)\<in>set cs. overflow_checks e) \<longrightarrow>
        tok_balance (tok_run fresh_token cs) a =
          sum_list (map snd (filter (\<lambda>p. fst p = a) (tok_accepted fresh_token cs)))
        \<and> map_total (balances (tok_run fresh_token cs)) = sum_list (map snd (tok_accepted fresh_token cs)))"
proof (intro conjI impI)
  let ?ps = "tok_accepted fresh_token cs"
  have b: "balances fresh_token = Map.empty" by (simp add: fresh_token_def)
  show "tok_balance (tok_run fresh_token cs) a = wrap_i128 (sum_list (map snd (filter (\<lambda>p. fst p = a) ?ps)))"
    by (simp add: tok_balance_def read_balance_def tok_run_wpostings get0_wpostings b)
  show "2 ^ 128 dvd (map_total (balances (tok_run fresh_token cs)) - sum_list (map snd ?ps))"
    using total_wpostings [of Map.empty ?ps] by (simp add: tok_run_wpostings b)
  assume "\<forall>(e, c)\<in>set cs. overflow_checks e"
  note run = tok_run_postings [OF this, of fresh_token]
  show "tok_balance (tok_run fresh_token cs) a = sum_list (map snd (filter (\<lambda>p. fst p = a) ?ps))"
    by (simp add: tok_balance_def read_balance_def run get0_postings b)
  show "map_total (balances (tok_run fresh_token cs)) = sum_list (map snd ?ps)"
    using total_postings [of Map.empty ?ps] by (simp add: run b)
qed

definition token_history :: "(env \<times> tok_call) list" where
  "token_history = [(env_example, Initialize 1 7 ''Perigee'' ''PRG''), (env_example, Mint 2 100),
     (env_example, Transfer 2 5 30), (env_example, Transfer 5 2 10), (env_example, Burn 2 20)]"

theorem token_ledger_exact_witness:
  "tok_balance (tok_run fresh_token token_history) 2 = 50
   \<and> map_total (balances (tok_run fresh_token token_history)) = 80"
proof -
  have h: "\<forall>(e, c)\<in>set token_history. overflow_checks e"
    by (simp add: token_history_def env_example_def)
  have a: "tok_accepted fresh_token token_history = [(2, 100), (2, - 30), (5, 30), (2, - 20)]"
    by code_simp
  show ?thesis using token_ledger_exact [of token_history 2] h by (simp add: a)
qed


section \<open>Who can move what\<close>

text \<open>The amount a call names; the others move nothing.\<close>

fun call_amount :: "tok_call \<Rightarrow> i128" where
  "call_amount (Mint to n) = n"
| "call_amount (Transfer f t n) = n"
| "call_amount (TransferFrom p f t n) = n"
| "call_amount (Burn f n) = n"
| "call_amount (BurnFrom p f n) = n"
| "call_amount _ = 0"

lemma write_allowance_tok_allowance:
  "0 \<le> n \<Longrightarrow> tok_allowance (write_allowance f p n x s) f p = n"
  by (auto simp: tok_allowance_def read_allowance_def write_allowance_def)

lemma tok_allowance_write_balance [simp]:
  "tok_allowance (write_balance a n s) f p = tok_allowance s f p"
  by (simp add: tok_allowance_def read_allowance_def)

text \<open>The balances and allowances are stored as \<open>i128\<close>, and a call with such amounts keeps them so.\<close>

definition tok_typed :: "token \<Rightarrow> bool" where
  "tok_typed s \<longleftrightarrow> (\<forall>a. in_i128 (tok_balance s a)) \<and> (\<forall>a p. in_i128 (tok_allowance s a p))"

fun call_typed :: "tok_call \<Rightarrow> bool" where
  "call_typed (Approve f p n x) = in_i128 n"
| "call_typed c = in_i128 (call_amount c)"

lemma allowance_write [simp]:
  "tok_allowance (write_allowance f p n x s) a q = (if a = f \<and> q = p then max n 0 else tok_allowance s a q)"
  by (auto simp: tok_allowance_def read_allowance_def write_allowance_def)

lemma allowance_frame:
  "allowances s' = allowances s \<Longrightarrow> tok_allowance s' = tok_allowance s"
  by (simp add: tok_allowance_def read_allowance_def fun_eq_iff)

lemma spend_allowance_typed:
  assumes "spend_allowance e f p n s = Ok s'" and "0 \<le> n" and "in_i128 (tok_allowance s f p)"
  shows "n \<le> tok_allowance s f p" and "sequence e \<le> expiration_ledger (read_allowance s f p)"
    and "s' = write_allowance f p (tok_allowance s f p - n) (expiration_ledger (read_allowance s f p)) s"
proof -
  show n: "n \<le> tok_allowance s f p" "sequence e \<le> expiration_ledger (read_allowance s f p)"
    using assms(1) by (auto simp: spend_allowance_def tok_allowance_def Let_def split: if_splits)
  then have "in_i128 (tok_allowance s f p - n)" using assms(2,3) by (auto simp: in_i128_iff)
  then show "s' = write_allowance f p (tok_allowance s f p - n) (expiration_ledger (read_allowance s f p)) s"
    using assms(1) by (auto simp: spend_allowance_def tok_allowance_def Let_def plain_i128_ok split: if_splits)
qed

lemma spend_balance_typed:
  assumes "spend_balance e f n s = Ok s'" and "0 \<le> n" and "in_i128 (read_balance s f)"
  shows "n \<le> read_balance s f \<and> s' = write_balance f (read_balance s f - n) s"
proof -
  have n: "n \<le> read_balance s f" using assms(1) by (auto simp: spend_balance_def split: if_splits)
  then have "in_i128 (read_balance s f - n)" using assms(2,3) by (auto simp: in_i128_iff)
  with n assms(1) show ?thesis by (auto simp: spend_balance_def plain_i128_ok)
qed

lemma receive_balance_lost:
  assumes "receive_balance e t n s = Ok s'" and "0 \<le> n" and "in_i128 n" and "in_i128 (read_balance s a)"
    and "read_balance s' a < read_balance s a"
  shows "a = t \<and> \<not> overflow_checks e \<and> i128_max < read_balance s a + n"
proof -
  obtain y where y: "plain_i128 e (read_balance s t + n) = (Ok y :: (i128, guard_error) result)"
    "s' = write_balance t y s" using assms(1) by (auto simp: receive_balance_def)
  then have at: "a = t" using assms(5) by (auto split: if_splits)
  with y assms(5) have "wrap_i128 (read_balance s a + n) < read_balance s a"
    using plain_i128_wrap [OF y(1)] by simp
  from wrap_i128_less [OF assms(4,2,3) this] have o: "i128_max < read_balance s a + n" .
  then have "\<not> in_i128 (read_balance s a + n)" by (simp add: in_i128_def)
  with y(1) at have "\<not> overflow_checks e" by (auto simp: plain_i128_def split: if_splits)
  with at o show ?thesis by simp
qed

lemma spend_allowance_range:
  assumes "spend_allowance e f p n s = Ok s'" and "\<forall>a q. in_i128 (tok_allowance s a q)"
  shows "\<forall>a q. in_i128 (tok_allowance s' a q)"
proof -
  obtain y x where "in_i128 y" "s' = write_allowance f p y x s"
    using assms(1) plain_i128_in_range by (fastforce simp: spend_allowance_def Let_def split: if_splits)
  with assms(2) show ?thesis by (auto simp: max_def)
qed

lemma allowances_kept:
  assumes "tok_exec e c s = Ok s'"
    and "case c of Approve f p n x \<Rightarrow> False | TransferFrom p f t n \<Rightarrow> False | BurnFrom p f n \<Rightarrow> False | _ \<Rightarrow> True"
  shows "allowances s' = allowances s"
proof (cases c)
  case Initialize
  with assms(1) show ?thesis
    by (auto simp: tok_op_defs with_guard_ok write_administrator_def write_metadata_def split: if_splits)
next
  case SetAdmin
  with assms(1) show ?thesis by (auto simp: tok_op_defs with_guard_ok write_administrator_def)
next
  case TokenUri
  with assms(1) show ?thesis by (auto simp: tok_op_defs uri_defs split: option.splits)
qed (use assms in \<open>auto simp: tok_op_defs uri_defs with_guard_ok receive_balance_def spend_balance_def
      split: if_splits\<close>)

lemma tok_exec_typed:
  assumes "tok_exec e c s = Ok s'" and "tok_typed s" and "call_typed c"
  shows "tok_typed s'"
proof -
  have "in_i128 (tok_balance s' a)" for a
    using assms(2) get0_wpostings [of "balances s" a "postings c"]
    by (simp add: tok_typed_def tok_balance_def read_balance_def tok_exec_wpostings [OF assms(1)])
  moreover have al: "\<forall>a q. in_i128 (tok_allowance s a q)" using assms(2) by (simp add: tok_typed_def)
  have "\<forall>a q. in_i128 (tok_allowance s' a q)"
  proof (cases c)
    case (Approve f p n x)
    with assms(1,3) al show ?thesis by (auto simp: tok_approve_def max_def)
  next
    case (TransferFrom p f t n)
    with assms(1) obtain s1 where s1: "spend_allowance e f p n s = Ok s1" "allowances s' = allowances s1"
      by (auto simp: tok_transfer_from_def receive_balance_def spend_balance_def split: if_splits)
    from spend_allowance_range [OF s1(1) al] show ?thesis by (simp add: allowance_frame [OF s1(2)])
  next
    case (BurnFrom p f n)
    with assms(1) obtain s1 where s1: "spend_allowance e f p n s = Ok s1" "allowances s' = allowances s1"
      by (auto simp: tok_burn_from_def spend_balance_def split: if_splits)
    from spend_allowance_range [OF s1(1) al] show ?thesis by (simp add: allowance_frame [OF s1(2)])
  qed (use al allowance_frame [OF allowances_kept [OF assms(1)]] in simp_all)
  ultimately show ?thesis by (simp add: tok_typed_def)
qed

text \<open>A credit past the largest \<open>i128\<close> is accepted by a build without overflow checks and turns the balance negative.\<close>

lemma token_mint_wraps:
  assumes "\<not> overflow_checks e" and "tok_mint e to n s = Ok s'" and "in_i128 (tok_balance s to)" and "in_i128 n"
    and "i128_max < tok_balance s to + n"
  shows "tok_balance s' to = tok_balance s to + n - 2 ^ 128" and "tok_balance s' to < 0"
proof -
  have "\<not> in_i128 (tok_balance s to + n)" using assms(5) by (simp add: in_i128_def)
  then have "tok_balance s' to = wrap_i128 (tok_balance s to + n)"
    using assms(1,2) by (auto simp: tok_mint_def receive_balance_def tok_balance_def plain_i128_def)
  also have "\<dots> = wrap_i128 (tok_balance s to + n - 2 ^ 128)" by (rule wrap_i128_minus [symmetric])
  also have "\<dots> = tok_balance s to + n - 2 ^ 128"
    using assms(3-5) by (intro wrap_i128_id) (simp add: in_i128_iff i128_max_eq)
  finally show "tok_balance s' to = tok_balance s to + n - 2 ^ 128" .
  then show "tok_balance s' to < 0" using assms(3,4) unfolding in_i128_iff by simp
qed

lemma transfer_from_lost:
  assumes "tok_typed s" and "tok_transfer_from e p f t n s = Ok s'" and "0 \<le> n" and "in_i128 n"
    and "tok_balance s' a < tok_balance s a"
  shows "authorized e p \<and> sequence e \<le> expiration_ledger (read_allowance s a p)
      \<and> tok_balance s a - tok_balance s' a = n \<and> n \<le> tok_allowance s a p
      \<and> tok_allowance s' a p = tok_allowance s a p - n
    \<or> (\<not> overflow_checks e \<and> i128_max < tok_balance s a + n)"
proof -
  obtain s1 s2 where s1: "authorized e p" "spend_allowance e f p n s = Ok s1" "spend_balance e f n s1 = Ok s2"
    "receive_balance e t n s2 = Ok s'" using assms(2) by (auto simp: tok_transfer_from_def)
  note al = spend_allowance_typed [OF s1(2) assms(3)]
  have s2: "s2 = write_balance f (read_balance s f - n) s1" "n \<le> read_balance s f"
    using spend_balance_typed [OF s1(3) assms(3)] al assms(1) by (auto simp: tok_typed_def tok_balance_def)
  show ?thesis
  proof (cases "a = f")
    case False
    with receive_balance_lost [OF s1(4) assms(3,4), of a] assms(1,5) s2(1) al show ?thesis
      by (auto simp: tok_typed_def tok_balance_def)
  next
    case True
    then have "t \<noteq> a"
      using s1(4) s2 al assms(1,5) by (auto simp: receive_balance_def tok_typed_def tok_balance_def plain_i128_ok)
    with True s1(4) s2 al assms(1) have "tok_balance s' a = tok_balance s a - n"
      "tok_allowance s' a p = tok_allowance s a p - n"
      by (auto simp: receive_balance_def tok_typed_def tok_balance_def)
    with True s1(1) al assms(1) show ?thesis by (auto simp: tok_typed_def)
  qed
qed

text \<open>
  C23. When the amounts are non-negative, an account loses tokens only by its own authorization, or
  through a spender who authorized the call, and then the loss is covered by an allowance of the
  account that has not expired and that shrinks by exactly the loss, or because the build does not
  check overflow and the account is credited beyond the largest \<open>i128\<close>.
\<close>

theorem token_debit_authorized:
  assumes "tok_typed s" and "call_typed c" and "0 \<le> call_amount c" and "tok_exec e c s = Ok s'"
    and "tok_balance s' a < tok_balance s a"
  shows "authorized e a \<or>
    (\<exists>p. authorized e p \<and> sequence e \<le> expiration_ledger (read_allowance s a p)
      \<and> tok_balance s a - tok_balance s' a \<le> tok_allowance s a p
      \<and> tok_allowance s' a p = tok_allowance s a p - (tok_balance s a - tok_balance s' a))
    \<or> (\<not> overflow_checks e \<and> i128_max < tok_balance s a + call_amount c)"
proof (cases c)
  case (Mint t n)
  with assms have "receive_balance e t n s = Ok s'" by (auto simp: tok_mint_def)
  with receive_balance_lost [OF this, of a] assms Mint show ?thesis
    by (auto simp: tok_typed_def tok_balance_def)
next
  case (Transfer f t n)
  then obtain s1 where s1: "authorized e f" "spend_balance e f n s = Ok s1" "receive_balance e t n s1 = Ok s'"
    using assms(4) by (auto simp: tok_transfer_def)
  have "s1 = write_balance f (read_balance s f - n) s"
    using spend_balance_typed [OF s1(2)] assms(1,3) Transfer by (simp add: tok_typed_def tok_balance_def)
  with receive_balance_lost [OF s1(3), of a] s1(1) assms Transfer show ?thesis
    by (cases "a = f") (auto simp: tok_typed_def tok_balance_def)
next
  case (TransferFrom p f t n)
  then have "tok_transfer_from e p f t n s = Ok s'" "0 \<le> n" "in_i128 n" using assms(2-4) by simp_all
  from transfer_from_lost [OF assms(1) this assms(5)] TransferFrom show ?thesis by auto
next
  case (BurnFrom p f n)
  then obtain s1 where s1: "authorized e p" "spend_allowance e f p n s = Ok s1" "spend_balance e f n s1 = Ok s'"
    using assms(4) by (auto simp: tok_burn_from_def)
  have n: "0 \<le> n" using assms(3) BurnFrom by simp
  note al = spend_allowance_typed [OF s1(2) n]
  have s': "s' = write_balance f (read_balance s f - n) s1"
    using spend_balance_typed [OF s1(3) n] al assms(1) by (auto simp: tok_typed_def tok_balance_def)
  then have "a = f" using assms(1,5) al by (auto simp: tok_balance_def tok_typed_def split: if_splits)
  with s' s1(1) al assms(1) show ?thesis by (auto simp: tok_typed_def tok_balance_def)
next
  case (Burn f n)
  then obtain "authorized e f" "spend_balance e f n s = Ok s'" using assms(4) by (auto simp: tok_burn_def)
  then show ?thesis using assms(5) by (auto simp: spend_balance_def tok_balance_def split: if_splits)
qed (use tok_exec_wpostings [OF assms(4)] assms(5) in \<open>auto simp: tok_balance_def read_balance_def\<close>)

definition token_example :: token where
  "token_example = fresh_token\<lparr>tok_guard := guard_example, administrator := Some 1,
     balances := [2 \<mapsto> 100, 5 \<mapsto> 40],
     allowances := [(5, 2) \<mapsto> \<lparr>amount = 25, expiration_ledger = 200\<rparr>]\<rparr>"

theorem token_debit_authorized_witness:
  "\<exists>s'. tok_typed token_example \<and> call_typed (TransferFrom 2 5 3 10) \<and> 0 \<le> call_amount (TransferFrom 2 5 3 10)
     \<and> tok_exec env_example (TransferFrom 2 5 3 10) token_example = Ok s'
     \<and> tok_balance s' 5 < tok_balance token_example 5 \<and> \<not> authorized env_example 5
     \<and> (\<exists>p. authorized env_example p \<and> tok_allowance s' 5 p = tok_allowance token_example 5 p - 10)"
proof -
  let ?c = "TransferFrom 2 5 3 10"
  let ?s' = "token_example\<lparr>balances := [2 \<mapsto> 100, 5 \<mapsto> 30, 3 \<mapsto> 10],
    allowances := [(5, 2) \<mapsto> \<lparr>amount = 15, expiration_ledger = 200\<rparr>]\<rparr>"
  have o: "overflow_checks env_example" and u: "\<not> authorized env_example 5"
    by (simp_all add: env_example_def)
  have n: "call_typed ?c" "0 \<le> call_amount ?c" by (simp_all add: in_i128_iff)
  have ty: "tok_typed token_example"
    by (auto simp: tok_typed_def tok_balance_def read_balance_def tok_allowance_def read_allowance_def
        token_example_def get0_def in_i128_iff)
  have unp: "\<not> eg_is_paused guard_example PAUSE_TRANSFER" by code_simp
  have x: "tok_exec env_example ?c token_example = Ok ?s'"
    using o by (auto simp: tok_transfer_from_def spend_allowance_checked spend_balance_checked
        receive_balance_checked token_example_def fresh_token_def env_example_def unp
        tok_allowance_def read_allowance_def read_balance_def write_balance_def
        write_allowance_def get0_def in_i128_iff fun_eq_iff)
  have d: "tok_balance ?s' 5 = 30" "tok_balance token_example 5 = 40"
    by (simp_all add: tok_balance_def read_balance_def token_example_def)
  then have l: "tok_balance ?s' 5 < tok_balance token_example 5" by simp
  show ?thesis using o n ty x l u d token_debit_authorized [OF ty n x l] by auto
qed

text \<open>
  C40. The amount is not checked to be non-negative. An account that authorizes nothing loses
  tokens when any other account transfers it a negative amount: the transfer of \<open>- n\<close> from an
  attacker to a victim is accepted with the attacker's authorization only and moves \<open>n\<close> from
  the victim to the attacker.
\<close>

theorem token_negative_transfer_steals:
  assumes "\<not> eg_is_paused (tok_guard s) PAUSE_TRANSFER" and "authorized e attacker"
    and "attacker \<noteq> victim" and "0 < n" and "in_i128 (tok_balance s attacker + n)"
    and "0 \<le> tok_balance s attacker" and "in_i128 (tok_balance s victim - n)"
  shows "\<exists>s'. tok_transfer e attacker victim (- n) s = Ok s'
    \<and> tok_balance s' attacker = tok_balance s attacker + n
    \<and> tok_balance s' victim = tok_balance s victim - n"
  using assms by (auto simp: tok_transfer_def spend_balance_def receive_balance_def tok_balance_def
      plain_i128_ok)

theorem token_negative_transfer_steals_witness:
  "\<not> authorized env_example 5 \<and> (\<exists>s'. tok_transfer env_example 1 5 (- 40) token_example = Ok s'
     \<and> tok_balance s' 1 = 40 \<and> tok_balance s' 5 = 0)"
proof -
  have unp: "\<not> eg_is_paused (tok_guard token_example) PAUSE_TRANSFER" by code_simp
  have b: "tok_balance token_example 1 = 0" "tok_balance token_example 5 = 40"
    by (simp_all add: tok_balance_def read_balance_def token_example_def get0_def)
  show ?thesis
    using token_negative_transfer_steals [OF unp, of env_example 1 5 40]
    by (simp add: b in_i128_iff env_example_def del: One_nat_def)
qed


section \<open>The pause\<close>

fun call_operation :: "tok_call \<Rightarrow> u32" where
  "call_operation (Mint to n) = PAUSE_MINT"
| "call_operation (Transfer f t n) = PAUSE_TRANSFER"
| "call_operation (TransferFrom p f t n) = PAUSE_TRANSFER"
| "call_operation (Burn f n) = PAUSE_BURN"
| "call_operation (BurnFrom p f n) = PAUSE_BURN"
| "call_operation (SetTokenUri u) = PAUSE_METADATA"
| "call_operation (SetTokenUriTtl t) = PAUSE_METADATA"
| "call_operation InvalidateTokenUri = PAUSE_METADATA"
| "call_operation _ = 0"

lemma paused_call_traps:
  "eg_is_paused (tok_guard s) (call_operation c) \<Longrightarrow> tok_exec e c s = Panic"
  by (cases c) (auto simp: tok_op_defs require_not_paused_def eg_is_paused_def
      guard_is_paused_def pause_is_paused_def)

lemma call_operation_nonzero:
  "postings c \<noteq> [] \<Longrightarrow> call_operation c \<noteq> 0"
  by (cases c) (simp_all add: PAUSE_MINT_def PAUSE_TRANSFER_def PAUSE_BURN_def)

lemma emergency_pause_mask:
  "tok_emergency_pause e as s = Ok s' \<Longrightarrow> eg_is_paused (tok_guard s') m = (m \<noteq> 0)"
  by (auto simp: tok_emergency_pause_def with_guard_ok eg_emergency_pause_def
      guard_emergency_pause_all_def eg_is_paused_def pause_mask_defs)

text \<open>
  An accepted emergency pause stops the token: every call that would move, mint or burn
  tokens traps, whoever authorizes it and whatever its amount; the balances are as they were before the pause.
\<close>

lemma token_pause_stops:
  assumes "tok_emergency_pause e as s = Ok s'" and "postings c \<noteq> []"
  shows "tok_exec e' c s' = Panic \<and> balances s' = balances s"
  using assms call_operation_nonzero [OF assms(2)] emergency_pause_mask [OF assms(1)]
    with_guard_balances by (simp add: paused_call_traps tok_emergency_pause_def)

section \<open>The metadata URI\<close>

definition uri_ok :: "token \<Rightarrow> bool" where
  "uri_ok s \<longleftrightarrow>
     (case uri_cache s of None \<Rightarrow> True | Some c \<Rightarrow> validate_uri (cached c) = Ok ())
     \<and> 1 \<le> read_ttl s \<and> read_ttl s \<le> MAX_URI_TTL"

lemma receive_balance_frame: "receive_balance e a n s = Ok s' \<Longrightarrow> \<exists>b. s' = write_balance a b s"
  by (auto simp: receive_balance_def)

lemma spend_balance_frame: "spend_balance e a n s = Ok s' \<Longrightarrow> \<exists>b. s' = write_balance a b s"
  by (auto simp: spend_balance_def split: if_splits)

lemma spend_allowance_frame:
  "spend_allowance e f p n s = Ok s' \<Longrightarrow> \<exists>r x. s' = write_allowance f p r x s"
  by (auto simp: spend_allowance_def Let_def split: if_splits)

lemmas token_frames = receive_balance_frame spend_balance_frame spend_allowance_frame

lemma uri_ok_frame:
  "uri_cache s' = uri_cache s \<Longrightarrow> uri_ttl s' = uri_ttl s \<Longrightarrow> uri_ok s' = uri_ok s"
  by (simp add: uri_ok_def read_ttl_def)

lemma u32_pos: "1 \<le> (w::u32) \<longleftrightarrow> w \<noteq> 0"
  by (simp add: word_le_nat_alt word_unat_eq_iff Suc_le_eq)

lemma uri_ok_updates [simp]:
  "uri_ok (write_balance a n s) = uri_ok s"
  "uri_ok (write_allowance f p r x s) = uri_ok s"
  "uri_ok (s\<lparr>tok_guard := g\<rparr>) = uri_ok s"
  "uri_ok (write_administrator a s) = uri_ok s"
  "uri_ok (write_metadata nm y d s) = uri_ok s"
  by (rule uri_ok_frame; simp add: write_administrator_def write_metadata_def)+

lemma tok_exec_uri_ok:
  assumes "uri_ok s" and "tok_exec e c s = Ok s'"
  shows "uri_ok s'"
proof (cases c)
  case (SetTokenUri u)
  then show ?thesis using assms by (auto simp: tok_set_token_uri_def uri_defs uri_ok_def read_ttl_def)
next
  case TokenUri
  then show ?thesis
    using assms by (cases "uri_cache s") (auto simp: tok_token_uri_def uri_defs uri_ok_def read_ttl_def)
next
  case (SetTokenUriTtl ttl)
  then show ?thesis using assms
    by (auto simp: tok_set_token_uri_ttl_def uri_defs uri_ok_def read_ttl_def u32_pos split: if_splits)
next
  case InvalidateTokenUri
  then show ?thesis
    using assms by (auto simp: tok_invalidate_token_uri_def uri_defs uri_ok_def read_ttl_def)
next
  case Initialize
  then show ?thesis using assms by (auto simp: tok_initialize_def with_guard_ok split: if_splits)
qed (use assms in \<open>auto simp: tok_op_defs with_guard_ok dest!: token_frames\<close>)

lemma tok_run_uri_ok: "uri_ok s \<Longrightarrow> uri_ok (tok_run s cs)"
  by (induction s cs rule: tok_run.induct) (auto dest: tok_exec_uri_ok split: result.splits)

text \<open>
  C37. Whatever calls are made from deployment on, the cached metadata URI is one that the
  validation accepts and the cache lifetime lies between one ledger and its maximum; and a URI
  that was accepted is the one that is read back, in whatever ledger, and is reported as expired
  exactly when more ledgers than the lifetime have passed since it was set.
\<close>

theorem token_uri_cache:
  "uri_ok (tok_run fresh_token cs) \<and>
   (tok_set_token_uri e u s = Ok s' \<longrightarrow>
      fst (tok_token_uri e' s') = u \<and> info_uri (uri_token_uri_info e' s') = u \<and>
      info_expired (uri_token_uri_info e' s') =
        (unat (read_ttl s) < unat (sequence e') - unat (sequence e)))"
proof
  have "uri_ok fresh_token"
    by (simp add: uri_ok_def fresh_token_def read_ttl_def DEFAULT_URI_TTL_def MAX_URI_TTL_def)
  then show "uri_ok (tok_run fresh_token cs)" by (rule tok_run_uri_ok)
qed (auto simp: tok_set_token_uri_def uri_defs tok_token_uri_def uri_token_uri_info_def
      is_expired_def read_ttl_def word_less_nat_alt unat_saturating_sub_word)

theorem token_uri_cache_witness:
  "uri_ok (tok_run fresh_token []) \<and>
   (\<exists>s'. tok_set_token_uri env_example ''ipfs://x'' token_example = Ok s'
      \<and> fst (tok_token_uri (env_example\<lparr>sequence := 9000\<rparr>) s') = ''ipfs://x''
      \<and> info_expired (uri_token_uri_info (env_example\<lparr>sequence := 9000\<rparr>) s'))"
proof -
  let ?s' = "write_cache ''ipfs://x'' 100 token_example"
  have v: "validate_uri ''ipfs://x'' = Ok ()" and
    u: "\<not> eg_is_paused (tok_guard token_example) PAUSE_METADATA" by code_simp+
  have s: "tok_set_token_uri env_example ''ipfs://x'' token_example = Ok ?s'"
    using u by (simp add: tok_set_token_uri_def uri_set_token_uri_def v token_example_def env_example_def)
  show ?thesis
    using s token_uri_cache [of "[]" env_example "''ipfs://x''" token_example ?s'
        "env_example\<lparr>sequence := 9000\<rparr>"]
    by (auto simp: token_example_def fresh_token_def read_ttl_def DEFAULT_URI_TTL_def env_example_def)
qed

section \<open>The token as an asset token\<close>

definition tok_sound :: "token \<Rightarrow> bool" where
  "tok_sound s \<longleftrightarrow> finite (dom (balances s)) \<and> (\<forall>a. 0 \<le> read_balance s a)
     \<and> map_total (balances s) \<le> i128_max"

lemma tok_sound_balance: "tok_sound s \<Longrightarrow> 0 \<le> read_balance s a \<and> in_i128 (read_balance s a)"
proof -
  assume s: "tok_sound s"
  then have "get0 (balances s) a \<le> map_total (balances s)"
    by (intro get0_le_map_total) (simp_all add: tok_sound_def read_balance_def)
  moreover have "0 \<le> get0 (balances s) a" and "map_total (balances s) \<le> i128_max"
    using s by (simp_all add: tok_sound_def read_balance_def)
  ultimately show ?thesis by (simp add: read_balance_def in_i128_def i128_min_eq)
qed

lemma tok_sound_pair:
  assumes "tok_sound s" and "a \<noteq> b"
  shows "read_balance s a + read_balance s b \<le> i128_max"
proof -
  have "get0 (balances s) a + get0 (balances s) b \<le> map_total (balances s)"
    using assms by (intro map_total_pair_le) (simp_all add: tok_sound_def read_balance_def)
  then show ?thesis using assms(1) by (simp add: tok_sound_def read_balance_def)
qed

lemma tok_transfer_sound:
  assumes "tok_transfer e a b n s = Ok s'" and "tok_sound s" and "0 \<le> n"
  shows "authorized e a \<and> n \<le> read_balance s a \<and>
    s' = write_balance b ((if a = b then read_balance s a - n else read_balance s b) + n)
           (write_balance a (read_balance s a - n) s)"
proof -
  have 1: "in_i128 (read_balance s a - n)" if "n \<le> read_balance s a"
    using that assms(3) tok_sound_balance [OF assms(2), of a]
    by (auto simp: in_i128_def i128_min_eq)
  have 2: "in_i128 ((if a = b then read_balance s a - n else read_balance s b) + n)"
    if "n \<le> read_balance s a"
    using that assms(3) tok_sound_balance [OF assms(2)] tok_sound_pair [OF assms(2), of a b]
    by (fastforce simp: in_i128_def i128_min_eq)
  show ?thesis
    using assms(1) 1 2 by (auto simp: tok_transfer_def spend_balance_def receive_balance_def
        plain_i128_ok split: if_splits)
qed

interpretation perigee_token: token_iface tok_transfer tok_balance tok_sound
proof unfold_locales
  fix s s' :: token and e :: env and a b c :: address and n :: i128
  show "tok_sound s \<Longrightarrow> 0 \<le> tok_balance s a \<and> in_i128 (tok_balance s a)"
    by (simp add: tok_balance_def tok_sound_balance)
  assume t: "tok_transfer e a b n s = Ok s'" "tok_sound s" "0 \<le> n"
  note r = tok_transfer_sound [OF t]
  show "authorized e a \<and> n \<le> tok_balance s a" using r by (simp add: tok_balance_def)
  show "tok_balance s' c = tok_balance s c - (if c = a then n else 0) + (if c = b then n else 0)"
    using r by (auto simp: tok_balance_def)
  show "tok_sound s'" using r t(2,3) by (auto simp: tok_sound_def read_balance_def)
qed

lemma token_example_sound: "tok_sound token_example"
  by (simp add: tok_sound_def token_example_def read_balance_def fresh_token_def i128_max_eq)

end
