(* ===== verification/Policy_Vault.thy ===== *)
theory Policy_Vault
  imports Prelude
begin

text \<open>
  Vault provisioning with a per-manager, per-epoch rate limit,
  \<open>contracts/policy_vault/src/lib.rs\<close>: the entry points and views, the invariant that ties the
  counters to the registered vaults, and the bound on the vaults of one epoch.
\<close>

section \<open>State\<close>

datatype pv_error =
    AlreadyInitialized | NotInitialized | Unauthorized | InvalidConfig | RateLimitExceeded
  | VaultAlreadyExists | Overflow

record rate_limit_config =
  max_vaults_per_epoch :: u32
  epoch_length_ledgers :: u32

record manager_epoch_state =
  ms_epoch :: u32
  ms_count :: u32
  ms_total_vaults :: u32

record vault_record =
  vr_manager :: address
  vr_vault_id :: u32
  vr_created_ledger :: u32
  vr_epoch :: u32

record policy_vault =
  pv_admin :: "address option"
  pv_config :: "rate_limit_config option"
  manager_states :: "address \<rightharpoonup> manager_epoch_state"
  vaults :: "address \<times> u32 \<rightharpoonup> vault_record"

section \<open>Helpers\<close>

definition pv_load_admin :: "policy_vault \<Rightarrow> (address, pv_error) result" where
  "pv_load_admin s = ok_or (pv_admin s) NotInitialized"

definition pv_load_config :: "policy_vault \<Rightarrow> (rate_limit_config, pv_error) result" where
  "pv_load_config s = ok_or (pv_config s) NotInitialized"

definition pv_require_admin :: "env \<Rightarrow> address \<Rightarrow> policy_vault \<Rightarrow> (unit, pv_error) result" where
  "pv_require_admin e admin s =
     and_then (pv_load_admin s) (\<lambda>stored.
       if admin \<noteq> stored then Err Unauthorized else require_auth e admin)"

definition pv_validate_config :: "u32 \<Rightarrow> u32 \<Rightarrow> (unit, pv_error) result" where
  "pv_validate_config max_vaults epoch_length =
     (if max_vaults = 0 \<or> epoch_length = 0 then Err InvalidConfig else Ok ())"

text \<open>The division traps on zero, which a validated configuration excludes.\<close>

definition epoch_for :: "env \<Rightarrow> u32 \<Rightarrow> (u32, pv_error) result" where
  "epoch_for e epoch_length =
     (if epoch_length = 0 then Panic else Ok (sequence e div epoch_length))"

definition load_manager_state :: "policy_vault \<Rightarrow> address \<Rightarrow> u32 \<Rightarrow> manager_epoch_state" where
  "load_manager_state s manager current_epoch =
     (case manager_states s manager of
        Some st \<Rightarrow> if ms_epoch st = current_epoch then st
                   else \<lparr>ms_epoch = current_epoch, ms_count = 0, ms_total_vaults = ms_total_vaults st\<rparr>
      | None \<Rightarrow> \<lparr>ms_epoch = current_epoch, ms_count = 0, ms_total_vaults = 0\<rparr>)"

section \<open>Entry points\<close>

definition pv_initialize ::
  "env \<Rightarrow> address \<Rightarrow> u32 \<Rightarrow> u32 \<Rightarrow> policy_vault \<Rightarrow> (policy_vault, pv_error) result" where
  "pv_initialize e admin max_vaults epoch_length s =
     (if pv_admin s \<noteq> None then Err AlreadyInitialized
      else and_then (pv_validate_config max_vaults epoch_length) (\<lambda>_.
           and_then (require_auth e admin) (\<lambda>_.
             Ok (s\<lparr>pv_admin := Some admin,
                   pv_config := Some \<lparr>max_vaults_per_epoch = max_vaults,
                                      epoch_length_ledgers = epoch_length\<rparr>\<rparr>))))"

definition pv_set_rate_limit ::
  "env \<Rightarrow> address \<Rightarrow> u32 \<Rightarrow> u32 \<Rightarrow> policy_vault \<Rightarrow> (policy_vault, pv_error) result" where
  "pv_set_rate_limit e admin max_vaults epoch_length s =
     and_then (pv_require_admin e admin s) (\<lambda>_.
     and_then (pv_validate_config max_vaults epoch_length) (\<lambda>_.
       Ok (s\<lparr>pv_config := Some \<lparr>max_vaults_per_epoch = max_vaults,
                                epoch_length_ledgers = epoch_length\<rparr>\<rparr>)))"

definition pv_set_admin ::
  "env \<Rightarrow> address \<Rightarrow> address \<Rightarrow> policy_vault \<Rightarrow> (policy_vault, pv_error) result" where
  "pv_set_admin e admin new_admin s =
     and_then (pv_require_admin e admin s) (\<lambda>_. Ok (s\<lparr>pv_admin := Some new_admin\<rparr>))"

definition pv_create_vault ::
  "env \<Rightarrow> address \<Rightarrow> u32 \<Rightarrow> policy_vault \<Rightarrow> (vault_record \<times> policy_vault, pv_error) result" where
  "pv_create_vault e manager vault_id s =
     and_then (require_auth e manager) (\<lambda>_.
     and_then (pv_load_config s) (\<lambda>config.
     and_then (epoch_for e (epoch_length_ledgers config)) (\<lambda>epoch.
       let state = load_manager_state s manager epoch
       in if max_vaults_per_epoch config \<le> ms_count state then Err RateLimitExceeded
          else if vaults s (manager, vault_id) \<noteq> None then Err VaultAlreadyExists
          else
            let record = \<lparr>vr_manager = manager, vr_vault_id = vault_id,
                          vr_created_ledger = sequence e, vr_epoch = epoch\<rparr>
            in and_then (add_u32 e (ms_count state) 1) (\<lambda>count.
               and_then (ok_or (checked_add_word (ms_total_vaults state) 1) Overflow) (\<lambda>total.
                 Ok (record,
                     s\<lparr>vaults := (vaults s)((manager, vault_id) \<mapsto> record),
                       manager_states := (manager_states s)
                         (manager \<mapsto> state\<lparr>ms_count := count, ms_total_vaults := total\<rparr>)\<rparr>))))))"

section \<open>Views\<close>

definition pv_current_epoch :: "env \<Rightarrow> policy_vault \<Rightarrow> (u32, pv_error) result" where
  "pv_current_epoch e s =
     and_then (pv_load_config s) (\<lambda>config. epoch_for e (epoch_length_ledgers config))"

definition pv_vaults_this_epoch ::
  "env \<Rightarrow> address \<Rightarrow> policy_vault \<Rightarrow> (u32, pv_error) result" where
  "pv_vaults_this_epoch e manager s =
     and_then (pv_load_config s) (\<lambda>config.
     and_then (epoch_for e (epoch_length_ledgers config)) (\<lambda>epoch.
       Ok (ms_count (load_manager_state s manager epoch))))"

definition pv_total_vaults :: "env \<Rightarrow> address \<Rightarrow> policy_vault \<Rightarrow> (u32, pv_error) result" where
  "pv_total_vaults e manager s =
     and_then (pv_load_config s) (\<lambda>config.
     and_then (epoch_for e (epoch_length_ledgers config)) (\<lambda>epoch.
       Ok (ms_total_vaults (load_manager_state s manager epoch))))"

definition pv_remaining_quota :: "env \<Rightarrow> address \<Rightarrow> policy_vault \<Rightarrow> (u32, pv_error) result" where
  "pv_remaining_quota e manager s =
     and_then (pv_load_config s) (\<lambda>config.
     and_then (epoch_for e (epoch_length_ledgers config)) (\<lambda>epoch.
       Ok (saturating_sub_word (max_vaults_per_epoch config)
             (ms_count (load_manager_state s manager epoch)))))"

definition pv_get_vault :: "policy_vault \<Rightarrow> address \<Rightarrow> u32 \<Rightarrow> vault_record option" where
  "pv_get_vault s manager vault_id = vaults s (manager, vault_id)"

section \<open>Runs\<close>

datatype pv_call =
    PvInitialize address u32 u32
  | PvSetRateLimit address u32 u32
  | PvSetAdmin address address
  | PvCreateVault address u32

fun pv_exec :: "env \<Rightarrow> pv_call \<Rightarrow> policy_vault \<Rightarrow> (policy_vault, pv_error) result" where
  "pv_exec e (PvInitialize a m l) s = pv_initialize e a m l s"
| "pv_exec e (PvSetRateLimit a m l) s = pv_set_rate_limit e a m l s"
| "pv_exec e (PvSetAdmin a b) s = pv_set_admin e a b s"
| "pv_exec e (PvCreateVault m i) s = and_then (pv_create_vault e m i s) (\<lambda>(r, s'). Ok s')"

definition fresh_policy_vault :: policy_vault where
  "fresh_policy_vault = \<lparr>pv_admin = None, pv_config = None, manager_states = Map.empty,
     vaults = Map.empty\<rparr>"

text \<open>One accepted call in some ledger: \<open>pv_step n c s s'\<close> is a call \<open>c\<close> at sequence number \<open>n\<close>.\<close>

inductive pv_step :: "u32 \<Rightarrow> pv_call \<Rightarrow> policy_vault \<Rightarrow> policy_vault \<Rightarrow> bool" where
  pv_step: "sequence e = n \<Longrightarrow> pv_exec e c s = Ok s' \<Longrightarrow> pv_step n c s s'"

text \<open>Histories of accepted calls in ledgers that never go back.\<close>

inductive pv_run :: "u32 \<Rightarrow> pv_call list \<Rightarrow> policy_vault \<Rightarrow> bool" where
  pv_start: "pv_run 0 [] fresh_policy_vault"
| pv_next: "pv_run n cs s \<Longrightarrow> n \<le> n' \<Longrightarrow> pv_step n' c s s' \<Longrightarrow> pv_run n' (cs @ [c]) s'"

inductive_cases pv_stepE: "pv_step n c s s'"

section \<open>The administrator gate\<close>

interpretation pv_gate: admin_gate pv_require_admin pv_admin
  by unfold_locales (auto simp: pv_require_admin_def pv_load_admin_def split: if_splits)


section \<open>What a creation does\<close>

lemma word_Suc_of_less: "(a::'a::len word) < b \<Longrightarrow> unat (a + 1) = unat a + 1"
proof -
  assume "a < b"
  then have "unat a + 1 < 2 ^ LENGTH('a)"
    by (metis word_less_nat_alt unsigned_less Suc_eq_plus1 Suc_lessI less_trans_Suc not_less_eq)
  then show ?thesis by (simp add: unat_word_ariths)
qed

lemma create_vault_ok:
  assumes "pv_create_vault e m i s = Ok (r, s')"
  obtains c ep st count total where "authorized e m" "pv_config s = Some c"
    "epoch_length_ledgers c \<noteq> 0" "ep = sequence e div epoch_length_ledgers c"
    "st = load_manager_state s m ep" "ms_count st < max_vaults_per_epoch c"
    "vaults s (m, i) = None" "unat count = unat (ms_count st) + 1"
    "unat total = unat (ms_total_vaults st) + 1"
    "r = \<lparr>vr_manager = m, vr_vault_id = i, vr_created_ledger = sequence e, vr_epoch = ep\<rparr>"
    "s' = s\<lparr>vaults := (vaults s)((m, i) \<mapsto> r),
           manager_states := (manager_states s)(m \<mapsto> st\<lparr>ms_count := count, ms_total_vaults := total\<rparr>)\<rparr>"
proof -
  obtain c where c: "authorized e m" "pv_config s = Some c" "epoch_length_ledgers c \<noteq> 0"
    using assms by (auto simp: pv_create_vault_def pv_load_config_def epoch_for_def split: if_splits)
  let ?ep = "sequence e div epoch_length_ledgers c"
  let ?st = "load_manager_state s m ?ep"
  let ?r = "\<lparr>vr_manager = m, vr_vault_id = i, vr_created_ledger = sequence e, vr_epoch = ?ep\<rparr>"
  have q: "ms_count ?st < max_vaults_per_epoch c" "vaults s (m, i) = None"
    using assms c by (auto simp: pv_create_vault_def pv_load_config_def epoch_for_def Let_def
        not_le split: if_splits)
  then have n: "unat (ms_count ?st + 1) = unat (ms_count ?st) + 1" by (simp add: word_Suc_of_less)
  from assms c q have r: "unat (ms_total_vaults ?st + 1) = unat (ms_total_vaults ?st) + 1 \<and> r = ?r
      \<and> s' = s\<lparr>vaults := (vaults s)((m, i) \<mapsto> ?r), manager_states := (manager_states s)
          (m \<mapsto> ?st\<lparr>ms_count := ms_count ?st + 1, ms_total_vaults := ms_total_vaults ?st + 1\<rparr>)\<rparr>"
    by (auto simp: pv_create_vault_def pv_load_config_def epoch_for_def Let_def add_u32_def
        dest!: checked_add_word_Some split: if_splits)
  show thesis
    by (rule that [OF c refl refl q n _ _ _, of "ms_total_vaults ?st + 1"]) (use r in simp_all)
qed

text \<open>The vaults of a manager, and those created in ledgers of one epoch.\<close>

definition vault_ids :: "policy_vault \<Rightarrow> address \<Rightarrow> u32 set" where
  "vault_ids s m = {i. pv_get_vault s m i \<noteq> None}"

definition epoch_vault_ids :: "policy_vault \<Rightarrow> address \<Rightarrow> u32 \<Rightarrow> u32 \<Rightarrow> u32 set" where
  "epoch_vault_ids s m len ep =
     {i. \<exists>r. pv_get_vault s m i = Some r \<and> vr_created_ledger r div len = ep}"

definition stored_total :: "policy_vault \<Rightarrow> address \<Rightarrow> u32" where
  "stored_total s m = (case manager_states s m of None \<Rightarrow> 0 | Some st \<Rightarrow> ms_total_vaults st)"

lemma load_manager_state_simps [simp]:
  "ms_epoch (load_manager_state s m ep) = ep"
  "ms_total_vaults (load_manager_state s m ep) = stored_total s m"
  by (auto simp: load_manager_state_def stored_total_def split: option.split)

definition counters_exact :: "policy_vault \<Rightarrow> bool" where
  "counters_exact s \<longleftrightarrow> (\<forall>m. unat (stored_total s m) = card (vault_ids s m))"

lemma counters_exact_exec:
  assumes "counters_exact s" and "pv_exec e c s = Ok s'"
  shows "counters_exact s'"
proof (cases c)
  case (PvCreateVault m i)
  with assms(2) obtain r where "pv_create_vault e m i s = Ok (r, s')" by auto
  then show ?thesis
  proof (cases rule: create_vault_ok)
    case (1 c ep st count total)
    then have new: "vault_ids s' m' = (if m' = m then insert i (vault_ids s m) else vault_ids s m')"
      for m' by (auto simp: vault_ids_def pv_get_vault_def)
    have "i \<notin> vault_ids s m" using 1 by (simp add: vault_ids_def pv_get_vault_def)
    then have "card (insert i (vault_ids s m)) = card (vault_ids s m) + 1" by simp
    moreover have "stored_total s' m' = (if m' = m then total else stored_total s m')" for m'
      using 1 by (simp add: stored_total_def)
    ultimately show ?thesis using assms(1) 1(5,9) by (simp add: counters_exact_def new)
  qed
qed (use assms in \<open>auto simp: pv_initialize_def pv_set_rate_limit_def pv_set_admin_def
      counters_exact_def stored_total_def vault_ids_def pv_get_vault_def split: if_splits\<close>)

lemma pv_run_counters: "pv_run n cs s \<Longrightarrow> counters_exact s"
proof (induction rule: pv_run.induct)
  case pv_start
  then show ?case
    by (simp add: counters_exact_def stored_total_def vault_ids_def pv_get_vault_def fresh_policy_vault_def)
next
  case (pv_next n cs s n' c s')
  then show ?case by (blast elim: pv_stepE intro: counters_exact_exec)
qed

section \<open>The rate limit\<close>

text \<open>
  The invariant of runs with one configuration: the counter of a manager belongs to the latest
  epoch the manager created a vault in, and counts exactly the vaults of that epoch.
\<close>

definition manager_ok :: "rate_limit_config \<Rightarrow> u32 \<Rightarrow> policy_vault \<Rightarrow> address \<Rightarrow> bool" where
  "manager_ok c n s m \<longleftrightarrow>
     (case manager_states s m of
        None \<Rightarrow> vault_ids s m = {}
      | Some st \<Rightarrow> ms_epoch st \<le> n div epoch_length_ledgers c
          \<and> card (epoch_vault_ids s m (epoch_length_ledgers c) (ms_epoch st)) = unat (ms_count st)
          \<and> (\<forall>i r. pv_get_vault s m i = Some r \<longrightarrow>
               vr_created_ledger r div epoch_length_ledgers c \<le> ms_epoch st))
     \<and> (\<forall>ep. card (epoch_vault_ids s m (epoch_length_ledgers c) ep) \<le> unat (max_vaults_per_epoch c))"

definition rate_inv :: "u32 \<Rightarrow> policy_vault \<Rightarrow> bool" where
  "rate_inv n s \<longleftrightarrow>
     (case pv_config s of
        None \<Rightarrow> (\<forall>m. manager_states s m = None \<and> vault_ids s m = {}) \<and> pv_admin s = None
      | Some c \<Rightarrow> (\<forall>m. manager_ok c n s m) \<and> pv_admin s \<noteq> None)"

lemma word_div_mono: "(a::'a::len word) \<le> b \<Longrightarrow> a div c \<le> b div c"
  by (simp add: word_le_nat_alt unat_div div_le_mono)

lemma manager_ok_later: "manager_ok c n s m \<Longrightarrow> n \<le> n' \<Longrightarrow> manager_ok c n' s m"
  using word_div_mono [of n n' "epoch_length_ledgers c"]
  by (auto simp: manager_ok_def split: option.splits)


lemma manager_ok_create:
  assumes ok: "manager_ok c n s m" and "pv_config s = Some c" and n: "n \<le> sequence e"
    and create: "pv_create_vault e m i s = Ok (r, s')"
  shows "manager_ok c (sequence e) s' m"
  using create
proof (cases rule: create_vault_ok)
  case (1 c' ep st count total)
  let ?len = "epoch_length_ledgers c"
  have c': "c' = c" using 1(2) assms(2) by simp
  have ep: "ep = sequence e div ?len" using 1(4) c' by simp
  have get: "pv_get_vault s' m j = (if j = i then Some r else pv_get_vault s m j)" for j
    using 1(11) by (simp add: pv_get_vault_def)
  have fresh: "pv_get_vault s m i = None" using 1(7) by (simp add: pv_get_vault_def)
  have st': "manager_states s' m = Some (st\<lparr>ms_count := count, ms_total_vaults := total\<rparr>)"
    using 1(11) by simp
  have ids: "epoch_vault_ids s' m ?len q =
      (if q = ep then insert i (epoch_vault_ids s m ?len q) else epoch_vault_ids s m ?len q)" for q
    using fresh 1(10) ep by (auto simp: epoch_vault_ids_def get)
  have old: "card (epoch_vault_ids s m ?len ep) = unat (ms_count st)
      \<and> (\<forall>j r. pv_get_vault s m j = Some r \<longrightarrow> vr_created_ledger r div ?len \<le> ep)"
  proof (cases "manager_states s m")
    case None
    then have "vault_ids s m = {}" and "ms_count st = 0"
      using ok 1(5) by (auto simp: manager_ok_def load_manager_state_def)
    then show ?thesis by (auto simp: epoch_vault_ids_def vault_ids_def)
  next
    case (Some t)
    have le: "ms_epoch t \<le> ep"
      using ok Some word_div_mono [OF n, of ?len] ep by (fastforce simp: manager_ok_def)
    have bound: "vr_created_ledger r div ?len \<le> ms_epoch t" if "pv_get_vault s m j = Some r" for j r
      using ok Some that by (auto simp: manager_ok_def)
    show ?thesis
    proof (cases "ms_epoch t = ep")
      case True
      then show ?thesis using ok Some 1(5) bound by (auto simp: manager_ok_def load_manager_state_def)
    next
      case False
      then have "epoch_vault_ids s m ?len ep = {}" using le bound by (fastforce simp: epoch_vault_ids_def)
      moreover have "ms_count st = 0" using False Some 1(5) by (simp add: load_manager_state_def)
      ultimately show ?thesis using le bound by (auto intro: order_trans)
    qed
  qed
  have "i \<notin> epoch_vault_ids s m ?len ep" using fresh by (simp add: epoch_vault_ids_def)
  then have new: "card (insert i (epoch_vault_ids s m ?len ep)) = unat count"
    using old 1(8) by simp
  have max: "unat count \<le> unat (max_vaults_per_epoch c)"
    using 1(6,8) c' by (simp add: word_less_nat_alt)
  show ?thesis
    using ok old new max 1(5,10) ep
    by (auto simp: manager_ok_def st' ids get)
qed


lemma manager_ok_frame:
  "manager_states s' m = manager_states s m \<Longrightarrow> pv_get_vault s' m = pv_get_vault s m \<Longrightarrow>
     manager_ok c n s' m = manager_ok c n s m"
  by (simp add: manager_ok_def vault_ids_def epoch_vault_ids_def split: option.split)

lemma manager_ok_empty:
  "manager_states s m = None \<Longrightarrow> vault_ids s m = {} \<Longrightarrow> manager_ok c n s m"
  by (auto simp: manager_ok_def vault_ids_def epoch_vault_ids_def)

lemma create_vault_frame:
  assumes "pv_create_vault e m i s = Ok (r, s')"
  shows "pv_config s' = pv_config s \<and> pv_admin s' = pv_admin s
    \<and> (m' \<noteq> m \<longrightarrow> manager_states s' m' = manager_states s m' \<and> pv_get_vault s' m' = pv_get_vault s m')"
  using assms by (cases rule: create_vault_ok) (auto simp: pv_get_vault_def fun_eq_iff)

lemma rate_inv_exec:
  assumes inv: "rate_inv n s" and n: "n \<le> sequence e" and "pv_exec e call s = Ok s'"
    and "\<forall>a m l. call \<noteq> PvSetRateLimit a m l"
  shows "rate_inv (sequence e) s'"
proof (cases call)
  case (PvInitialize a mx l)
  with assms have "pv_config s = None" "pv_config s' \<noteq> None" "pv_admin s' \<noteq> None"
    "manager_states s' = manager_states s" "vaults s' = vaults s"
    by (auto simp: pv_initialize_def rate_inv_def split: if_splits option.splits)
  with inv show ?thesis
    by (auto simp: rate_inv_def vault_ids_def pv_get_vault_def intro!: manager_ok_empty)
next
  case (PvSetAdmin a b)
  with assms have s': "s' = s\<lparr>pv_admin := Some b\<rparr>" "pv_admin s \<noteq> None"
    by (auto simp: pv_set_admin_def pv_gate.gate_ok)
  then have "manager_ok c (sequence e) s' m = manager_ok c (sequence e) s m" for c m
    by (intro manager_ok_frame) (simp_all add: pv_get_vault_def fun_eq_iff)
  with inv s' n show ?thesis by (auto simp: rate_inv_def split: option.splits intro: manager_ok_later)
next
  case (PvCreateVault m i)
  with assms obtain r where create: "pv_create_vault e m i s = Ok (r, s')" by auto
  then obtain c where c: "pv_config s = Some c" by (rule create_vault_ok)
  have ok: "manager_ok c n s m'" for m' using inv c by (simp add: rate_inv_def)
  have "manager_ok c (sequence e) s' m'" for m'
  proof (cases "m' = m")
    case True
    then show ?thesis using manager_ok_create [OF ok c n create] by simp
  next
    case False
    then show ?thesis
      using create_vault_frame [OF create, of m'] manager_ok_later [OF ok n, of m']
        manager_ok_frame [of s' m' s] by simp
  qed
  moreover have "pv_config s' = Some c" "pv_admin s' = pv_admin s"
    using create_vault_frame [OF create] c by auto
  ultimately show ?thesis using inv c by (auto simp: rate_inv_def)
qed (use assms(4) in simp)

lemma pv_run_rate_inv:
  "pv_run n cs s \<Longrightarrow> \<forall>a m l. PvSetRateLimit a m l \<notin> set cs \<Longrightarrow> rate_inv n s"
proof (induction rule: pv_run.induct)
  case pv_start
  then show ?case by (simp add: rate_inv_def fresh_policy_vault_def vault_ids_def pv_get_vault_def)
next
  case (pv_next n cs s n' c s')
  then show ?case by (auto elim!: pv_stepE intro!: rate_inv_exec)
qed

section \<open>Properties of the policy vault\<close>

text \<open>
  C4. The rate limit holds. After any history of calls, in ledgers that never go back and with
  the configuration of the initialization kept, no manager owns more vaults created within one
  epoch than the configured maximum.
\<close>

theorem pv_rate_limit_holds:
  assumes "pv_run n cs s" and "\<forall>a m l. PvSetRateLimit a m l \<notin> set cs" and "pv_config s = Some c"
  shows "card {i. \<exists>r. pv_get_vault s m i = Some r
      \<and> vr_created_ledger r div epoch_length_ledgers c = ep} \<le> unat (max_vaults_per_epoch c)"
proof -
  have "manager_ok c n s m" using pv_run_rate_inv [OF assms(1,2)] assms(3) by (auto simp: rate_inv_def)
  then show ?thesis by (simp add: manager_ok_def epoch_vault_ids_def)
qed

definition pv_env :: "u32 \<Rightarrow> env" where
  "pv_env n = \<lparr>sequence = n, timestamp = 0, authorized = (\<lambda>_. True), self = 0, overflow_checks = True\<rparr>"

definition pv_example :: policy_vault where
  "pv_example = \<lparr>pv_admin = Some 1,
     pv_config = Some \<lparr>max_vaults_per_epoch = 1, epoch_length_ledgers = 1000\<rparr>,
     manager_states = [7 \<mapsto> \<lparr>ms_epoch = 0, ms_count = 1, ms_total_vaults = 1\<rparr>],
     vaults = [(7, 3) \<mapsto> \<lparr>vr_manager = 7, vr_vault_id = 3, vr_created_ledger = 500, vr_epoch = 0\<rparr>]\<rparr>"

lemma pv_example_run: "pv_run 500 [PvInitialize 1 1 1000, PvCreateVault 7 3] pv_example"
proof -
  let ?s = "fresh_policy_vault\<lparr>pv_admin := Some 1,
     pv_config := Some \<lparr>max_vaults_per_epoch = 1, epoch_length_ledgers = 1000\<rparr>\<rparr>"
  have "pv_exec (pv_env 0) (PvInitialize 1 1 1000) fresh_policy_vault = Ok ?s"
    by (simp add: pv_initialize_def pv_validate_config_def fresh_policy_vault_def pv_env_def require_auth_def)
  then have s: "pv_step 0 (PvInitialize 1 1 1000) fresh_policy_vault ?s"
    by (intro pv_step [of "pv_env 0"]) (simp_all add: pv_env_def)
  have 1: "pv_run 0 ([] @ [PvInitialize 1 1 1000]) ?s" by (rule pv_next [OF pv_start _ s]) simp
  have "pv_exec (pv_env 500) (PvCreateVault 7 3) ?s = Ok pv_example"
    by (simp add: pv_create_vault_def pv_load_config_def epoch_for_def load_manager_state_def
        add_u32_def checked_add_word_def fresh_policy_vault_def pv_env_def require_auth_def
        pv_example_def Let_def)
  then have s: "pv_step 500 (PvCreateVault 7 3) ?s pv_example"
    by (intro pv_step [of "pv_env 500"]) (simp_all add: pv_env_def)
  have "pv_run 500 (([] @ [PvInitialize 1 1 1000]) @ [PvCreateVault 7 3]) pv_example"
    by (rule pv_next [OF 1 _ s]) simp
  then show ?thesis by simp
qed

theorem pv_rate_limit_holds_witness:
  "pv_run 500 [PvInitialize 1 1 1000, PvCreateVault 7 3] pv_example
   \<and> pv_get_vault pv_example 7 3 \<noteq> None
   \<and> card {i. \<exists>r. pv_get_vault pv_example 7 i = Some r \<and> vr_created_ledger r div 1000 = 0} \<le> 1"
  using pv_example_run pv_rate_limit_holds [OF pv_example_run, of _ 7 0]
  by (simp add: pv_example_def pv_get_vault_def)

text \<open>
  C31. The lifetime counters are exact: after any history of calls, changes of the rate limit
  included, the total the contract reports for a manager is the number of vaults registered for
  that manager.
\<close>

theorem pv_total_vaults_exact:
  assumes "pv_run n cs s" and "pv_total_vaults e m s = Ok t"
  shows "unat t = card {i. pv_get_vault s m i \<noteq> None}"
  using pv_run_counters [OF assms(1)] assms(2)
  by (auto simp: pv_total_vaults_def counters_exact_def vault_ids_def)

theorem pv_total_vaults_exact_witness:
  "pv_total_vaults (pv_env 1500) 7 pv_example = Ok 1 \<and> card {i. pv_get_vault pv_example 7 i \<noteq> None} = 1"
proof -
  have t: "pv_total_vaults (pv_env 1500) 7 pv_example = Ok 1" by code_simp
  show ?thesis using t pv_total_vaults_exact [OF pv_example_run t] by simp
qed


text \<open>
  A creation spends the creator's quota and nobody else's: it succeeds only with quota left,
  the reported quota of the creator in that ledger drops by exactly one, the returned record is
  registered, every vault that existed stays as it was, and no other manager's quota changes in
  any ledger.
\<close>

lemma pv_create_spends_own_quota:
  assumes "pv_create_vault e m i s = Ok (r, s')"
  shows "\<exists>q. pv_remaining_quota e m s = Ok q \<and> 0 < unat q
      \<and> (\<exists>q'. pv_remaining_quota e m s' = Ok q' \<and> unat q' = unat q - 1)
      \<and> pv_get_vault s m i = None \<and> pv_get_vault s' m i = Some r
      \<and> (\<forall>m' j. (m', j) \<noteq> (m, i) \<longrightarrow> pv_get_vault s' m' j = pv_get_vault s m' j)
      \<and> (\<forall>e' m'. m' \<noteq> m \<longrightarrow> pv_remaining_quota e' m' s' = pv_remaining_quota e' m' s)"
  using assms
proof (cases rule: create_vault_ok)
  case (1 c ep st count total)
  have st': "load_manager_state s' m ep = st\<lparr>ms_count := count, ms_total_vaults := total\<rparr>"
  proof -
    have "ms_epoch st = ep" using 1(5) by simp
    moreover have "manager_states s' m = Some (st\<lparr>ms_count := count, ms_total_vaults := total\<rparr>)"
      using 1(11) by simp
    ultimately show ?thesis by (simp add: load_manager_state_def)
  qed
  have q: "pv_remaining_quota e m s = Ok (saturating_sub_word (max_vaults_per_epoch c) (ms_count st))"
    using 1(2-5) by (simp add: pv_remaining_quota_def pv_load_config_def epoch_for_def)
  have q': "pv_remaining_quota e m s' = Ok (saturating_sub_word (max_vaults_per_epoch c) count)"
    using create_vault_frame [OF assms] 1(2-4) st'
    by (simp add: pv_remaining_quota_def pv_load_config_def epoch_for_def)
  have others: "pv_remaining_quota e' m' s' = pv_remaining_quota e' m' s" if "m' \<noteq> m" for e' m'
    using create_vault_frame [OF assms, of m'] that
    by (simp add: pv_remaining_quota_def pv_load_config_def load_manager_state_def)
  show ?thesis
    using q q' others 1(6-8,11) by (auto simp: unat_saturating_sub_word pv_get_vault_def
        word_less_nat_alt)
qed

text \<open>
  A longer epoch does not always start a fresh one. The documentation of
  \<open>set_rate_limit\<close> says that after a change of the epoch length the stored epochs no longer match
  and the next creation starts a fresh epoch; but a manager who used up the quota in epoch 0
  is still in epoch 0, with no quota, when the length grows while the ledger is in the first epoch.
\<close>

lemma pv_longer_epoch_keeps_count:
  "\<exists>s'. pv_remaining_quota (pv_env 600) 7 pv_example = Ok 0
     \<and> pv_set_rate_limit (pv_env 600) 1 1 2000 pv_example = Ok s'
     \<and> pv_vaults_this_epoch (pv_env 600) 7 s' = Ok 1
     \<and> (\<forall>i. pv_create_vault (pv_env 600) 7 i s' = Err RateLimitExceeded)"
proof -
  let ?s' = "pv_example\<lparr>pv_config := Some \<lparr>max_vaults_per_epoch = 1, epoch_length_ledgers = 2000\<rparr>\<rparr>"
  have "pv_remaining_quota (pv_env 600) 7 pv_example = Ok 0" by code_simp
  moreover have "pv_set_rate_limit (pv_env 600) 1 1 2000 pv_example = Ok ?s'"
    by (simp add: pv_set_rate_limit_def pv_gate.gate_ok pv_validate_config_def pv_example_def pv_env_def)
  moreover have "pv_vaults_this_epoch (pv_env 600) 7 ?s' = Ok 1" by code_simp
  moreover have "pv_create_vault (pv_env 600) 7 i ?s' = Err RateLimitExceeded" for i
    by (simp add: pv_create_vault_def pv_load_config_def epoch_for_def load_manager_state_def
        pv_example_def pv_env_def require_auth_def Let_def)
  ultimately show ?thesis by blast
qed

end
