(* ===== verification/Timelock.thy ===== *)
theory Timelock
  imports Prelude
begin

text \<open>
  The timelock controller, \<open>contracts/timelock_controller/src/lib.rs\<close>: queueing, executing and
  cancelling contract calls behind a minimum delay. The hash of an operation and the call of its
  target belong to the host and to other contracts, so they are parameters: \<open>hash\<close> is the
  SHA-256 of the serialized call, and \<open>invoke\<close> runs the target, which may call back into the
  controller, and yields a value and the controller's state after it, or nothing when it failed.
\<close>

section \<open>State\<close>

datatype tl_error =
    AlreadyInitialized | NotInitialized | Unauthorized | InvalidDelay | OperationAlreadyExists
  | OperationNotFound | OperationNotPending | OperationNotReady | TimeOverflow

datatype operation_status = Pending | Executing | Done | Canceled

type_synonym bytes32 = nat
type_synonym symbol = string

definition MAX_DELAY_SECONDS :: u64 where "MAX_DELAY_SECONDS = 7776000"

record controller_config =
  tl_admin :: address
  tl_proposer :: address
  tl_executor :: address
  tl_canceller :: address
  min_delay :: u64

record 'v operation =
  op_id :: bytes32
  target :: address
  fn :: symbol
  op_args :: "'v list"
  salt :: bytes32
  op_proposer :: address
  queued_at :: u64
  ready_at :: u64
  status :: operation_status

record 'v timelock =
  config :: "controller_config option"
  operations :: "bytes32 \<rightharpoonup> 'v operation"

type_synonym 'v hash = "address \<Rightarrow> symbol \<Rightarrow> 'v list \<Rightarrow> bytes32 \<Rightarrow> bytes32"
type_synonym 'v invoke =
  "address \<Rightarrow> symbol \<Rightarrow> 'v list \<Rightarrow> 'v timelock \<Rightarrow> ('v \<times> 'v timelock) option"

section \<open>Helpers\<close>

definition tl_load_config :: "'v timelock \<Rightarrow> (controller_config, tl_error) result" where
  "tl_load_config s = ok_or (config s) NotInitialized"

definition tl_save_config :: "controller_config \<Rightarrow> 'v timelock \<Rightarrow> 'v timelock" where
  "tl_save_config c s = s\<lparr>config := Some c\<rparr>"

definition require_role :: "env \<Rightarrow> address \<Rightarrow> address \<Rightarrow> (unit, tl_error) result" where
  "require_role e caller expected =
     (if caller \<noteq> expected then Err Unauthorized else require_auth e caller)"

definition tl_load_operation :: "bytes32 \<Rightarrow> 'v timelock \<Rightarrow> ('v operation, tl_error) result" where
  "tl_load_operation i s = ok_or (operations s i) OperationNotFound"

definition tl_save_operation :: "'v operation \<Rightarrow> 'v timelock \<Rightarrow> 'v timelock" where
  "tl_save_operation op s = s\<lparr>operations := (operations s)(op_id op \<mapsto> op)\<rparr>"

section \<open>Entry points\<close>

definition tl_initialize ::
  "env \<Rightarrow> address \<Rightarrow> address \<Rightarrow> address \<Rightarrow> address \<Rightarrow> u64 \<Rightarrow> 'v timelock
    \<Rightarrow> ('v timelock, tl_error) result" where
  "tl_initialize e admin proposer executor canceller delay s =
     (if config s \<noteq> None then Err AlreadyInitialized
      else if delay = 0 \<or> MAX_DELAY_SECONDS < delay then Err InvalidDelay
      else and_then (require_auth e admin) (\<lambda>_.
        Ok (tl_save_config \<lparr>tl_admin = admin, tl_proposer = proposer, tl_executor = executor,
              tl_canceller = canceller, min_delay = delay\<rparr> s)))"

definition tl_queue ::
  "'v hash \<Rightarrow> env \<Rightarrow> address \<Rightarrow> address \<Rightarrow> symbol \<Rightarrow> 'v list \<Rightarrow> bytes32 \<Rightarrow> 'v timelock
    \<Rightarrow> ('v operation \<times> 'v timelock, tl_error) result" where
  "tl_queue hash e proposer tgt f args slt s =
     and_then (tl_load_config s) (\<lambda>cfg.
     and_then (require_role e proposer (tl_proposer cfg)) (\<lambda>_.
     and_then (ok_or (checked_add_word (timestamp e) (min_delay cfg)) TimeOverflow) (\<lambda>ready.
       let i = hash tgt f args slt;
           op = \<lparr>op_id = i, target = tgt, fn = f, op_args = args, salt = slt,
                 op_proposer = proposer, queued_at = timestamp e, ready_at = ready,
                 status = Pending\<rparr>
       in case operations s i of
            Some existing \<Rightarrow>
              if status existing \<noteq> Canceled then Err OperationAlreadyExists
              else Ok (op, tl_save_operation op s)
          | None \<Rightarrow> Ok (op, tl_save_operation op s))))"

text \<open>\<open>execute\<close> up to the call of the target, and after it.\<close>

definition tl_execute_begin ::
  "env \<Rightarrow> address \<Rightarrow> bytes32 \<Rightarrow> 'v timelock \<Rightarrow> ('v operation \<times> 'v timelock, tl_error) result" where
  "tl_execute_begin e executor i s =
     and_then (tl_load_config s) (\<lambda>cfg.
     and_then (require_role e executor (tl_executor cfg)) (\<lambda>_.
     and_then (tl_load_operation i s) (\<lambda>op.
       if status op \<noteq> Pending then Err OperationNotPending
       else if timestamp e < ready_at op then Err OperationNotReady
       else let op = op\<lparr>status := Executing\<rparr> in Ok (op, tl_save_operation op s))))"

definition tl_execute_end :: "'v operation \<Rightarrow> 'v timelock \<Rightarrow> 'v timelock" where
  "tl_execute_end op s = tl_save_operation (op\<lparr>status := Done\<rparr>) s"

definition tl_execute ::
  "'v invoke \<Rightarrow> env \<Rightarrow> address \<Rightarrow> bytes32 \<Rightarrow> 'v timelock \<Rightarrow> ('v \<times> 'v timelock, tl_error) result" where
  "tl_execute invoke e executor i s =
     and_then (tl_execute_begin e executor i s) (\<lambda>(op, s).
       case invoke (target op) (fn op) (op_args op) s of
         None \<Rightarrow> Panic
       | Some (result, s) \<Rightarrow> Ok (result, tl_execute_end op s))"

definition tl_cancel ::
  "env \<Rightarrow> address \<Rightarrow> bytes32 \<Rightarrow> 'v timelock \<Rightarrow> ('v timelock, tl_error) result" where
  "tl_cancel e canceller i s =
     and_then (tl_load_config s) (\<lambda>cfg.
     and_then (require_role e canceller (tl_canceller cfg)) (\<lambda>_.
     and_then (tl_load_operation i s) (\<lambda>op.
       if status op \<noteq> Pending then Err OperationNotPending
       else Ok (tl_save_operation (op\<lparr>status := Canceled\<rparr>) s))))"

definition tl_set_min_delay ::
  "env \<Rightarrow> address \<Rightarrow> u64 \<Rightarrow> 'v timelock \<Rightarrow> ('v timelock, tl_error) result" where
  "tl_set_min_delay e admin delay s =
     and_then (tl_load_config s) (\<lambda>cfg.
     and_then (require_role e admin (tl_admin cfg)) (\<lambda>_.
       if delay = 0 \<or> MAX_DELAY_SECONDS < delay then Err InvalidDelay
       else Ok (tl_save_config (cfg\<lparr>min_delay := delay\<rparr>) s)))"

definition tl_set_roles ::
  "env \<Rightarrow> address \<Rightarrow> address \<Rightarrow> address \<Rightarrow> address \<Rightarrow> 'v timelock
    \<Rightarrow> ('v timelock, tl_error) result" where
  "tl_set_roles e admin proposer executor canceller s =
     and_then (tl_load_config s) (\<lambda>cfg.
     and_then (require_role e admin (tl_admin cfg)) (\<lambda>_.
       Ok (tl_save_config (cfg\<lparr>tl_proposer := proposer, tl_executor := executor,
             tl_canceller := canceller\<rparr>) s)))"

definition tl_transfer_admin ::
  "env \<Rightarrow> address \<Rightarrow> address \<Rightarrow> 'v timelock \<Rightarrow> ('v timelock, tl_error) result" where
  "tl_transfer_admin e admin new_admin s =
     and_then (tl_load_config s) (\<lambda>cfg.
     and_then (require_role e admin (tl_admin cfg)) (\<lambda>_.
       Ok (tl_save_config (cfg\<lparr>tl_admin := new_admin\<rparr>) s)))"

section \<open>Runs, with re-entrant targets\<close>

text \<open>
  What the controller does that matters outside, in the order in which it happens: operations
  queued, with the time and the delay in force, targets invoked, operations cancelled.
\<close>

datatype 'v tl_event =
    Queued bytes32 address symbol "'v list" u64 u64
  | Invoked bytes32 address symbol "'v list" u64
  | Cancelled bytes32

text \<open>
  A call of the controller at a given time, and a sequence of calls. While a target runs it may
  make any calls of the controller, so the rule for \<open>execute\<close> has a whole sequence of calls
  between its two halves. Calls that fail leave no trace and are not steps.
\<close>

inductive tl_step ::
    "'v hash \<Rightarrow> u64 \<Rightarrow> 'v timelock \<Rightarrow> 'v tl_event list \<Rightarrow> 'v timelock \<Rightarrow> bool"
  and tl_steps ::
    "'v hash \<Rightarrow> u64 \<Rightarrow> 'v timelock \<Rightarrow> 'v tl_event list \<Rightarrow> 'v timelock \<Rightarrow> bool"
  for hash and now where
  initialize: "timestamp e = now \<Longrightarrow> tl_initialize e a p x c d s = Ok s' \<Longrightarrow> tl_step hash now s [] s'"
| queue: "timestamp e = now \<Longrightarrow> tl_queue hash e p t f as n s = Ok (op, s') \<Longrightarrow> config s = Some cfg \<Longrightarrow>
    tl_step hash now s [Queued (op_id op) t f as now (min_delay cfg)] s'"
| execute: "timestamp e = now \<Longrightarrow> tl_execute_begin e x i s = Ok (op, s1) \<Longrightarrow>
    tl_steps hash now s1 evs s2 \<Longrightarrow>
    tl_step hash now s (Invoked i (target op) (fn op) (op_args op) now # evs) (tl_execute_end op s2)"
| cancel: "timestamp e = now \<Longrightarrow> tl_cancel e c i s = Ok s' \<Longrightarrow> tl_step hash now s [Cancelled i] s'"
| set_min_delay: "timestamp e = now \<Longrightarrow> tl_set_min_delay e a d s = Ok s' \<Longrightarrow> tl_step hash now s [] s'"
| set_roles: "timestamp e = now \<Longrightarrow> tl_set_roles e a p x c s = Ok s' \<Longrightarrow> tl_step hash now s [] s'"
| transfer_admin: "timestamp e = now \<Longrightarrow> tl_transfer_admin e a b s = Ok s' \<Longrightarrow> tl_step hash now s [] s'"
| none: "tl_steps hash now s [] s"
| more: "tl_step hash now s evs s' \<Longrightarrow> tl_steps hash now s' evs' s'' \<Longrightarrow>
    tl_steps hash now s (evs @ evs') s''"

text \<open>The history of a deployed controller: transactions at successive times.\<close>

definition fresh_timelock :: "'v timelock" where
  "fresh_timelock = \<lparr>config = None, operations = Map.empty\<rparr>"

inductive tl_run :: "'v hash \<Rightarrow> 'v tl_event list \<Rightarrow> 'v timelock \<Rightarrow> bool" for hash where
  tl_start: "tl_run hash [] fresh_timelock"
| tl_next: "tl_run hash evs s \<Longrightarrow> tl_step hash now s evs' s' \<Longrightarrow> tl_run hash (evs @ evs') s'"

text \<open>An accepted \<open>execute\<close> whose target acts through the controller's calls is a step.\<close>

lemma tl_execute_step:
  assumes "tl_execute invoke e x i s = Ok (v, s')"
    and "\<And>t f as s1 w s2. invoke t f as s1 = Some (w, s2) \<Longrightarrow> \<exists>evs. tl_steps hash (timestamp e) s1 evs s2"
  shows "\<exists>evs. tl_step hash (timestamp e) s evs s'"
  using assms by (fastforce simp: tl_execute_def split: option.splits intro: tl_step_tl_steps.execute [OF refl])


section \<open>The life of an operation\<close>

text \<open>
  The specification, for each operation id separately: it is idle, or waits with a call and the
  time from which the call may run, or is spent for ever.
\<close>

datatype 'v phase = Idle | Waiting address symbol "'v list" nat | Spent

fun life :: "bytes32 \<Rightarrow> 'v phase \<Rightarrow> 'v tl_event \<Rightarrow> 'v phase option" where
  "life i ph (Queued j t f as q d) =
     (if j \<noteq> i then Some ph
      else case ph of Idle \<Rightarrow> Some (Waiting t f as (unat q + unat d)) | _ \<Rightarrow> None)"
| "life i ph (Invoked j t f as now) =
     (if j \<noteq> i then Some ph
      else case ph of
             Waiting t' f' as' r \<Rightarrow> if t = t' \<and> f = f' \<and> as = as' \<and> r \<le> unat now then Some Spent else None
           | _ \<Rightarrow> None)"
| "life i ph (Cancelled j) =
     (if j \<noteq> i then Some ph else case ph of Waiting t f as r \<Rightarrow> Some Idle | _ \<Rightarrow> None)"

fun lives :: "bytes32 \<Rightarrow> 'v phase \<Rightarrow> 'v tl_event list \<Rightarrow> 'v phase option" where
  "lives i ph [] = Some ph"
| "lives i ph (ev # evs) = (case life i ph ev of None \<Rightarrow> None | Some ph' \<Rightarrow> lives i ph' evs)"

fun event_id :: "'v tl_event \<Rightarrow> bytes32" where
  "event_id (Queued i t f as q d) = i"
| "event_id (Invoked i t f as now) = i"
| "event_id (Cancelled i) = i"

lemma lives_append:
  "lives i ph (xs @ ys) = (case lives i ph xs of None \<Rightarrow> None | Some ph' \<Rightarrow> lives i ph' ys)"
  by (induction xs arbitrary: ph) (auto split: option.split)

lemma life_other: "event_id ev \<noteq> i \<Longrightarrow> life i ph ev = Some ph"
  by (cases ev) auto

lemma life_Spent: "life i Spent ev = Some ph \<longleftrightarrow> event_id ev \<noteq> i \<and> ph = Spent"
  by (cases ev) auto

lemma lives_Spent: "lives i Spent evs = Some ph \<longleftrightarrow> (\<forall>ev\<in>set evs. event_id ev \<noteq> i) \<and> ph = Spent"
  by (induction evs) (auto simp: life_Spent life_other split: option.splits)

lemma lives_not_invoked:
  assumes "lives i ph evs = Some ph'" and "ph' \<noteq> Spent"
  shows "Invoked i t f as now \<notin> set evs"
proof
  assume "Invoked i t f as now \<in> set evs"
  then obtain xs ys where "evs = xs @ Invoked i t f as now # ys" by (auto dest: split_list)
  with assms show False
    by (auto simp: lives_append lives_Spent split: option.splits phase.splits if_splits)
qed

lemma lives_waiting:
  "lives i Idle evs = Some (Waiting t f as r) \<Longrightarrow>
     \<exists>us q d vs. evs = us @ Queued i t f as q d # vs \<and> r = unat q + unat d
       \<and> (\<forall>ev\<in>set vs. event_id ev \<noteq> i)"
proof (induction evs rule: rev_induct)
  case Nil
  then show ?case by simp
next
  case (snoc ev evs)
  then obtain ph where ph: "lives i Idle evs = Some ph" "life i ph ev = Some (Waiting t f as r)"
    by (auto simp: lives_append split: option.splits)
  show ?case
  proof (cases "event_id ev = i")
    case True
    with ph(2) obtain q d where "ev = Queued i t f as q d" "r = unat q + unat d"
      by (cases ev) (auto split: phase.splits if_splits)
    then show ?thesis by (intro exI [of _ evs] exI [of _ q] exI [of _ d] exI [of _ "[]"]) simp
  next
    case False
    with ph have "lives i Idle evs = Some (Waiting t f as r)" by (simp add: life_other)
    with snoc.IH obtain us q d vs where "evs = us @ Queued i t f as q d # vs" "r = unat q + unat d"
      "\<forall>ev\<in>set vs. event_id ev \<noteq> i" by blast
    with False show ?thesis
      by (intro exI [of _ us] exI [of _ q] exI [of _ d] exI [of _ "vs @ [ev]"]) auto
  qed
qed

section \<open>The controller implements it\<close>

definition phase_of :: "'v timelock \<Rightarrow> bytes32 \<Rightarrow> 'v phase" where
  "phase_of s i =
     (case operations s i of
        None \<Rightarrow> Idle
      | Some op \<Rightarrow>
          (case status op of
             Pending \<Rightarrow> Waiting (target op) (fn op) (op_args op) (unat (ready_at op))
           | Canceled \<Rightarrow> Idle
           | _ \<Rightarrow> Spent))"

definition tl_inv :: "'v hash \<Rightarrow> 'v timelock \<Rightarrow> bool" where
  "tl_inv hash s \<longleftrightarrow>
     (\<forall>i op. operations s i = Some op \<longrightarrow>
        op_id op = i \<and> hash (target op) (fn op) (op_args op) (salt op) = i)
     \<and> (\<forall>cfg. config s = Some cfg \<longrightarrow> 1 \<le> unat (min_delay cfg) \<and> unat (min_delay cfg) \<le> 7776000)"

definition delay_ok :: "'v tl_event \<Rightarrow> bool" where
  "delay_ok ev \<longleftrightarrow> (case ev of Queued i t f as q d \<Rightarrow> 1 \<le> unat d \<and> unat d \<le> 7776000 | _ \<Rightarrow> True)"

lemma delay_range:
  "d \<noteq> 0 \<Longrightarrow> Suc 0 \<le> unat d"
  "\<not> MAX_DELAY_SECONDS < d \<Longrightarrow> unat d \<le> 7776000"
  by (auto simp: MAX_DELAY_SECONDS_def word_less_nat_alt word_unat_eq_iff not_less Suc_le_eq)

lemma require_role_ok [simp]:
  "require_role e a b = Ok u \<longleftrightarrow> a = b \<and> authorized e a"
  by (auto simp: require_role_def)

lemmas tl_helper_defs = tl_load_config_def tl_save_config_def tl_load_operation_def
  tl_save_operation_def

lemma tl_begin_ok:
  assumes "tl_execute_begin e x i s = Ok (op, s1)" and "tl_inv hash s"
  obtains op0 where "operations s i = Some op0" "status op0 = Pending" "ready_at op0 \<le> timestamp e"
    "op = op0\<lparr>status := Executing\<rparr>" "s1 = s\<lparr>operations := (operations s)(i \<mapsto> op)\<rparr>" "op_id op0 = i"
  using assms by (auto simp: tl_execute_begin_def tl_helper_defs tl_inv_def Let_def not_less
      split: if_splits)


definition tl_sim :: "'v hash \<Rightarrow> 'v timelock \<Rightarrow> 'v tl_event list \<Rightarrow> 'v timelock \<Rightarrow> bool" where
  "tl_sim hash s evs s' \<longleftrightarrow> tl_inv hash s' \<and> (\<forall>ev\<in>set evs. delay_ok ev)
     \<and> (\<forall>i. lives i (phase_of s i) evs = Some (phase_of s' i))"

lemma tl_sim_trans:
  "tl_sim hash s evs s' \<Longrightarrow> tl_sim hash s' evs' s'' \<Longrightarrow> tl_sim hash s (evs @ evs') s''"
  by (auto simp: tl_sim_def lives_append)

lemma tl_sim_config:
  assumes "tl_inv hash s" and "s' = s\<lparr>config := Some cfg\<rparr>"
    and "1 \<le> unat (min_delay cfg) \<and> unat (min_delay cfg) \<le> 7776000"
  shows "tl_sim hash s [] s'"
  using assms by (auto simp: tl_sim_def tl_inv_def phase_of_def)

lemma tl_sim_queue:
  assumes "tl_inv hash s" and "tl_queue hash e p t f as n s = Ok (op, s')" and "config s = Some cfg"
  shows "tl_sim hash s [Queued (op_id op) t f as (timestamp e) (min_delay cfg)] s'"
proof -
  let ?i = "hash t f as n"
  from assms obtain ready where r: "checked_add_word (timestamp e) (min_delay cfg) = Some ready"
    and op: "op = \<lparr>op_id = ?i, target = t, fn = f, op_args = as, salt = n, op_proposer = p,
      queued_at = timestamp e, ready_at = ready, status = Pending\<rparr>"
    and s': "s' = s\<lparr>operations := (operations s)(?i \<mapsto> op)\<rparr>"
    by (auto simp: tl_queue_def tl_helper_defs Let_def split: option.splits if_splits)
  from assms have idle: "phase_of s ?i = Idle"
    by (cases "operations s ?i")
      (auto simp: tl_queue_def tl_helper_defs Let_def phase_of_def split: if_splits)
  have "unat ready = unat (timestamp e) + unat (min_delay cfg)"
    using checked_add_word_Some [OF r] by blast
  then show ?thesis using assms(1,3) op s' idle
    by (auto simp: tl_sim_def tl_inv_def delay_ok_def phase_of_def)
qed

lemma tl_sim_begin:
  assumes "tl_inv hash s" and "tl_execute_begin e x i s = Ok (op, s1)"
  shows "tl_sim hash s [Invoked i (target op) (fn op) (op_args op) (timestamp e)] s1"
    and "phase_of s1 i = Spent" and "op_id op = i"
    and "hash (target op) (fn op) (op_args op) (salt op) = i"
proof -
  obtain op0 where o: "operations s i = Some op0" "status op0 = Pending" "ready_at op0 \<le> timestamp e"
    "op = op0\<lparr>status := Executing\<rparr>" "s1 = s\<lparr>operations := (operations s)(i \<mapsto> op)\<rparr>" "op_id op0 = i"
    using assms(2,1) by (rule tl_begin_ok)
  have h: "hash (target op0) (fn op0) (op_args op0) (salt op0) = i" using assms(1) o(1) by (simp add: tl_inv_def)
  show "tl_sim hash s [Invoked i (target op) (fn op) (op_args op) (timestamp e)] s1"
    using assms(1) o h by (auto simp: tl_sim_def tl_inv_def delay_ok_def phase_of_def word_le_nat_alt)
  show "phase_of s1 i = Spent" "op_id op = i" "hash (target op) (fn op) (op_args op) (salt op) = i"
    using o h by (simp_all add: phase_of_def)
qed

lemma tl_sim_end:
  assumes "tl_inv hash s2" and "phase_of s2 i = Spent" and "op_id op = i"
    and "hash (target op) (fn op) (op_args op) (salt op) = i"
  shows "tl_sim hash s2 [] (tl_execute_end op s2)"
proof -
  have "phase_of (tl_execute_end op s2) j = phase_of s2 j" for j
    using assms(2,3) by (simp add: tl_execute_end_def tl_save_operation_def phase_of_def)
  then show ?thesis using assms(1,3,4)
    by (auto simp: tl_sim_def tl_inv_def tl_execute_end_def tl_save_operation_def)
qed

lemma tl_sim_cancel:
  assumes "tl_inv hash s" and "tl_cancel e c i s = Ok s'"
  shows "tl_sim hash s [Cancelled i] s'"
  using assms by (auto simp: tl_cancel_def tl_helper_defs tl_sim_def tl_inv_def delay_ok_def
      phase_of_def split: if_splits)

lemma tl_step_sim:
  "tl_step hash now s evs s' \<Longrightarrow> tl_inv hash s \<longrightarrow> tl_sim hash s evs s'"
  "tl_steps hash now s evs s' \<Longrightarrow> tl_inv hash s \<longrightarrow> tl_sim hash s evs s'"
proof (induction rule: tl_step_tl_steps.inducts)
  case (initialize e a p x c d s s')
  then show ?case
    by (auto simp: tl_initialize_def tl_save_config_def delay_range split: if_splits
        intro!: tl_sim_config)
next
  case (queue e p t f as n s op s' cfg)
  then show ?case using tl_sim_queue by blast
next
  case (execute e x i s op s1 evs s2)
  show ?case
  proof
    assume "tl_inv hash s"
    note b = tl_sim_begin [OF this \<open>tl_execute_begin e x i s = Ok (op, s1)\<close>]
    with execute have n: "tl_sim hash s1 evs s2" by (simp add: tl_sim_def)
    then have "lives i Spent evs = Some (phase_of s2 i)" using b(2) by (metis tl_sim_def)
    then have "phase_of s2 i = Spent" by (simp add: lives_Spent)
    with n b(3,4) have "tl_sim hash s2 [] (tl_execute_end op s2)"
      by (intro tl_sim_end) (auto simp: tl_sim_def)
    with b(1) n \<open>timestamp e = now\<close> show "tl_sim hash s (Invoked i (target op) (fn op) (op_args op) now # evs)
        (tl_execute_end op s2)"
      using tl_sim_trans [OF tl_sim_trans [OF b(1) n]] by fastforce
  qed
next
  case (cancel e c i s s')
  then show ?case using tl_sim_cancel by blast
next
  case (set_min_delay e a d s s')
  then show ?case
    by (auto simp: tl_set_min_delay_def tl_helper_defs delay_range split: if_splits
        intro!: tl_sim_config)
next
  case (set_roles e a p x c s s')
  then show ?case
    by (auto simp: tl_set_roles_def tl_helper_defs tl_inv_def intro!: tl_sim_config)
next
  case (transfer_admin e a b s s')
  then show ?case
    by (auto simp: tl_transfer_admin_def tl_helper_defs tl_inv_def intro!: tl_sim_config)
next
  case (none s)
  then show ?case by (simp add: tl_sim_def)
next
  case (more s evs s' evs' s'')
  then show ?case using tl_sim_trans by (metis tl_sim_def)
qed

lemma tl_run_sim: "tl_run hash evs s \<Longrightarrow> tl_sim hash fresh_timelock evs s"
proof (induction rule: tl_run.induct)
  case tl_start
  then show ?case by (simp add: tl_sim_def tl_inv_def fresh_timelock_def)
next
  case (tl_next evs s now evs' s')
  then have "tl_inv hash s" by (simp add: tl_sim_def)
  with tl_next tl_step_sim(1) tl_sim_trans show ?case by blast
qed

section \<open>Properties of the timelock\<close>

text \<open>
  C1. The controller implements the life cycle. In every history of calls from deployment, with
  targets that may re-enter the controller while they run, the events of each operation id are a
  path of the specified life cycle, and the stored status of the operation is where the path
  ends: queued only when idle, invoked only when waiting, with the queued call and not before its
  time, and never anything after an invocation.
\<close>

theorem tl_refines_life_cycle:
  assumes "tl_run hash evs s"
  shows "lives i Idle evs = Some (phase_of s i)"
  using tl_run_sim [OF assms] by (auto simp: tl_sim_def phase_of_def fresh_timelock_def)


text \<open>A small history: initialization at time 10, a queued call, and its execution at time 200.\<close>

definition tl_env :: "u64 \<Rightarrow> env" where
  "tl_env t = \<lparr>sequence = 1, timestamp = t, authorized = (\<lambda>_. True), self = 0, overflow_checks = True\<rparr>"

definition tl_example_hash :: "nat hash" where
  "tl_example_hash t f as n = t + length f + sum_list as + n"

definition tl_example_op :: "operation_status \<Rightarrow> nat operation" where
  "tl_example_op st = \<lparr>op_id = 17, target = 5, fn = ''set'', op_args = [2], salt = 7, op_proposer = 2,
     queued_at = 10, ready_at = 110, status = st\<rparr>"

definition tl_example :: "operation_status \<Rightarrow> nat timelock" where
  "tl_example st = \<lparr>config = Some \<lparr>tl_admin = 1, tl_proposer = 2, tl_executor = 3, tl_canceller = 4,
     min_delay = 100\<rparr>, operations = [17 \<mapsto> tl_example_op st]\<rparr>"

lemma tl_example_queue:
  "tl_queue tl_example_hash (tl_env 10) 2 5 ''set'' [2] 7 ((tl_example st)\<lparr>operations := Map.empty\<rparr>)
     = Ok (tl_example_op Pending, tl_example Pending)"
  by (simp add: tl_queue_def tl_helper_defs tl_example_def tl_example_op_def tl_env_def
      require_role_def require_auth_def checked_add_word_def Let_def tl_example_hash_def)

lemma tl_example_begin:
  "tl_execute_begin (tl_env 200) 3 17 (tl_example Pending) =
     Ok (tl_example_op Executing, tl_example Executing)"
  by (simp add: tl_execute_begin_def tl_helper_defs tl_example_def tl_example_op_def tl_env_def
      require_role_def require_auth_def Let_def)

lemma tl_example_run:
  "tl_run tl_example_hash
     [Queued 17 5 ''set'' [2] 10 100, Invoked 17 5 ''set'' [2] 200] (tl_example Done)"
proof -
  let ?s0 = "(tl_example Pending)\<lparr>operations := Map.empty\<rparr>"
  have "tl_initialize (tl_env 10) 1 2 3 4 100 fresh_timelock = Ok ?s0"
    by (simp add: tl_initialize_def tl_save_config_def fresh_timelock_def MAX_DELAY_SECONDS_def
        tl_example_def require_auth_def tl_env_def)
  then have 0: "tl_step tl_example_hash 10 fresh_timelock [] ?s0"
    by (intro tl_step_tl_steps.initialize [of "tl_env 10"]) (simp_all add: tl_env_def)
  have 1: "tl_step tl_example_hash 10 ?s0 [Queued 17 5 ''set'' [2] 10 100] (tl_example Pending)"
    using tl_step_tl_steps.queue [OF _ tl_example_queue, of 10]
    by (simp add: tl_env_def tl_example_def tl_example_op_def)
  have 2: "tl_step tl_example_hash 200 (tl_example Pending) [Invoked 17 5 ''set'' [2] 200]
      (tl_execute_end (tl_example_op Executing) (tl_example Executing))"
    using tl_step_tl_steps.execute [OF _ tl_example_begin tl_step_tl_steps.none, of 200]
    by (simp add: tl_env_def tl_example_op_def)
  have "tl_execute_end (tl_example_op Executing) (tl_example Executing) = tl_example Done"
    by (simp add: tl_execute_end_def tl_save_operation_def tl_example_def tl_example_op_def)
  then show ?thesis
    using tl_next [OF tl_next [OF tl_next [OF tl_start 0] 1] 2] by simp
qed

theorem tl_refines_life_cycle_witness:
  "tl_run tl_example_hash [Queued 17 5 ''set'' [2] 10 100, Invoked 17 5 ''set'' [2] 200] (tl_example Done)
   \<and> lives 17 Idle [Queued 17 5 ''set'' [2] 10 100, Invoked 17 5 ''set'' [2] (200::u64)] = Some (Spent :: nat phase)
   \<and> phase_of (tl_example Done) 17 = Spent"
  using tl_example_run tl_refines_life_cycle [OF tl_example_run, of 17]
  by (simp add: phase_of_def tl_example_def tl_example_op_def)

text \<open>
  C2. Every call the controller makes was announced. In every history, when a target is invoked
  for an operation, exactly this call was queued under that id, at least the minimum delay then in
  force before, a delay of one second to ninety days; nothing happened to the operation in
  between, in particular no cancellation; and the operation is invoked this one time only.
\<close>

theorem tl_invocation_after_delay:
  assumes "tl_run hash (xs @ Invoked i t f as now # ys) s"
  shows "\<exists>us q d vs. xs = us @ Queued i t f as q d # vs \<and> unat q + unat d \<le> unat now
      \<and> 1 \<le> unat d \<and> unat d \<le> 7776000
      \<and> (\<forall>ev\<in>set vs. event_id ev \<noteq> i) \<and> (\<forall>ev\<in>set ys. event_id ev \<noteq> i)
      \<and> (\<forall>t' f' as' now'. Invoked i t' f' as' now' \<notin> set xs)"
proof -
  note sim = tl_run_sim [OF assms]
  have "lives i Idle (xs @ Invoked i t f as now # ys) = Some (phase_of s i)"
    using sim by (auto simp: tl_sim_def phase_of_def fresh_timelock_def)
  then obtain r where w: "lives i Idle xs = Some (Waiting t f as r)" "r \<le> unat now"
      and ys: "\<forall>ev\<in>set ys. event_id ev \<noteq> i"
    by (auto simp: lives_append lives_Spent split: option.splits phase.splits if_splits)
  from lives_waiting [OF w(1)] obtain us q d vs where x: "xs = us @ Queued i t f as q d # vs"
    "r = unat q + unat d" "\<forall>ev\<in>set vs. event_id ev \<noteq> i" by blast
  have d: "1 \<le> unat d \<and> unat d \<le> 7776000" using sim x(1) by (auto simp: tl_sim_def delay_ok_def)
  have "Invoked i t' f' as' now' \<notin> set xs" for t' f' as' now'
    using lives_not_invoked [OF w(1)] by simp
  with x d w(2) ys show ?thesis by blast
qed

theorem tl_invocation_after_delay_witness:
  "tl_run tl_example_hash ([Queued 17 5 ''set'' [2] 10 100] @ Invoked 17 5 ''set'' [2] 200 # [])
     (tl_example Done)
   \<and> (\<exists>us q d vs. [Queued 17 5 ''set'' [2] 10 100] = us @ Queued 17 5 ''set'' [2::nat] q d # vs
        \<and> unat q + unat d \<le> unat (200::u64) \<and> 1 \<le> unat d)"
proof -
  have r: "tl_run tl_example_hash ([Queued 17 5 ''set'' [2] 10 100] @ Invoked 17 5 ''set'' [2] 200 # [])
     (tl_example Done)" using tl_example_run by simp
  show ?thesis using r tl_invocation_after_delay [OF r] by blast
qed

text \<open>What the store holds of an operation that was queued and to which nothing has happened since.\<close>

lemma tl_run_pending:
  assumes "tl_run hash (us @ Queued i t f as q d # vs) s" and "\<forall>ev\<in>set vs. event_id ev \<noteq> i"
  obtains op where "operations s i = Some op" "status op = Pending" "target op = t" "fn op = f"
    "op_args op = as" "unat (ready_at op) = unat q + unat d" "op_id op = i"
proof -
  note sim = tl_run_sim [OF assms(1)]
  have rest: "lives i ph vs = Some ph" for ph
    using assms(2) by (induction vs arbitrary: ph) (auto simp: life_other)
  have "lives i Idle (us @ Queued i t f as q d # vs) = Some (phase_of s i)"
    using sim by (auto simp: tl_sim_def phase_of_def fresh_timelock_def)
  then have "phase_of s i = Waiting t f as (unat q + unat d)"
    by (auto simp: lives_append rest split: option.splits phase.splits)
  moreover have "tl_inv hash s" using sim by (simp add: tl_sim_def)
  ultimately show thesis
    using that by (auto simp: phase_of_def tl_inv_def split: option.splits operation_status.splits)
qed

text \<open>
  C32. A queued operation can be run. In every history, whatever other calls were made since it was
  queued, as long as the operation was neither cancelled nor invoked it is pending with the queued call,
  and from the moment its delay has passed the call of the executor then in office succeeds whenever
  the target does: it returns the target's value and leaves the operation done. Before that moment
  the call is refused as not ready, and a failing target traps the whole call.
\<close>

theorem tl_queued_becomes_executable:
  assumes "tl_run hash (us @ Queued i t f as q d # vs) s" and "\<forall>ev\<in>set vs. event_id ev \<noteq> i"
    and "config s = Some cfg" and "authorized e (tl_executor cfg)"
  shows "\<exists>op. operations s i = Some op \<and> status op = Pending \<and> target op = t \<and> fn op = f \<and> op_args op = as
    \<and> tl_execute invoke e (tl_executor cfg) i s =
      (if unat (timestamp e) < unat q + unat d then Err OperationNotReady
       else case invoke t f as (s\<lparr>operations := (operations s)(i \<mapsto> op\<lparr>status := Executing\<rparr>)\<rparr>) of
              None \<Rightarrow> Panic
            | Some (v, s2) \<Rightarrow> Ok (v, s2\<lparr>operations := (operations s2)(i \<mapsto> op\<lparr>status := Done\<rparr>)\<rparr>))"
proof -
  obtain op where op: "operations s i = Some op" "status op = Pending" "target op = t" "fn op = f"
    "op_args op = as" "unat (ready_at op) = unat q + unat d" "op_id op = i"
    using assms(1,2) by (rule tl_run_pending)
  then have "timestamp e < ready_at op \<longleftrightarrow> unat (timestamp e) < unat q + unat d"
    by (simp add: word_less_nat_alt)
  with assms(3,4) op show ?thesis
    by (intro exI [of _ op]) (simp add: tl_execute_def tl_execute_begin_def tl_helper_defs
        require_role_def require_auth_def tl_execute_end_def Let_def split: option.split)
qed

text \<open>After the queueing the administrator appoints executor 6, who runs the operation.\<close>

lemma tl_example_handed_over:
  "\<exists>s. tl_run tl_example_hash ([] @ Queued 17 5 ''set'' [2] 10 100 # []) s
     \<and> operations s = [17 \<mapsto> tl_example_op Pending]
     \<and> config s = Some \<lparr>tl_admin = 1, tl_proposer = 2, tl_executor = 6, tl_canceller = 4, min_delay = 100\<rparr>"
proof -
  let ?s0 = "(tl_example Pending)\<lparr>operations := Map.empty\<rparr>"
  have "tl_initialize (tl_env 10) 1 2 3 4 100 fresh_timelock = Ok ?s0"
    by (simp add: tl_initialize_def tl_save_config_def fresh_timelock_def MAX_DELAY_SECONDS_def
        tl_example_def require_auth_def tl_env_def)
  then have 0: "tl_step tl_example_hash 10 fresh_timelock [] ?s0"
    by (intro tl_step_tl_steps.initialize [of "tl_env 10"]) (simp_all add: tl_env_def)
  have 1: "tl_step tl_example_hash 10 ?s0 [Queued 17 5 ''set'' [2] 10 100] (tl_example Pending)"
    using tl_step_tl_steps.queue [OF _ tl_example_queue, of 10]
    by (simp add: tl_env_def tl_example_def tl_example_op_def)
  let ?s = "(tl_example Pending)\<lparr>config := Some \<lparr>tl_admin = 1, tl_proposer = 2, tl_executor = 6,
    tl_canceller = 4, min_delay = 100\<rparr>\<rparr>"
  have "tl_set_roles (tl_env 50) 1 2 6 4 (tl_example Pending) = Ok ?s"
    by (simp add: tl_set_roles_def tl_helper_defs require_role_def require_auth_def tl_env_def tl_example_def)
  then have 2: "tl_step tl_example_hash 50 (tl_example Pending) [] ?s"
    by (intro tl_step_tl_steps.set_roles [of "tl_env 50"]) (simp_all add: tl_env_def)
  show ?thesis
    using tl_next [OF tl_next [OF tl_next [OF tl_start 0] 1] 2]
    by (intro exI [of _ ?s]) (simp add: tl_example_def)
qed

theorem tl_queued_becomes_executable_witness:
  "\<exists>s s'. tl_run tl_example_hash ([] @ Queued 17 5 ''set'' [2] 10 100 # []) s
     \<and> tl_execute (\<lambda>t f as s. Some (0, s)) (tl_env 109) 6 17 s = Err OperationNotReady
     \<and> tl_execute (\<lambda>t f as s. Some (0, s)) (tl_env 110) 6 17 s = Ok (0, s')
     \<and> map_option status (operations s' 17) = Some Done"
proof -
  let ?cfg = "\<lparr>tl_admin = 1, tl_proposer = 2, tl_executor = 6, tl_canceller = 4, min_delay = 100\<rparr>"
  obtain s where s: "tl_run tl_example_hash ([] @ Queued 17 5 ''set'' [2] 10 100 # []) s"
    "config s = Some ?cfg" using tl_example_handed_over by blast
  have n: "\<forall>ev\<in>set ([] :: nat tl_event list). event_id ev \<noteq> 17" by simp
  have a: "authorized (tl_env t) (tl_executor ?cfg)" for t by (simp add: tl_env_def)
  show ?thesis
    using s tl_queued_becomes_executable [OF s(1) n s(2) a, of "\<lambda>t f as s. Some (0, s)" 109]
      tl_queued_becomes_executable [OF s(1) n s(2) a, of "\<lambda>t f as s. Some (0, s)" 110]
    by - (rule exI [of _ s], auto simp: tl_env_def)
qed

end
