(* ===== verification/Vault_Guard.thy ===== *)
theory Vault_Guard
  imports Prelude
begin

text \<open>
  The vault guard, \<open>contracts/vault_guard/src/lib.rs\<close>: a global pause by the administrator, a
  circuit breaker for the guardian, a pause mask for single operations, and an unpause behind a
  delay.
\<close>

unbundle bit_operations_syntax

section \<open>State\<close>

definition UNPAUSE_DELAY_LEDGERS :: u32 where "UNPAUSE_DELAY_LEDGERS = 17280"
definition OP_DEPOSIT :: u32 where "OP_DEPOSIT = push_bit 0 1"
definition OP_WITHDRAW :: u32 where "OP_WITHDRAW = push_bit 1 1"
definition OP_ROTATE :: u32 where "OP_ROTATE = push_bit 2 1"
definition OP_FEE_CHANGE :: u32 where "OP_FEE_CHANGE = push_bit 3 1"
definition OP_UPGRADE :: u32 where "OP_UPGRADE = push_bit 4 1"
definition OP_ALL :: u32 where
  "OP_ALL = OP_DEPOSIT OR OP_WITHDRAW OR OP_ROTATE OR OP_FEE_CHANGE OR OP_UPGRADE"

datatype vg_error =
    NotInitialized | AlreadyInitialized | Unauthorized | AlreadyPaused | NotPaused
  | UnpauseTooEarly | NotGuardian | UnknownOperation | OperationNotPaused | AlreadyTripped

datatype vg_operation = Deposit | Withdraw | Rotate | FeeChange | Upgrade

fun operation_bit :: "vg_operation \<Rightarrow> u32" where
  "operation_bit Deposit = OP_DEPOSIT"
| "operation_bit Withdraw = OP_WITHDRAW"
| "operation_bit Rotate = OP_ROTATE"
| "operation_bit FeeChange = OP_FEE_CHANGE"
| "operation_bit Upgrade = OP_UPGRADE"

record guard_state =
  all_paused :: bool
  paused_operations :: u32
  paused_at :: u32
  tripped :: bool
  tripped_by :: "address option"

record guard_roles =
  vg_admin :: address
  vg_guardian :: address

record vault_guard =
  vg_state :: "guard_state option"
  vg_roles :: "guard_roles option"

type_synonym vg_result = "(vault_guard, vg_error) result"

section \<open>Helpers\<close>

definition vg_load_roles :: "vault_guard \<Rightarrow> (guard_roles, vg_error) result" where
  "vg_load_roles s = ok_or (vg_roles s) NotInitialized"

definition vg_load_state :: "vault_guard \<Rightarrow> (guard_state, vg_error) result" where
  "vg_load_state s = ok_or (vg_state s) NotInitialized"

definition vg_save_state :: "guard_state \<Rightarrow> vault_guard \<Rightarrow> vault_guard" where
  "vg_save_state st s = s\<lparr>vg_state := Some st\<rparr>"

definition vg_require_admin :: "env \<Rightarrow> address \<Rightarrow> vault_guard \<Rightarrow> (unit, vg_error) result" where
  "vg_require_admin e caller s =
     and_then (vg_load_roles s) (\<lambda>roles.
       if caller \<noteq> vg_admin roles then Err Unauthorized else require_auth e caller)"

definition vg_require_guardian :: "env \<Rightarrow> address \<Rightarrow> vault_guard \<Rightarrow> (unit, vg_error) result" where
  "vg_require_guardian e caller s =
     and_then (vg_load_roles s) (\<lambda>roles.
       if caller \<noteq> vg_guardian roles then Err NotGuardian else require_auth e caller)"

definition validate_mask :: "u32 \<Rightarrow> (unit, vg_error) result" where
  "validate_mask ops = (if ops AND NOT OP_ALL \<noteq> 0 then Err UnknownOperation else Ok ())"

section \<open>Entry points\<close>

definition vg_initialize :: "env \<Rightarrow> address \<Rightarrow> address \<Rightarrow> vault_guard \<Rightarrow> vg_result" where
  "vg_initialize e admin guardian s =
     (if vg_roles s \<noteq> None then Err AlreadyInitialized
      else if admin = guardian then Err Unauthorized
      else and_then (require_auth e admin) (\<lambda>_.
        Ok (vg_save_state \<lparr>all_paused = False, paused_operations = 0, paused_at = 0,
                           tripped = False, tripped_by = None\<rparr>
              (s\<lparr>vg_roles := Some \<lparr>vg_admin = admin, vg_guardian = guardian\<rparr>\<rparr>))))"

definition vg_pause :: "env \<Rightarrow> address \<Rightarrow> vault_guard \<Rightarrow> vg_result" where
  "vg_pause e caller s =
     and_then (vg_require_admin e caller s) (\<lambda>_.
     and_then (vg_load_state s) (\<lambda>st.
       if all_paused st then Err AlreadyPaused
       else Ok (vg_save_state (st\<lparr>all_paused := True, paused_at := sequence e\<rparr>) s)))"

definition vg_pause_operations :: "env \<Rightarrow> address \<Rightarrow> u32 \<Rightarrow> vault_guard \<Rightarrow> vg_result" where
  "vg_pause_operations e caller ops s =
     and_then (vg_require_admin e caller s) (\<lambda>_.
     and_then (validate_mask ops) (\<lambda>_.
     and_then (vg_load_state s) (\<lambda>st.
       let requested = ops AND NOT (paused_operations st)
       in if requested = 0 then Err AlreadyPaused
          else let st = st\<lparr>paused_operations := paused_operations st OR ops\<rparr>;
                   st = (if paused_operations st \<noteq> 0 \<and> paused_at st = 0
                         then st\<lparr>paused_at := sequence e\<rparr> else st)
               in Ok (vg_save_state st s))))"

definition vg_resume_operations :: "env \<Rightarrow> address \<Rightarrow> u32 \<Rightarrow> vault_guard \<Rightarrow> vg_result" where
  "vg_resume_operations e caller ops s =
     and_then (vg_require_admin e caller s) (\<lambda>_.
     and_then (validate_mask ops) (\<lambda>_.
     and_then (vg_load_state s) (\<lambda>st.
       if ops AND NOT (paused_operations st) \<noteq> 0 then Err OperationNotPaused
       else let st = st\<lparr>paused_operations := paused_operations st AND NOT ops\<rparr>;
                st = (if paused_operations st = 0 then st\<lparr>paused_at := 0\<rparr> else st)
            in Ok (vg_save_state st s))))"

definition vg_unpause :: "env \<Rightarrow> address \<Rightarrow> vault_guard \<Rightarrow> vg_result" where
  "vg_unpause e caller s =
     and_then (vg_load_state s) (\<lambda>st.
       if \<not> all_paused st then Err NotPaused
       else and_then (require_auth e caller) (\<lambda>_.
         let elapsed = saturating_sub_word (sequence e) (paused_at st)
         in if elapsed < UNPAUSE_DELAY_LEDGERS then Err UnpauseTooEarly
            else Ok (vg_save_state (st\<lparr>all_paused := False, paused_at := 0\<rparr>) s)))"

definition vg_trip :: "env \<Rightarrow> address \<Rightarrow> vault_guard \<Rightarrow> vg_result" where
  "vg_trip e caller s =
     and_then (vg_require_guardian e caller s) (\<lambda>_.
     and_then (vg_load_state s) (\<lambda>st.
       if tripped st then Err AlreadyTripped
       else Ok (vg_save_state (st\<lparr>all_paused := True, paused_at := sequence e, tripped := True,
                                  tripped_by := Some caller\<rparr>) s)))"

definition vg_reset_trip :: "env \<Rightarrow> address \<Rightarrow> vault_guard \<Rightarrow> vg_result" where
  "vg_reset_trip e caller s =
     and_then (vg_require_guardian e caller s) (\<lambda>_.
     and_then (vg_load_state s) (\<lambda>st.
       if \<not> tripped st then Err NotPaused
       else if all_paused st then Err AlreadyPaused
       else Ok (vg_save_state (st\<lparr>tripped := False, tripped_by := None\<rparr>) s)))"

section \<open>Queries\<close>

definition vg_paused_mask :: "vault_guard \<Rightarrow> (u32, vg_error) result" where
  "vg_paused_mask s =
     and_then (vg_load_state s) (\<lambda>st. Ok (if all_paused st then OP_ALL else paused_operations st))"

definition vg_is_paused :: "vault_guard \<Rightarrow> vg_operation \<Rightarrow> (bool, vg_error) result" where
  "vg_is_paused s operation =
     and_then (vg_load_state s) (\<lambda>st.
       Ok (all_paused st \<or> paused_operations st AND operation_bit operation \<noteq> 0))"

definition vg_is_globally_paused :: "vault_guard \<Rightarrow> bool" where
  "vg_is_globally_paused s = (case vg_state s of None \<Rightarrow> False | Some st \<Rightarrow> all_paused st)"

definition vg_is_tripped :: "vault_guard \<Rightarrow> bool" where
  "vg_is_tripped s = (case vg_state s of None \<Rightarrow> False | Some st \<Rightarrow> tripped st)"

definition vg_unpause_delay_remaining :: "env \<Rightarrow> vault_guard \<Rightarrow> (u32, vg_error) result" where
  "vg_unpause_delay_remaining e s =
     and_then (vg_load_state s) (\<lambda>st.
       if \<not> all_paused st then Ok 0
       else let elapsed = saturating_sub_word (sequence e) (paused_at st)
            in Ok (saturating_sub_word UNPAUSE_DELAY_LEDGERS elapsed))"

section \<open>Runs\<close>

datatype vg_call =
    Initialize address address
  | Pause address
  | PauseOperations address u32
  | ResumeOperations address u32
  | Unpause address
  | Trip address
  | ResetTrip address

fun vg_exec :: "env \<Rightarrow> vg_call \<Rightarrow> vault_guard \<Rightarrow> vg_result" where
  "vg_exec e (Initialize a g) s = vg_initialize e a g s"
| "vg_exec e (Pause a) s = vg_pause e a s"
| "vg_exec e (PauseOperations a m) s = vg_pause_operations e a m s"
| "vg_exec e (ResumeOperations a m) s = vg_resume_operations e a m s"
| "vg_exec e (Unpause a) s = vg_unpause e a s"
| "vg_exec e (Trip a) s = vg_trip e a s"
| "vg_exec e (ResetTrip a) s = vg_reset_trip e a s"

definition fresh_vault_guard :: vault_guard where
  "fresh_vault_guard = \<lparr>vg_state = None, vg_roles = None\<rparr>"

text \<open>Histories of accepted calls, each with the sequence number of its ledger.\<close>

inductive vg_run :: "(u32 \<times> vg_call) list \<Rightarrow> vault_guard \<Rightarrow> bool" where
  vg_start: "vg_run [] fresh_vault_guard"
| vg_next: "vg_run h s \<Longrightarrow> vg_exec e c s = Ok s' \<Longrightarrow> vg_run (h @ [(sequence e, c)]) s'"

inductive_cases vg_run_snocE: "vg_run (h @ [x]) s"

interpretation vg_admin_gate: admin_gate vg_require_admin "\<lambda>s. map_option vg_admin (vg_roles s)"
  by unfold_locales (auto simp: vg_require_admin_def vg_load_roles_def split: if_splits)

interpretation vg_guardian_gate:
  admin_gate vg_require_guardian "\<lambda>s. map_option vg_guardian (vg_roles s)"
  by unfold_locales (auto simp: vg_require_guardian_def vg_load_roles_def split: if_splits)

lemmas vg_op_defs = vg_initialize_def vg_pause_def vg_pause_operations_def vg_resume_operations_def
  vg_unpause_def vg_trip_def vg_reset_trip_def vg_load_state_def vg_save_state_def validate_mask_def
  vg_admin_gate.gate_ok vg_guardian_gate.gate_ok

section \<open>The delay\<close>

text \<open>The ledger at which the global pause in force began, if there is one.\<close>

fun pause_began :: "(u32 \<times> vg_call) list \<Rightarrow> u32 option \<Rightarrow> u32 option" where
  "pause_began [] p = p"
| "pause_began ((n, Pause a) # h) p = pause_began h (Some n)"
| "pause_began ((n, Trip a) # h) p = pause_began h (Some n)"
| "pause_began ((n, Unpause a) # h) p = pause_began h None"
| "pause_began ((n, _) # h) p = pause_began h p"

lemma pause_began_append: "pause_began (h @ k) p = pause_began k (pause_began h p)"
  by (induction h p rule: pause_began.induct) simp_all

definition delay_inv :: "(u32 \<times> vg_call) list \<Rightarrow> vault_guard \<Rightarrow> bool" where
  "delay_inv h s \<longleftrightarrow>
     (case vg_state s of
        None \<Rightarrow> pause_began h None = None \<and> vg_roles s = None
      | Some st \<Rightarrow> (if all_paused st
                    then (\<exists>n. pause_began h None = Some n \<and> n \<le> paused_at st)
                    else pause_began h None = None) \<and> vg_roles s \<noteq> None)"

lemma delay_inv_exec:
  assumes "delay_inv h s" and "vg_exec e c s = Ok s'" and "\<forall>a m. c \<noteq> ResumeOperations a m"
  shows "delay_inv (h @ [(sequence e, c)]) s'"
  using assms
  by (cases c) (auto simp: delay_inv_def pause_began_append vg_op_defs Let_def
      split: if_splits option.splits)

lemma delay_inv_run:
  "vg_run h s \<Longrightarrow> \<forall>n a m. (n, ResumeOperations a m) \<notin> set h \<Longrightarrow> delay_inv h s"
proof (induction rule: vg_run.induct)
  case vg_start
  then show ?case by (simp add: delay_inv_def fresh_vault_guard_def)
next
  case (vg_next h s e c s')
  then show ?case by (auto intro!: delay_inv_exec)
qed


fun op_index :: "vg_operation \<Rightarrow> nat" where
  "op_index Deposit = 0"
| "op_index Withdraw = 1"
| "op_index Rotate = 2"
| "op_index FeeChange = 3"
| "op_index Upgrade = 4"

lemma op_index_less: "op_index op < 32"
  by (cases op) simp_all

lemma paused_bit: "(w :: u32) AND operation_bit op = 0 \<longleftrightarrow> \<not> bit w (op_index op)"
proof -
  have "operation_bit op = 2 ^ op_index op"
    by (cases op) (simp_all add: OP_DEPOSIT_def OP_WITHDRAW_def OP_ROTATE_def OP_FEE_CHANGE_def OP_UPGRADE_def)
  then show ?thesis by (simp add: and_exp_eq_0_iff_not_bit)
qed

lemma vg_pause_operations_state:
  assumes "vg_pause_operations e a m s = Ok s'" and "vg_state s = Some st"
  shows "\<exists>st'. vg_state s' = Some st' \<and> all_paused st' = all_paused st
    \<and> paused_operations st' = paused_operations st OR m"
  using assms by (auto simp: vg_op_defs Let_def split: if_splits)

lemma vg_resume_operations_state:
  assumes "vg_resume_operations e a m s = Ok s'" and "vg_state s = Some st"
  shows "\<exists>st'. vg_state s' = Some st' \<and> all_paused st' = all_paused st
    \<and> paused_operations st' = paused_operations st AND NOT m"
  using assms by (auto simp: vg_op_defs Let_def split: if_splits)

lemma pause_began_split:
  "pause_began h None = Some n \<Longrightarrow>
     \<exists>h1 c h2. h = h1 @ (n, c) # h2 \<and> (\<exists>a. c = Pause a \<or> c = Trip a) \<and> (\<forall>k a. (k, Unpause a) \<notin> set h2)"
proof (induction h rule: rev_induct)
  case Nil
  then show ?case by simp
next
  case (snoc x h)
  obtain k c where x: "x = (k, c)" by (cases x)
  show ?case
  proof (cases "\<exists>a. c = Pause a \<or> c = Trip a")
    case True
    with snoc.prems x have "k = n" by (auto simp: pause_began_append)
    with True x show ?thesis by (intro exI [of _ h] exI [of _ c] exI [of _ "[]"]) auto
  next
    case False
    then have "pause_began h None = Some n" and u: "\<forall>a. c \<noteq> Unpause a"
      using snoc.prems x by (cases c; simp add: pause_began_append)+
    with snoc.IH obtain h1 d h2 where "h = h1 @ (n, d) # h2" "\<exists>a. d = Pause a \<or> d = Trip a"
      "\<forall>k a. (k, Unpause a) \<notin> set h2" by blast
    with u x show ?thesis by (intro exI [of _ h1] exI [of _ d] exI [of _ "h2 @ [x]"]) auto
  qed
qed

section \<open>Properties of the vault guard\<close>

text \<open>
  C7. Without resumptions of single operations the delay holds: in every history of accepted calls
  that contains none, an accepted \<open>unpause\<close> comes at least \<open>UNPAUSE_DELAY_LEDGERS\<close> ledgers after
  the \<open>pause\<close> or \<open>trip\<close> that started the global pause it lifts, and no other \<open>unpause\<close> lies
  between the two.
\<close>

theorem vg_unpause_is_delayed:
  assumes "vg_run (h @ [(n, Unpause a)]) s" and "\<forall>k b m. (k, ResumeOperations b m) \<notin> set h"
  shows "\<exists>h1 k c h2. h = h1 @ (k, c) # h2 \<and> (\<exists>b. c = Pause b \<or> c = Trip b)
    \<and> (\<forall>j b. (j, Unpause b) \<notin> set h2) \<and> unat k + 17280 \<le> unat n"
proof -
  from assms(1) obtain e s0 where r: "vg_run h s0" "vg_unpause e a s0 = Ok s" "n = sequence e"
    by (auto elim!: vg_run_snocE)
  from r(2) obtain st where st: "vg_state s0 = Some st" "all_paused st"
    "UNPAUSE_DELAY_LEDGERS \<le> saturating_sub_word n (paused_at st)"
    using r(3) by (auto simp: vg_op_defs Let_def not_less split: if_splits)
  from delay_inv_run [OF r(1) assms(2)] st obtain k where k: "pause_began h None = Some k"
    "k \<le> paused_at st" by (auto simp: delay_inv_def)
  have "unat k + 17280 \<le> unat n"
    using st(3) k(2) by (simp add: word_le_nat_alt unat_saturating_sub_word UNPAUSE_DELAY_LEDGERS_def)
  with pause_began_split [OF k(1)] show ?thesis by blast
qed

definition vg_env :: "u32 \<Rightarrow> env" where
  "vg_env n = \<lparr>sequence = n, timestamp = 0, authorized = (\<lambda>_. True), self = 0, overflow_checks = True\<rparr>"

definition vg_example :: "bool \<Rightarrow> u32 \<Rightarrow> vault_guard" where
  "vg_example b n = \<lparr>vg_state = Some \<lparr>all_paused = b, paused_operations = 0, paused_at = n,
     tripped = False, tripped_by = None\<rparr>, vg_roles = Some \<lparr>vg_admin = 1, vg_guardian = 2\<rparr>\<rparr>"

lemma vg_example_run:
  "vg_run ([(10, Initialize 1 2), (20000, Pause 1)] @ [(40000, Unpause 7)]) (vg_example False 0)"
proof -
  have "vg_exec (vg_env 10) (Initialize 1 2) fresh_vault_guard = Ok (vg_example False 0)"
    "vg_exec (vg_env 20000) (Pause 1) (vg_example False 0) = Ok (vg_example True 20000)"
    "vg_exec (vg_env 40000) (Unpause 7) (vg_example True 20000) = Ok (vg_example False 0)"
    by code_simp+
  from vg_next [OF vg_next [OF vg_next [OF vg_start this(1)] this(2)] this(3)]
  show ?thesis by (simp add: vg_env_def)
qed

theorem vg_unpause_is_delayed_witness:
  "vg_run ([(10, Initialize 1 2), (20000, Pause 1)] @ [(40000, Unpause 7)]) (vg_example False 0)
   \<and> (\<forall>k b m. (k, ResumeOperations b m) \<notin> set [(10, Initialize 1 2), (20000, Pause 1)])
   \<and> (\<exists>h1 k c h2. [(10, Initialize 1 2), (20000, Pause 1)] = h1 @ (k, c) # h2
        \<and> unat (k::u32) + 17280 \<le> unat (40000::u32))"
proof -
  have n: "\<forall>k b m. (k, ResumeOperations b m) \<notin> set [(10, Initialize 1 2), (20000, Pause 1)]" by simp
  show ?thesis using vg_example_run n vg_unpause_is_delayed [OF vg_example_run n] by blast
qed

text \<open>
  C38. Resuming single operations cancels the delay. Whenever the global pause is in force, the
  administrator can resume exactly the operations paused one by one, which may be none, and this
  resets the ledger the pause began at to zero; from ledger 17280 on, anyone can then lift the
  global pause, a circuit breaker's included, in the very same ledger. The documentation promises
  a full delay that no administrator can shorten.
\<close>

theorem vg_resume_cancels_delay:
  assumes "vg_roles s = Some r" and "vg_state s = Some st" and "all_paused st"
    and "paused_operations st AND NOT OP_ALL = 0" and "authorized e (vg_admin r)"
    and "authorized e anyone" and "17280 \<le> unat (sequence e)"
  shows "\<exists>s1 s2. vg_resume_operations e (vg_admin r) (paused_operations st) s = Ok s1
    \<and> vg_is_globally_paused s1 \<and> vg_unpause e anyone s1 = Ok s2 \<and> \<not> vg_is_globally_paused s2"
  using assms
  by (simp add: vg_resume_operations_def vg_unpause_def vg_is_globally_paused_def
      vg_admin_gate.gate_ok validate_mask_def vg_load_state_def vg_save_state_def require_auth_def
      UNPAUSE_DELAY_LEDGERS_def saturating_sub_word_def Let_def word_less_nat_alt)

theorem vg_resume_cancels_delay_witness:
  "\<exists>s0 s1 s2. vg_trip (vg_env 20000) 2 (vg_example False 0) = Ok s0 \<and> vg_is_tripped s0
     \<and> vg_resume_operations (vg_env 20000) 1 0 s0 = Ok s1
     \<and> vg_unpause (vg_env 20000) 7 s1 = Ok s2 \<and> \<not> vg_is_globally_paused s2"
proof -
  let ?st = "\<lparr>all_paused = True, paused_operations = 0, paused_at = 20000, tripped = True,
    tripped_by = Some 2\<rparr>"
  let ?r = "\<lparr>vg_admin = 1, vg_guardian = 2\<rparr>"
  let ?s0 = "\<lparr>vg_state = Some ?st, vg_roles = Some ?r\<rparr>"
  have "vg_trip (vg_env 20000) 2 (vg_example False 0) = Ok ?s0" "vg_is_tripped ?s0" by code_simp+
  then show ?thesis
    using vg_resume_cancels_delay [of ?s0 ?r ?st "vg_env 20000" 7] by (auto simp: vg_env_def)
qed

text \<open>
  The pause is exact for every operation: a \<open>pause\<close> or a \<open>trip\<close> pauses all operations,
  pausing a mask pauses exactly the operations of the mask besides those paused already, and
  resuming a mask under no global pause leaves exactly the paused operations outside the mask.
\<close>

lemma vg_pause_exact:
  assumes "vg_state s = Some st"
  shows "(vg_pause e a s = Ok s' \<or> vg_trip e a s = Ok s' \<longrightarrow> (\<forall>op. vg_is_paused s' op = Ok True))
   \<and> (vg_pause_operations e a m s = Ok s' \<longrightarrow> (\<forall>op. vg_is_paused s' op =
        Ok (all_paused st \<or> paused_operations st AND operation_bit op \<noteq> 0 \<or> m AND operation_bit op \<noteq> 0)))
   \<and> (vg_resume_operations e a m s = Ok s' \<longrightarrow> (\<forall>op. vg_is_paused s' op =
        Ok (all_paused st \<or> paused_operations st AND operation_bit op \<noteq> 0 \<and> m AND operation_bit op = 0)))"
proof (intro conjI impI allI)
  fix op
  show "vg_is_paused s' op = Ok True" if "vg_pause e a s = Ok s' \<or> vg_trip e a s = Ok s'"
    using that assms by (auto simp: vg_op_defs vg_is_paused_def split: if_splits)
  show "vg_is_paused s' op =
      Ok (all_paused st \<or> paused_operations st AND operation_bit op \<noteq> 0 \<or> m AND operation_bit op \<noteq> 0)"
    if "vg_pause_operations e a m s = Ok s'"
    using vg_pause_operations_state [OF that assms]
    by (auto simp: vg_is_paused_def vg_load_state_def paused_bit bit_simps)
  show "vg_is_paused s' op =
      Ok (all_paused st \<or> paused_operations st AND operation_bit op \<noteq> 0 \<and> m AND operation_bit op = 0)"
    if "vg_resume_operations e a m s = Ok s'"
    using vg_resume_operations_state [OF that assms] op_index_less [of op]
    by (auto simp: vg_is_paused_def vg_load_state_def paused_bit bit_simps)
qed

end
