(* ===== verification/Erc4626.thy ===== *)
theory Erc4626
  imports Token
begin

text \<open>
  The tokenised vault, \<open>contracts/erc4626_vault/src/lib.rs\<close>. The asset token is another
  contract, so its \<open>transfer\<close> and \<open>balance\<close> are arguments of the entry points that call them, and
  its state is passed along; the laws the vault relies on are those of \<open>token_iface\<close>, and the
  token of this repository is an instance of them. \<open>redeem\<close> is written without the \<open>?\<close> on the
  conversion it makes, which does not type-check as it stands; the model returns the conversion's
  error there, as every other conversion of the contract does.
\<close>

section \<open>State\<close>

definition VIRTUAL_OFFSET :: i128 where "VIRTUAL_OFFSET = 1000"
definition BPS_DENOMINATOR :: i128 where "BPS_DENOMINATOR = 10000"

datatype e4_error =
    NotInitialized | AlreadyInitialized | Unauthorized | Paused | ZeroAmount | MathOverflow
  | DivideByZero | InsufficientShares | InsufficientAllowance | AllowanceExpired | InvalidFee

record e4_allowance =
  allowed_shares :: i128
  expires_at :: u32

record vault_config =
  asset :: address
  cfg_admin :: address
  fee_recipient :: address
  performance_fee_bps :: u32
  last_harvest_ledger :: u32
  last_harvest_profit :: i128

datatype verifier_kind = NoVerifier | Custom u32

record e4_vault =
  e4_config :: "vault_config option"
  stored_assets :: "i128 option"
  stored_supply :: "i128 option"
  stored_paused :: "bool option"
  stored_verifier_kind :: "verifier_kind option"
  stored_verifier :: "address option"
  shares_of :: "address \<rightharpoonup> i128"
  allowances_of :: "address \<times> address \<rightharpoonup> e4_allowance"

type_synonym ('r, 't) e4_result = "('r \<times> e4_vault \<times> 't, e4_error) result"

section \<open>Arithmetic\<close>

definition e4_mul_div_floor :: "i128 \<Rightarrow> i128 \<Rightarrow> i128 \<Rightarrow> (i128, e4_error) result" where
  "e4_mul_div_floor a b c =
     (if c = 0 then Err DivideByZero
      else and_then (ok_or (checked_mul a b) MathOverflow) (\<lambda>product. div_i128 product c))"

definition e4_mul_div_ceil :: "env \<Rightarrow> i128 \<Rightarrow> i128 \<Rightarrow> i128 \<Rightarrow> (i128, e4_error) result" where
  "e4_mul_div_ceil e a b c =
     (if c = 0 then Err DivideByZero
      else and_then (ok_or (checked_mul a b) MathOverflow) (\<lambda>product.
           and_then (div_i128 product c) (\<lambda>quo.
             if product smod c = 0 then Ok quo else plain_i128 e (quo + 1))))"

section \<open>Storage\<close>

definition e4_load_config :: "e4_vault \<Rightarrow> (vault_config, e4_error) result" where
  "e4_load_config s = ok_or (e4_config s) NotInitialized"

definition e4_require_admin :: "env \<Rightarrow> address \<Rightarrow> e4_vault \<Rightarrow> (unit, e4_error) result" where
  "e4_require_admin e admin s =
     and_then (e4_load_config s) (\<lambda>cfg.
       if admin \<noteq> cfg_admin cfg then Err Unauthorized else require_auth e admin)"

definition e4_is_paused :: "e4_vault \<Rightarrow> bool" where
  "e4_is_paused s = (case stored_paused s of None \<Rightarrow> False | Some b \<Rightarrow> b)"

definition e4_require_positive :: "i128 \<Rightarrow> (unit, e4_error) result" where
  "e4_require_positive n = (if n \<le> 0 then Err ZeroAmount else Ok ())"

definition e4_ensure_running :: "e4_vault \<Rightarrow> (unit, e4_error) result" where
  "e4_ensure_running s = (if e4_is_paused s then Err Paused else Ok ())"

definition e4_get_shares :: "e4_vault \<Rightarrow> address \<Rightarrow> i128" where
  "e4_get_shares s a = get0 (shares_of s) a"

definition e4_set_shares :: "address \<Rightarrow> i128 \<Rightarrow> e4_vault \<Rightarrow> e4_vault" where
  "e4_set_shares a n s = s\<lparr>shares_of := (shares_of s)(a \<mapsto> n)\<rparr>"

definition e4_get_total_supply :: "e4_vault \<Rightarrow> i128" where
  "e4_get_total_supply s = (case stored_supply s of None \<Rightarrow> 0 | Some n \<Rightarrow> n)"

definition e4_get_total_assets :: "e4_vault \<Rightarrow> i128" where
  "e4_get_total_assets s = (case stored_assets s of None \<Rightarrow> 0 | Some n \<Rightarrow> n)"

section \<open>Conversions\<close>

definition assets_to_shares_floor :: "env \<Rightarrow> e4_vault \<Rightarrow> i128 \<Rightarrow> (i128, e4_error) result" where
  "assets_to_shares_floor e s assets =
     (let supply = e4_get_total_supply s; managed = e4_get_total_assets s
      in if supply = 0 \<and> managed = 0 then Ok assets
         else and_then (plain_i128 e (supply + VIRTUAL_OFFSET)) (\<lambda>b.
              and_then (plain_i128 e (managed + VIRTUAL_OFFSET)) (\<lambda>c.
                e4_mul_div_floor assets b c)))"

definition assets_to_shares_ceil :: "env \<Rightarrow> e4_vault \<Rightarrow> i128 \<Rightarrow> (i128, e4_error) result" where
  "assets_to_shares_ceil e s assets =
     and_then (plain_i128 e (e4_get_total_supply s + VIRTUAL_OFFSET)) (\<lambda>b.
     and_then (plain_i128 e (e4_get_total_assets s + VIRTUAL_OFFSET)) (\<lambda>c.
       e4_mul_div_ceil e assets b c))"

definition shares_to_assets_floor :: "env \<Rightarrow> e4_vault \<Rightarrow> i128 \<Rightarrow> (i128, e4_error) result" where
  "shares_to_assets_floor e s shares =
     and_then (plain_i128 e (e4_get_total_assets s + VIRTUAL_OFFSET)) (\<lambda>b.
     and_then (plain_i128 e (e4_get_total_supply s + VIRTUAL_OFFSET)) (\<lambda>c.
       e4_mul_div_floor shares b c))"

definition shares_to_assets_ceil :: "env \<Rightarrow> e4_vault \<Rightarrow> i128 \<Rightarrow> (i128, e4_error) result" where
  "shares_to_assets_ceil e s shares =
     and_then (plain_i128 e (e4_get_total_assets s + VIRTUAL_OFFSET)) (\<lambda>b.
     and_then (plain_i128 e (e4_get_total_supply s + VIRTUAL_OFFSET)) (\<lambda>c.
       e4_mul_div_ceil e shares b c))"

definition move_assets ::
  "('t, 'x) transfer \<Rightarrow> env \<Rightarrow> address \<Rightarrow> address \<Rightarrow> address \<Rightarrow> i128 \<Rightarrow> 't \<Rightarrow> ('t, e4_error) result" where
  "move_assets transfer e asst from to n t = sub_call (transfer (invoke_env e asst) from to n t)"

section \<open>Accounting\<close>

definition add_total_assets :: "i128 \<Rightarrow> e4_vault \<Rightarrow> (e4_vault, e4_error) result" where
  "add_total_assets delta s =
     and_then (ok_or (checked_add (e4_get_total_assets s) delta) MathOverflow) (\<lambda>n.
       Ok (s\<lparr>stored_assets := Some n\<rparr>))"

definition add_total_supply :: "i128 \<Rightarrow> e4_vault \<Rightarrow> (e4_vault, e4_error) result" where
  "add_total_supply delta s =
     and_then (ok_or (checked_add (e4_get_total_supply s) delta) MathOverflow) (\<lambda>n.
       Ok (s\<lparr>stored_supply := Some n\<rparr>))"

definition credit_shares :: "address \<Rightarrow> i128 \<Rightarrow> e4_vault \<Rightarrow> (e4_vault, e4_error) result" where
  "credit_shares a n s =
     and_then (ok_or (checked_add (e4_get_shares s a) n) MathOverflow) (\<lambda>m.
       Ok (e4_set_shares a m s))"

definition debit_shares :: "env \<Rightarrow> address \<Rightarrow> i128 \<Rightarrow> e4_vault \<Rightarrow> (e4_vault, e4_error) result" where
  "debit_shares e a n s =
     (if e4_get_shares s a < n then Err InsufficientShares
      else and_then (plain_i128 e (e4_get_shares s a - n)) (\<lambda>m. Ok (e4_set_shares a m s)))"

definition load_allowance :: "e4_vault \<Rightarrow> address \<Rightarrow> address \<Rightarrow> e4_allowance option" where
  "load_allowance s owner spender = allowances_of s (owner, spender)"

definition store_allowance :: "address \<Rightarrow> address \<Rightarrow> e4_allowance \<Rightarrow> e4_vault \<Rightarrow> e4_vault" where
  "store_allowance owner spender a s =
     s\<lparr>allowances_of := (allowances_of s)((owner, spender) \<mapsto> a)\<rparr>"

definition remove_allowance :: "address \<Rightarrow> address \<Rightarrow> e4_vault \<Rightarrow> e4_vault" where
  "remove_allowance owner spender s =
     s\<lparr>allowances_of := (allowances_of s)((owner, spender) := None)\<rparr>"

definition authorize_share_spend ::
  "env \<Rightarrow> address \<Rightarrow> address \<Rightarrow> i128 \<Rightarrow> e4_vault \<Rightarrow> (i128, e4_error) result" where
  "authorize_share_spend e caller owner shares s =
     (if caller = owner then and_then (require_auth e caller) (\<lambda>_. Ok 0)
      else and_then (ok_or (load_allowance s owner caller) InsufficientAllowance) (\<lambda>a.
        if expires_at a \<le> sequence e then Err AllowanceExpired
        else if allowed_shares a < shares then Err InsufficientAllowance
        else and_then (require_auth e caller) (\<lambda>_. Ok shares)))"

definition consume_allowance ::
  "env \<Rightarrow> address \<Rightarrow> address \<Rightarrow> i128 \<Rightarrow> e4_vault \<Rightarrow> (e4_vault, e4_error) result" where
  "consume_allowance e caller owner consumed s =
     (if consumed = 0 then Ok s
      else case load_allowance s owner caller of
             None \<Rightarrow> Ok s
           | Some a \<Rightarrow> and_then (plain_i128 e (allowed_shares a - consumed)) (\<lambda>remaining.
               if remaining \<le> 0 then Ok (remove_allowance owner caller s)
               else Ok (store_allowance owner caller (a\<lparr>allowed_shares := remaining\<rparr>) s)))"


section \<open>Views\<close>

definition e4_convert_to_shares :: "env \<Rightarrow> e4_vault \<Rightarrow> i128 \<Rightarrow> (i128, e4_error) result" where
  "e4_convert_to_shares e s assets = assets_to_shares_floor e s assets"

definition e4_convert_to_assets :: "env \<Rightarrow> e4_vault \<Rightarrow> i128 \<Rightarrow> (i128, e4_error) result" where
  "e4_convert_to_assets e s shares = shares_to_assets_floor e s shares"

definition e4_preview_deposit :: "env \<Rightarrow> e4_vault \<Rightarrow> i128 \<Rightarrow> (i128, e4_error) result" where
  "e4_preview_deposit e s assets = assets_to_shares_floor e s assets"

definition e4_preview_mint :: "env \<Rightarrow> e4_vault \<Rightarrow> i128 \<Rightarrow> (i128, e4_error) result" where
  "e4_preview_mint e s shares = assets_to_shares_ceil e s shares"

definition e4_preview_withdraw :: "env \<Rightarrow> e4_vault \<Rightarrow> i128 \<Rightarrow> (i128, e4_error) result" where
  "e4_preview_withdraw e s assets = assets_to_shares_ceil e s assets"

definition e4_preview_redeem :: "env \<Rightarrow> e4_vault \<Rightarrow> i128 \<Rightarrow> (i128, e4_error) result" where
  "e4_preview_redeem e s shares = shares_to_assets_floor e s shares"

definition e4_max_withdraw :: "env \<Rightarrow> e4_vault \<Rightarrow> address \<Rightarrow> (i128, e4_error) result" where
  "e4_max_withdraw e s owner =
     (if e4_is_paused s then Ok 0
      else case shares_to_assets_floor e s (e4_get_shares s owner) of
             Err x \<Rightarrow> Ok 0 | r \<Rightarrow> r)"

definition e4_max_redeem :: "e4_vault \<Rightarrow> address \<Rightarrow> i128" where
  "e4_max_redeem s owner = (if e4_is_paused s then 0 else e4_get_shares s owner)"

definition e4_balance_of :: "e4_vault \<Rightarrow> address \<Rightarrow> i128" where
  "e4_balance_of s a = e4_get_shares s a"

section \<open>Entry points\<close>

definition e4_initialize ::
  "env \<Rightarrow> address \<Rightarrow> address \<Rightarrow> address \<Rightarrow> u32 \<Rightarrow> e4_vault \<Rightarrow> (e4_vault, e4_error) result" where
  "e4_initialize e asst admin recipient fee_bps s =
     (if e4_config s \<noteq> None then Err AlreadyInitialized
      else if 10000 < fee_bps then Err InvalidFee
      else and_then (require_auth e admin) (\<lambda>_.
        Ok (s\<lparr>e4_config := Some \<lparr>asset = asst, cfg_admin = admin, fee_recipient = recipient,
                performance_fee_bps = fee_bps, last_harvest_ledger = sequence e,
                last_harvest_profit = 0\<rparr>,
              stored_assets := Some 0, stored_supply := Some 0, stored_paused := Some False,
              stored_verifier_kind := Some NoVerifier\<rparr>)))"

definition e4_deposit ::
  "('t, 'x) transfer \<Rightarrow> env \<Rightarrow> address \<Rightarrow> i128 \<Rightarrow> address \<Rightarrow> e4_vault \<Rightarrow> 't \<Rightarrow> (i128, 't) e4_result" where
  "e4_deposit transfer e caller assets receiver s t =
     and_then (e4_require_positive assets) (\<lambda>_.
     and_then (e4_ensure_running s) (\<lambda>_.
     and_then (e4_load_config s) (\<lambda>cfg.
     and_then (require_auth e caller) (\<lambda>_.
     and_then (assets_to_shares_floor e s assets) (\<lambda>shares.
       if shares \<le> 0 then Err ZeroAmount
       else
         and_then (move_assets transfer e (asset cfg) caller (self e) assets t) (\<lambda>t.
         and_then (credit_shares receiver shares s) (\<lambda>s.
         and_then (add_total_assets assets s) (\<lambda>s.
         and_then (add_total_supply shares s) (\<lambda>s.
           Ok (shares, s, t))))))))))"

definition e4_mint ::
  "('t, 'x) transfer \<Rightarrow> env \<Rightarrow> address \<Rightarrow> i128 \<Rightarrow> address \<Rightarrow> e4_vault \<Rightarrow> 't \<Rightarrow> (i128, 't) e4_result" where
  "e4_mint transfer e caller shares receiver s t =
     and_then (e4_require_positive shares) (\<lambda>_.
     and_then (e4_ensure_running s) (\<lambda>_.
     and_then (e4_load_config s) (\<lambda>cfg.
     and_then (require_auth e caller) (\<lambda>_.
     and_then (assets_to_shares_ceil e s shares) (\<lambda>assets.
       if assets \<le> 0 then Err ZeroAmount
       else
         and_then (move_assets transfer e (asset cfg) caller (self e) assets t) (\<lambda>t.
         and_then (credit_shares receiver shares s) (\<lambda>s.
         and_then (add_total_assets assets s) (\<lambda>s.
         and_then (add_total_supply shares s) (\<lambda>s.
           Ok (assets, s, t))))))))))"

text \<open>
  The second half of every exit: the assets leave, and both totals drop. The totals are updated
  with \<open>-assets\<close> and \<open>-shares\<close>, plain negations.
\<close>

definition e4_pay_out ::
  "('t, 'x) transfer \<Rightarrow> env \<Rightarrow> vault_config \<Rightarrow> address \<Rightarrow> i128 \<Rightarrow> i128 \<Rightarrow> e4_vault \<Rightarrow> 't
    \<Rightarrow> (e4_vault \<times> 't, e4_error) result" where
  "e4_pay_out transfer e cfg receiver assets shares s t =
     and_then (move_assets transfer e (asset cfg) (self e) receiver assets t) (\<lambda>t.
     and_then (plain_i128 e (- assets)) (\<lambda>da.
     and_then (add_total_assets da s) (\<lambda>s.
     and_then (plain_i128 e (- shares)) (\<lambda>ds.
     and_then (add_total_supply ds s) (\<lambda>s.
       Ok (s, t))))))"

definition e4_withdraw ::
  "('t, 'x) transfer \<Rightarrow> env \<Rightarrow> address \<Rightarrow> i128 \<Rightarrow> address \<Rightarrow> address \<Rightarrow> e4_vault \<Rightarrow> 't
    \<Rightarrow> (i128, 't) e4_result" where
  "e4_withdraw transfer e caller assets receiver owner s t =
     and_then (e4_require_positive assets) (\<lambda>_.
     and_then (e4_ensure_running s) (\<lambda>_.
     and_then (e4_load_config s) (\<lambda>cfg.
     and_then (assets_to_shares_ceil e s assets) (\<lambda>shares.
       if shares \<le> 0 then Err ZeroAmount
       else
         and_then (authorize_share_spend e caller owner shares s) (\<lambda>consumed.
         and_then (debit_shares e owner shares s) (\<lambda>s.
         and_then (consume_allowance e caller owner consumed s) (\<lambda>s.
         and_then (e4_pay_out transfer e cfg receiver assets shares s t) (\<lambda>(s, t).
           Ok (shares, s, t)))))))))"

definition e4_redeem ::
  "('t, 'x) transfer \<Rightarrow> env \<Rightarrow> address \<Rightarrow> i128 \<Rightarrow> address \<Rightarrow> address \<Rightarrow> e4_vault \<Rightarrow> 't
    \<Rightarrow> (i128, 't) e4_result" where
  "e4_redeem transfer e caller shares receiver owner s t =
     and_then (e4_require_positive shares) (\<lambda>_.
     and_then (e4_ensure_running s) (\<lambda>_.
     and_then (e4_load_config s) (\<lambda>cfg.
     and_then (shares_to_assets_floor e s shares) (\<lambda>assets.
     and_then (authorize_share_spend e caller owner shares s) (\<lambda>consumed.
     and_then (debit_shares e owner shares s) (\<lambda>s.
     and_then (consume_allowance e caller owner consumed s) (\<lambda>s.
     and_then (e4_pay_out transfer e cfg receiver assets shares s t) (\<lambda>(s, t).
       Ok (assets, s, t)))))))))"

definition e4_approve ::
  "env \<Rightarrow> address \<Rightarrow> address \<Rightarrow> i128 \<Rightarrow> u32 \<Rightarrow> e4_vault \<Rightarrow> (e4_vault, e4_error) result" where
  "e4_approve e caller spender shares valid_until s =
     and_then (e4_require_positive shares) (\<lambda>_.
     and_then (require_auth e caller) (\<lambda>_.
       if valid_until \<le> sequence e then Err AllowanceExpired
       else Ok (store_allowance caller spender
              \<lparr>allowed_shares = shares, expires_at = valid_until\<rparr> s)))"

definition e4_revoke ::
  "env \<Rightarrow> address \<Rightarrow> address \<Rightarrow> e4_vault \<Rightarrow> (e4_vault, e4_error) result" where
  "e4_revoke e caller spender s =
     and_then (require_auth e caller) (\<lambda>_. Ok (remove_allowance caller spender s))"

definition e4_permit_withdraw ::
  "('t, 'x) transfer \<Rightarrow> env \<Rightarrow> address \<Rightarrow> address \<Rightarrow> i128 \<Rightarrow> address \<Rightarrow> e4_vault \<Rightarrow> 't
    \<Rightarrow> (i128, 't) e4_result" where
  "e4_permit_withdraw transfer e spender owner assets receiver s t =
     and_then (e4_require_positive assets) (\<lambda>_.
     and_then (e4_ensure_running s) (\<lambda>_.
     and_then (require_auth e spender) (\<lambda>_.
     and_then (e4_load_config s) (\<lambda>cfg.
     and_then (ok_or (load_allowance s owner spender) InsufficientAllowance) (\<lambda>a.
       if expires_at a \<le> sequence e then Err AllowanceExpired
       else and_then (assets_to_shares_ceil e s assets) (\<lambda>shares.
         if shares \<le> 0 then Err ZeroAmount
         else if allowed_shares a < shares then Err InsufficientAllowance
         else and_then (plain_i128 e (allowed_shares a - shares)) (\<lambda>remaining.
           let s = (if remaining = 0 then remove_allowance owner spender s
                    else store_allowance owner spender (a\<lparr>allowed_shares := remaining\<rparr>) s)
           in and_then (debit_shares e owner shares s) (\<lambda>s.
              and_then (e4_pay_out transfer e cfg receiver assets shares s t) (\<lambda>(s, t).
                Ok (shares, s, t))))))))))"

section \<open>Administration\<close>

definition e4_set_paused ::
  "env \<Rightarrow> address \<Rightarrow> bool \<Rightarrow> e4_vault \<Rightarrow> (e4_vault, e4_error) result" where
  "e4_set_paused e admin paused s =
     and_then (e4_require_admin e admin s) (\<lambda>_. Ok (s\<lparr>stored_paused := Some paused\<rparr>))"

definition e4_set_admin ::
  "env \<Rightarrow> address \<Rightarrow> address \<Rightarrow> e4_vault \<Rightarrow> (e4_vault, e4_error) result" where
  "e4_set_admin e admin new_admin s =
     and_then (e4_require_admin e admin s) (\<lambda>_.
     and_then (e4_load_config s) (\<lambda>cfg.
       Ok (s\<lparr>e4_config := Some (cfg\<lparr>cfg_admin := new_admin\<rparr>)\<rparr>)))"

definition e4_set_fee_recipient ::
  "env \<Rightarrow> address \<Rightarrow> address \<Rightarrow> e4_vault \<Rightarrow> (e4_vault, e4_error) result" where
  "e4_set_fee_recipient e admin recipient s =
     and_then (e4_require_admin e admin s) (\<lambda>_.
     and_then (e4_load_config s) (\<lambda>cfg.
       Ok (s\<lparr>e4_config := Some (cfg\<lparr>fee_recipient := recipient\<rparr>)\<rparr>)))"

definition e4_set_verifier ::
  "env \<Rightarrow> address \<Rightarrow> verifier_kind \<Rightarrow> address option \<Rightarrow> e4_vault \<Rightarrow> (e4_vault, e4_error) result" where
  "e4_set_verifier e admin kind verifier s =
     and_then (e4_require_admin e admin s) (\<lambda>_.
       Ok (s\<lparr>stored_verifier_kind := Some kind, stored_verifier := verifier\<rparr>))"

definition e4_harvest ::
  "('t, 'x) transfer \<Rightarrow> 't balance \<Rightarrow> env \<Rightarrow> address \<Rightarrow> e4_vault \<Rightarrow> 't \<Rightarrow> (i128, 't) e4_result" where
  "e4_harvest transfer balance e admin s t =
     and_then (e4_require_admin e admin s) (\<lambda>_.
     and_then (e4_load_config s) (\<lambda>cfg.
       let actual = balance t (self e)
       in and_then (plain_i128 e (actual - e4_get_total_assets s)) (\<lambda>profit.
          and_then
            (if 0 < profit \<and> 0 < performance_fee_bps cfg
             then and_then (e4_mul_div_floor profit (uint (performance_fee_bps cfg)) BPS_DENOMINATOR)
               (\<lambda>fee. if 0 < fee
                      then and_then (move_assets transfer e (asset cfg) (self e) (fee_recipient cfg) fee t)
                             (\<lambda>t. Ok (fee, t))
                      else Ok (fee, t))
             else Ok (0, t)) (\<lambda>(fee, t).
          and_then (plain_i128 e (actual - fee)) (\<lambda>new_total.
            Ok (profit,
                s\<lparr>stored_assets := Some new_total,
                  e4_config := Some (cfg\<lparr>last_harvest_ledger := sequence e,
                                         last_harvest_profit := profit\<rparr>)\<rparr>,
                t))))))"

section \<open>Calls\<close>

datatype e4_call =
    Initialize address address address u32
  | Deposit address i128 address
  | Mint address i128 address
  | Withdraw address i128 address address
  | Redeem address i128 address address
  | Approve address address i128 u32
  | Revoke address address
  | PermitWithdraw address address i128 address
  | SetPaused address bool
  | SetAdmin address address
  | SetFeeRecipient address address
  | SetVerifier address verifier_kind "address option"
  | Harvest address

text \<open>Drop the value a call returns; run a call that leaves the asset token alone.\<close>

definition e4_drop :: "('r, 't) e4_result \<Rightarrow> (e4_vault \<times> 't, e4_error) result" where
  "e4_drop m = and_then m (\<lambda>(r, s, t). Ok (s, t))"

definition e4_keep :: "'t \<Rightarrow> (e4_vault, e4_error) result \<Rightarrow> (e4_vault \<times> 't, e4_error) result" where
  "e4_keep t m = and_then m (\<lambda>s. Ok (s, t))"

fun e4_exec ::
  "('t, 'x) transfer \<Rightarrow> 't balance \<Rightarrow> env \<Rightarrow> e4_call \<Rightarrow> e4_vault \<Rightarrow> 't
    \<Rightarrow> (e4_vault \<times> 't, e4_error) result" where
  "e4_exec tr ba e (Initialize z a f b) s t = e4_keep t (e4_initialize e z a f b s)"
| "e4_exec tr ba e (Deposit c n r) s t = e4_drop (e4_deposit tr e c n r s t)"
| "e4_exec tr ba e (Mint c x r) s t = e4_drop (e4_mint tr e c x r s t)"
| "e4_exec tr ba e (Withdraw c n r w) s t = e4_drop (e4_withdraw tr e c n r w s t)"
| "e4_exec tr ba e (Redeem c x r w) s t = e4_drop (e4_redeem tr e c x r w s t)"
| "e4_exec tr ba e (Approve c p x u) s t = e4_keep t (e4_approve e c p x u s)"
| "e4_exec tr ba e (Revoke c p) s t = e4_keep t (e4_revoke e c p s)"
| "e4_exec tr ba e (PermitWithdraw p w n r) s t = e4_drop (e4_permit_withdraw tr e p w n r s t)"
| "e4_exec tr ba e (SetPaused a b) s t = e4_keep t (e4_set_paused e a b s)"
| "e4_exec tr ba e (SetAdmin a b) s t = e4_keep t (e4_set_admin e a b s)"
| "e4_exec tr ba e (SetFeeRecipient a b) s t = e4_keep t (e4_set_fee_recipient e a b s)"
| "e4_exec tr ba e (SetVerifier a k v) s t = e4_keep t (e4_set_verifier e a k v s)"
| "e4_exec tr ba e (Harvest a) s t = e4_drop (e4_harvest tr ba e a s t)"

definition fresh_e4_vault :: e4_vault where
  "fresh_e4_vault = \<lparr>e4_config = None, stored_assets = None, stored_supply = None,
     stored_paused = None, stored_verifier_kind = None, stored_verifier = None,
     shares_of = Map.empty, allowances_of = Map.empty\<rparr>"

text \<open>
  Histories of the vault at address \<open>v\<close> and its asset token: accepted calls of the vault, in
  transactions that do not carry the vault's own signature, in a build that checks its arithmetic,
  and in between anything that others do with the token, which can only add to the vault's
  balance.
\<close>

inductive e4_run ::
  "('t, 'x) transfer \<Rightarrow> 't balance \<Rightarrow> ('t \<Rightarrow> bool) \<Rightarrow> address \<Rightarrow> e4_call list \<Rightarrow> e4_vault \<Rightarrow> 't \<Rightarrow> bool"
  for tr ba sound v where
  e4_start: "sound t \<Longrightarrow> e4_run tr ba sound v [] fresh_e4_vault t"
| e4_call: "e4_run tr ba sound v cs s t \<Longrightarrow> self e = v \<Longrightarrow> overflow_checks e \<Longrightarrow> \<not> authorized e v \<Longrightarrow>
    e4_exec tr ba e c s t = Ok (s', t') \<Longrightarrow> e4_run tr ba sound v (cs @ [c]) s' t'"
| e4_others: "e4_run tr ba sound v cs s t \<Longrightarrow> sound t' \<Longrightarrow> ba t v \<le> ba t' v \<Longrightarrow>
    e4_run tr ba sound v cs s t'"

interpretation e4_gate: admin_gate e4_require_admin "\<lambda>s. map_option cfg_admin (e4_config s)"
  by unfold_locales (auto simp: e4_require_admin_def e4_load_config_def split: if_splits)

end
