(* ===== verification/Erc4626_Accounts.thy ===== *)
theory Erc4626_Accounts
  imports Erc4626
begin

text \<open>
  The accounting of the tokenised vault: what rounding, deposits and exits do to the totals and
  to the shares, the invariant that ties the shares, the recorded assets and the vault's balance
  of the asset token together, and the properties of the vault that follow.
\<close>

section \<open>Rounding\<close>

lemma uint_le_of_unat:
  assumes "unat w \<le> n"
  shows "uint w \<le> int n"
proof -
  have "int (unat w) \<le> int n" using assms by (simp only: of_nat_le_iff)
  then show ?thesis by simp
qed

lemma mul_div_floor_ok:
  assumes "e4_mul_div_floor a b c = Ok q" and "0 \<le> a" and "0 \<le> b" and "0 < c"
  shows "q = a * b div c \<and> 0 \<le> q \<and> q * c \<le> a * b \<and> in_i128 (a * b)"
proof -
  have p: "0 \<le> a * b" using assms(2,3) by simp
  with assms have q: "q = a * b div c" "in_i128 (a * b)"
    by (auto simp: e4_mul_div_floor_def div_i128_pos)
  have "a * b div c * c \<le> a * b"
    using pos_mod_sign [OF assms(4), of "a * b"] div_mult_mod_eq [of "a * b" c] by linarith
  then show ?thesis using q p assms(4) by (simp add: pos_imp_zdiv_nonneg_iff)
qed

lemma mul_div_ceil_ok:
  assumes "e4_mul_div_ceil e a b c = Ok q" and "0 \<le> a" and "0 \<le> b" and "0 < c"
  shows "a * b \<le> q * c \<and> q * c < a * b + c \<and> 0 \<le> q"
proof -
  define p where "p = a * b"
  have p0: "0 \<le> p" using assms(2,3) by (simp add: p_def)
  have pr: "in_i128 p" using assms(1,4) by (auto simp: e4_mul_div_ceil_def p_def)
  have m: "p mod c + p div c * c = p" "0 \<le> p mod c" "p mod c < c" "0 \<le> p div c"
    using assms(4) p0 by (auto simp: pos_imp_zdiv_nonneg_iff)
  show ?thesis
  proof (cases "p mod c = 0")
    case True
    then have "q = p div c"
      using assms(1,4) p0 pr by (auto simp: e4_mul_div_ceil_def p_def div_i128_pos smod_nonneg)
    then show ?thesis using m True assms(4) unfolding p_def by simp
  next
    case False
    then have "1 < c" using assms(4) by (cases "c = 1") auto
    then have "p div c < p \<or> p = 0" using int_div_less_self [of p c] p0 by force
    then have "in_i128 (p div c + 1)" using pr m(4) False p0
      by (auto simp: in_i128_def i128_min_eq)
    then have "q = p div c + 1"
      using assms(1,4) p0 pr False
      by (auto simp: e4_mul_div_ceil_def p_def div_i128_pos smod_nonneg plain_i128_ok)
    then have "q * c = p div c * c + c" and "0 \<le> q" using m(4) by (simp_all add: distrib_right)
    moreover have "0 < p mod c" using m(2) False by simp
    ultimately have "p \<le> q * c" "q * c < p + c" "0 \<le> q" using m(1,3) by linarith+
    then show ?thesis by (simp add: p_def)
  qed
qed

text \<open>Abbreviations for the two totals, and for what a successful call knows of them.\<close>

abbreviation S :: "e4_vault \<Rightarrow> i128" where "S s \<equiv> e4_get_total_supply s"
abbreviation A :: "e4_vault \<Rightarrow> i128" where "A s \<equiv> e4_get_total_assets s"

definition totals_ok :: "e4_vault \<Rightarrow> bool" where
  "totals_ok s \<longleftrightarrow> 0 \<le> S s \<and> - 1000 < A s"

lemma assets_to_shares_floor_ok:
  assumes "assets_to_shares_floor e s n = Ok x" and "overflow_checks e" and "totals_ok s" and "0 \<le> n"
  shows "0 \<le> x \<and> x * (A s + 1000) \<le> n * (S s + 1000)"
  using assms mul_div_floor_ok [of n "S s + 1000" "A s + 1000" x]
  by (auto simp: assets_to_shares_floor_def Let_def VIRTUAL_OFFSET_def plain_i128_checked
      totals_ok_def split: if_splits)

lemma assets_to_shares_ceil_ok:
  assumes "assets_to_shares_ceil e s n = Ok x" and "overflow_checks e" and "totals_ok s" and "0 \<le> n"
  shows "0 \<le> x \<and> n * (S s + 1000) \<le> x * (A s + 1000)"
  using assms mul_div_ceil_ok [of e n "S s + 1000" "A s + 1000" x]
  by (auto simp: assets_to_shares_ceil_def VIRTUAL_OFFSET_def plain_i128_checked totals_ok_def)

lemma shares_to_assets_floor_ok:
  assumes "shares_to_assets_floor e s x = Ok n" and "overflow_checks e" and "totals_ok s" and "0 \<le> x"
  shows "0 \<le> n \<and> n * (S s + 1000) \<le> x * (A s + 1000)"
  using assms mul_div_floor_ok [of x "A s + 1000" "S s + 1000" n]
  by (auto simp: shares_to_assets_floor_def VIRTUAL_OFFSET_def plain_i128_checked totals_ok_def)

lemma assets_to_shares_ceil_less:
  assumes "assets_to_shares_ceil e s n = Ok x" and "overflow_checks e" and "totals_ok s" and "0 \<le> n"
  shows "x * (A s + 1000) < n * (S s + 1000) + (A s + 1000)"
  using assms mul_div_ceil_ok [of e n "S s + 1000" "A s + 1000" x]
  by (auto simp: assets_to_shares_ceil_def VIRTUAL_OFFSET_def plain_i128_checked totals_ok_def)

lemma shares_to_assets_floor_eq:
  assumes "shares_to_assets_floor e s x = Ok n" and "overflow_checks e" and "totals_ok s" and "0 \<le> x"
  shows "n = x * (A s + 1000) div (S s + 1000)"
  using assms mul_div_floor_ok [of x "A s + 1000" "S s + 1000" n]
  by (auto simp: shares_to_assets_floor_def VIRTUAL_OFFSET_def plain_i128_checked totals_ok_def)

section \<open>What a call does to the accounts\<close>

text \<open>\<open>e4_delta a x n s s'\<close>: the shares of \<open>a\<close> and the supply change by \<open>x\<close>, the assets by \<open>n\<close>.\<close>

definition e4_delta :: "address \<Rightarrow> i128 \<Rightarrow> i128 \<Rightarrow> e4_vault \<Rightarrow> e4_vault \<Rightarrow> bool" where
  "e4_delta a x n s s' \<longleftrightarrow>
     shares_of s' = (shares_of s)(a \<mapsto> e4_get_shares s a + x) \<and> S s' = S s + x \<and> A s' = A s + n
     \<and> in_i128 (S s') \<and> e4_config s' = e4_config s \<and> e4_config s \<noteq> None"

lemma credit_shares_ok:
  "credit_shares a x s = Ok s' \<longleftrightarrow>
     in_i128 (e4_get_shares s a + x) \<and> s' = s\<lparr>shares_of := (shares_of s)(a \<mapsto> e4_get_shares s a + x)\<rparr>"
  by (auto simp: credit_shares_def e4_set_shares_def)

lemma add_totals_ok:
  "add_total_assets n s = Ok s' \<longleftrightarrow> in_i128 (A s + n) \<and> s' = s\<lparr>stored_assets := Some (A s + n)\<rparr>"
  "add_total_supply x s = Ok s' \<longleftrightarrow> in_i128 (S s + x) \<and> s' = s\<lparr>stored_supply := Some (S s + x)\<rparr>"
  by (auto simp: add_total_assets_def add_total_supply_def)

lemma debit_shares_ok:
  "overflow_checks e \<Longrightarrow> debit_shares e a x s = Ok s' \<longleftrightarrow>
     x \<le> e4_get_shares s a \<and> in_i128 (e4_get_shares s a - x)
     \<and> s' = s\<lparr>shares_of := (shares_of s)(a \<mapsto> e4_get_shares s a - x)\<rparr>"
  by (auto simp: debit_shares_def e4_set_shares_def plain_i128_checked)

lemma totals_update [simp]:
  "S (s\<lparr>shares_of := m\<rparr>) = S s" "A (s\<lparr>shares_of := m\<rparr>) = A s"
  "S (s\<lparr>allowances_of := w\<rparr>) = S s" "A (s\<lparr>allowances_of := w\<rparr>) = A s"
  "S (s\<lparr>stored_assets := k\<rparr>) = S s" "A (s\<lparr>stored_supply := k\<rparr>) = A s"
  "A (s\<lparr>stored_assets := Some n\<rparr>) = n" "S (s\<lparr>stored_supply := Some n\<rparr>) = n"
  "S (s\<lparr>e4_config := c\<rparr>) = S s" "A (s\<lparr>e4_config := c\<rparr>) = A s"
  "S (s\<lparr>stored_paused := b\<rparr>) = S s" "A (s\<lparr>stored_paused := b\<rparr>) = A s"
  "S (s\<lparr>stored_verifier_kind := vk\<rparr>) = S s" "A (s\<lparr>stored_verifier_kind := vk\<rparr>) = A s"
  "S (s\<lparr>stored_verifier := vf\<rparr>) = S s" "A (s\<lparr>stored_verifier := vf\<rparr>) = A s"
  by (simp_all add: e4_get_total_supply_def e4_get_total_assets_def)

lemma e4_get_shares_update [simp]:
  "e4_get_shares (s\<lparr>shares_of := m\<rparr>) a = get0 m a"
  "e4_get_shares (s\<lparr>allowances_of := w\<rparr>) a = e4_get_shares s a"
  "e4_get_shares (s\<lparr>stored_assets := k\<rparr>) a = e4_get_shares s a"
  "e4_get_shares (s\<lparr>stored_supply := k\<rparr>) a = e4_get_shares s a"
  by (simp_all add: e4_get_shares_def)

lemma authorize_share_spend_ok:
  "authorize_share_spend e caller owner x s = Ok c \<longleftrightarrow>
     authorized e caller \<and>
     (if caller = owner then c = 0
      else c = x \<and> (\<exists>a. load_allowance s owner caller = Some a \<and> sequence e < expires_at a
             \<and> x \<le> allowed_shares a))"
  by (cases "load_allowance s owner caller")
    (auto simp: authorize_share_spend_def not_le split: if_splits)

lemma consume_allowance_frame:
  "consume_allowance e caller owner c s = Ok s' \<Longrightarrow> \<exists>w. s' = s\<lparr>allowances_of := w\<rparr>"
  by (auto simp: consume_allowance_def remove_allowance_def store_allowance_def
      split: if_splits option.splits intro: exI [of _ "allowances_of s"])

lemma pay_out_ok:
  assumes "overflow_checks e"
  shows "e4_pay_out transfer e cfg receiver n x s t = Ok (s', t') \<longleftrightarrow>
     transfer (invoke_env e (asset cfg)) (self e) receiver n t = Ok t' \<and> in_i128 (- n) \<and> in_i128 (- x)
     \<and> in_i128 (A s - n) \<and> in_i128 (S s - x)
     \<and> s' = s\<lparr>stored_assets := Some (A s - n), stored_supply := Some (S s - x)\<rparr>"
  using assms by (auto simp: e4_pay_out_def move_assets_def add_totals_ok plain_i128_checked)




text \<open>Both ways in end alike, and so do the three ways out.\<close>

lemma credit_all_ok:
  assumes "and_then (credit_shares receiver x s) (\<lambda>s. and_then (add_total_assets n s) (\<lambda>s.
      and_then (add_total_supply x s) (\<lambda>s. Ok (r, s, t')))) = Ok (r', s', t'')"
    and "e4_config s = Some cfg"
  shows "e4_delta receiver x n s s' \<and> r' = r \<and> t'' = t'"
  using assms unfolding and_then_eq_Ok credit_shares_ok add_totals_ok e4_delta_def by auto

lemma e4_deposit_ok:
  assumes "e4_deposit transfer e caller n receiver s t = Ok (x, s', t')" and "overflow_checks e"
    and "totals_ok s"
  obtains cfg where "e4_config s = Some cfg" "authorized e caller" "0 < n" "0 < x"
    "x * (A s + 1000) \<le> n * (S s + 1000)" "e4_delta receiver x n s s'"
    "transfer (invoke_env e (asset cfg)) caller (self e) n t = Ok t'"
    "assets_to_shares_floor e s n = Ok x"
proof -
  from assms(1) obtain cfg y t1 where c: "e4_config s = Some cfg" "authorized e caller" "0 < n"
    "assets_to_shares_floor e s n = Ok y" "0 < y"
    "transfer (invoke_env e (asset cfg)) caller (self e) n t = Ok t1"
    and k: "and_then (credit_shares receiver y s) (\<lambda>s. and_then (add_total_assets n s) (\<lambda>s.
      and_then (add_total_supply y s) (\<lambda>s. Ok (y, s, t1)))) = Ok (x, s', t')"
    unfolding e4_deposit_def e4_require_positive_def e4_load_config_def move_assets_def
    by (auto simp: ok_iff not_le)
  have "x = y" "t' = t1" "e4_delta receiver x n s s'" using credit_all_ok [OF k c(1)] by auto
  moreover have "x * (A s + 1000) \<le> n * (S s + 1000)"
    using assets_to_shares_floor_ok [OF c(4) assms(2,3)] c(3) \<open>x = y\<close> by simp
  ultimately show thesis using that [of cfg] c by simp
qed

lemma e4_mint_ok:
  assumes "e4_mint transfer e caller x receiver s t = Ok (n, s', t')"
  obtains cfg where "e4_config s = Some cfg" "authorized e caller" "0 < n" "0 < x"
    "e4_delta receiver x n s s'"
    "transfer (invoke_env e (asset cfg)) caller (self e) n t = Ok t'"
    "assets_to_shares_ceil e s x = Ok n"
proof -
  from assms(1) obtain cfg y t1 where c: "e4_config s = Some cfg" "authorized e caller" "0 < x"
    "assets_to_shares_ceil e s x = Ok y" "0 < y"
    "transfer (invoke_env e (asset cfg)) caller (self e) y t = Ok t1"
    and k: "and_then (credit_shares receiver x s) (\<lambda>s. and_then (add_total_assets y s) (\<lambda>s.
      and_then (add_total_supply x s) (\<lambda>s. Ok (y, s, t1)))) = Ok (n, s', t')"
    unfolding e4_mint_def e4_require_positive_def e4_load_config_def move_assets_def
    by (auto simp: ok_iff not_le)
  have "n = y" "t' = t1" "e4_delta receiver x y s s'" using credit_all_ok [OF k c(1)] by auto
  then show thesis using that [of cfg] c by simp
qed

text \<open>
  \<open>e4_exit\<close>: the caller takes \<open>x\<close> shares of the owner out for \<open>n\<close> assets, rounded against the
  owner; unless the caller is the owner, an unexpired allowance covers the shares and shrinks.
\<close>

definition spends_allowance :: "env \<Rightarrow> address \<Rightarrow> address \<Rightarrow> i128 \<Rightarrow> e4_vault \<Rightarrow> e4_vault \<Rightarrow> bool" where
  "spends_allowance e owner spender x s s' \<longleftrightarrow>
     (\<exists>a. load_allowance s owner spender = Some a \<and> sequence e < expires_at a \<and> x \<le> allowed_shares a
        \<and> load_allowance s' owner spender =
            (if x = allowed_shares a then None
             else Some (a\<lparr>allowed_shares := allowed_shares a - x\<rparr>)))"

definition e4_exit ::
  "('t, 'x) transfer \<Rightarrow> env \<Rightarrow> address \<Rightarrow> address \<Rightarrow> address \<Rightarrow> i128 \<Rightarrow> i128
    \<Rightarrow> e4_vault \<Rightarrow> 't \<Rightarrow> e4_vault \<Rightarrow> 't \<Rightarrow> bool" where
  "e4_exit transfer e caller owner receiver x n s t s' t' \<longleftrightarrow>
     authorized e caller \<and> e4_delta owner (- x) (- n) s s' \<and> 0 \<le> n \<and> 0 < x
     \<and> x \<le> e4_get_shares s owner \<and> n * (S s + 1000) \<le> x * (A s + 1000)
     \<and> (\<exists>cfg. e4_config s = Some cfg \<and> transfer (invoke_env e (asset cfg)) (self e) receiver n t = Ok t')"

lemma consume_allowance_ok:
  assumes "consume_allowance e caller owner x s = Ok s'" and "overflow_checks e" and "0 < x"
    and "load_allowance s owner caller = Some a" and "x \<le> allowed_shares a"
  shows "allowances_of s' (owner, caller) =
    (if x = allowed_shares a then None else Some (a\<lparr>allowed_shares := allowed_shares a - x\<rparr>))"
  using assms
  by (auto simp: consume_allowance_def plain_i128_checked remove_allowance_def store_allowance_def
      split: if_splits)

lemma pay_out_delta:
  assumes "e4_pay_out transfer e cfg receiver n x s2 t = Ok (s', t')" and "overflow_checks e"
    and "e4_config s = Some cfg"
    and "s2 = s\<lparr>shares_of := (shares_of s)(owner \<mapsto> e4_get_shares s owner - x), allowances_of := w\<rparr>"
  shows "e4_delta owner (- x) (- n) s s' \<and> allowances_of s' = w
    \<and> transfer (invoke_env e (asset cfg)) (self e) receiver n t = Ok t'"
  using assms(1,3) unfolding pay_out_ok [OF assms(2)] assms(4) by (simp add: e4_delta_def)

lemma burn_ok:
  assumes "and_then (authorize_share_spend e caller owner x s) (\<lambda>consumed.
       and_then (debit_shares e owner x s) (\<lambda>s.
       and_then (consume_allowance e caller owner consumed s) (\<lambda>s.
       and_then (e4_pay_out transfer e cfg receiver n x s t) (\<lambda>(s, t).
         Ok (r, s, t))))) = Ok (r', s', t')"
    and "overflow_checks e" and "e4_config s = Some cfg" and "0 < x"
  shows "r' = r \<and> authorized e caller \<and> e4_delta owner (- x) (- n) s s' \<and> x \<le> e4_get_shares s owner
    \<and> transfer (invoke_env e (asset cfg)) (self e) receiver n t = Ok t'
    \<and> (caller \<noteq> owner \<longrightarrow> spends_allowance e owner caller x s s')"
proof -
  let ?s1 = "s\<lparr>shares_of := (shares_of s)(owner \<mapsto> e4_get_shares s owner - x)\<rparr>"
  from assms(1) obtain c s2 where
    c: "authorize_share_spend e caller owner x s = Ok c" "x \<le> e4_get_shares s owner"
      "consume_allowance e caller owner c ?s1 = Ok s2"
      "e4_pay_out transfer e cfg receiver n x s2 t = Ok (s', t')" "r' = r"
    by (auto simp: debit_shares_ok [OF assms(2)])
  obtain w where w: "s2 = ?s1\<lparr>allowances_of := w\<rparr>" using consume_allowance_frame [OF c(3)] by blast
  note p = pay_out_delta [OF c(4) assms(2,3) w]
  have "spends_allowance e owner caller x s s'" if "caller \<noteq> owner"
  proof -
    from c(1) that obtain a where a: "load_allowance s owner caller = Some a" "sequence e < expires_at a"
      "x \<le> allowed_shares a" "c = x" by (auto simp: authorize_share_spend_ok)
    have "load_allowance ?s1 owner caller = Some a" using a(1) by (simp add: load_allowance_def)
    from consume_allowance_ok [OF c(3) [unfolded a(4)] assms(2,4) this a(3)] w p a
    show ?thesis by (simp add: spends_allowance_def load_allowance_def)
  qed
  then show ?thesis using c p by (auto simp: authorize_share_spend_ok)
qed


lemma e4_withdraw_ok:
  assumes "e4_withdraw transfer e caller n receiver owner s t = Ok (x, s', t')"
    and "overflow_checks e" and "totals_ok s"
  shows "e4_exit transfer e caller owner receiver x n s t s' t'
    \<and> (caller \<noteq> owner \<longrightarrow> spends_allowance e owner caller x s s') \<and> assets_to_shares_ceil e s n = Ok x"
proof -
  from assms(1) obtain cfg y where c: "e4_config s = Some cfg" "0 < n"
    "assets_to_shares_ceil e s n = Ok y" "0 < y"
    and b: "and_then (authorize_share_spend e caller owner y s) (\<lambda>consumed.
       and_then (debit_shares e owner y s) (\<lambda>s.
       and_then (consume_allowance e caller owner consumed s) (\<lambda>s.
       and_then (e4_pay_out transfer e cfg receiver n y s t) (\<lambda>(s, t).
         Ok (y, s, t))))) = Ok (x, s', t')"
    unfolding e4_withdraw_def e4_require_positive_def e4_load_config_def
    by (auto simp: ok_iff not_le)
  show ?thesis
    using burn_ok [OF b assms(2) c(1,4)] assets_to_shares_ceil_ok [OF c(3) assms(2,3)] c
    by (auto simp: e4_exit_def)
qed

lemma e4_redeem_ok:
  assumes "e4_redeem transfer e caller x receiver owner s t = Ok (n, s', t')"
    and "overflow_checks e" and "totals_ok s"
  shows "e4_exit transfer e caller owner receiver x n s t s' t'
    \<and> (caller \<noteq> owner \<longrightarrow> spends_allowance e owner caller x s s') \<and> shares_to_assets_floor e s x = Ok n"
proof -
  from assms(1) obtain cfg m where c: "e4_config s = Some cfg" "0 < x"
    "shares_to_assets_floor e s x = Ok m"
    and b: "and_then (authorize_share_spend e caller owner x s) (\<lambda>consumed.
       and_then (debit_shares e owner x s) (\<lambda>s.
       and_then (consume_allowance e caller owner consumed s) (\<lambda>s.
       and_then (e4_pay_out transfer e cfg receiver m x s t) (\<lambda>(s, t).
         Ok (m, s, t))))) = Ok (n, s', t')"
    unfolding e4_redeem_def e4_require_positive_def e4_load_config_def
    by (auto simp: ok_iff not_le)
  show ?thesis
    using burn_ok [OF b assms(2) c(1,2)] shares_to_assets_floor_ok [OF c(3) assms(2,3)] c
    by (auto simp: e4_exit_def)
qed

lemma e4_permit_withdraw_ok:
  assumes "e4_permit_withdraw transfer e spender owner n receiver s t = Ok (x, s', t')"
    and "overflow_checks e" and "totals_ok s"
  shows "e4_exit transfer e spender owner receiver x n s t s' t'
    \<and> spends_allowance e owner spender x s s' \<and> assets_to_shares_ceil e s n = Ok x"
proof -
  let ?al = "\<lambda>a. if allowed_shares a - x = 0 then remove_allowance owner spender s
    else store_allowance owner spender (a\<lparr>allowed_shares := allowed_shares a - x\<rparr>) s"
  let ?sh = "(shares_of s)(owner \<mapsto> e4_get_shares s owner - x)"
  from assms(1) obtain cfg a s2 where c: "e4_config s = Some cfg" "authorized e spender" "0 < n"
    "load_allowance s owner spender = Some a" "sequence e < expires_at a"
    "assets_to_shares_ceil e s n = Ok x" "0 < x" "x \<le> allowed_shares a"
    "debit_shares e owner x (?al a) = Ok s2" "e4_pay_out transfer e cfg receiver n x s2 t = Ok (s', t')"
    unfolding e4_permit_withdraw_def e4_require_positive_def e4_load_config_def
    by (auto simp: ok_iff not_le not_less plain_i128_checked [OF assms(2)] Let_def)
  have "shares_of (?al a) = shares_of s" "e4_get_shares (?al a) owner = e4_get_shares s owner"
    by (simp_all add: remove_allowance_def store_allowance_def)
  with c(9) have x: "x \<le> e4_get_shares s owner" and "s2 = (?al a)\<lparr>shares_of := ?sh\<rparr>"
    by (simp_all only: debit_shares_ok [OF assms(2)])
  then have w: "s2 = s\<lparr>shares_of := ?sh, allowances_of := allowances_of (?al a)\<rparr>"
    by (simp add: remove_allowance_def store_allowance_def)
  note p = pay_out_delta [OF c(10) assms(2) c(1) w]
  then have "spends_allowance e owner spender x s s'"
    using c by (auto simp: spends_allowance_def load_allowance_def remove_allowance_def store_allowance_def)
  then show ?thesis using p c x assets_to_shares_ceil_ok [OF c(6) assms(2,3)] by (auto simp: e4_exit_def)
qed


lemma e4_harvest_ok:
  assumes "e4_harvest tr ba e a s t = Ok (profit, s', t')" and "overflow_checks e"
    and "A s \<le> ba t (self e)"
  obtains cfg fee where "e4_config s = Some cfg" "authorized e a" "cfg_admin cfg = a"
    "profit = ba t (self e) - A s" "fee = profit * uint (performance_fee_bps cfg) div 10000"
    "if 0 < fee then tr (invoke_env e (asset cfg)) (self e) (fee_recipient cfg) fee t = Ok t' else t' = t"
    "s' = s\<lparr>stored_assets := Some (ba t (self e) - fee), e4_config := Some (cfg\<lparr>last_harvest_ledger :=
       sequence e, last_harvest_profit := profit\<rparr>)\<rparr>"
proof -
  from assms(1) obtain cfg where c: "e4_config s = Some cfg" "authorized e a" "cfg_admin cfg = a"
    by (auto simp: e4_harvest_def e4_gate.gate_ok e4_load_config_def)
  let ?p = "ba t (self e) - A s"
  let ?b = "uint (performance_fee_bps cfg)"
  let ?pay = "\<lambda>f. if 0 < f then and_then (move_assets tr e (asset cfg) (self e) (fee_recipient cfg) f t)
      (\<lambda>t. Ok (f, t)) else Ok (f, t)"
  let ?fee = "if 0 < ?p \<and> 0 < performance_fee_bps cfg
      then and_then (e4_mul_div_floor ?p ?b BPS_DENOMINATOR) ?pay else Ok (0, t)"
  have g: "e4_require_admin e a s = Ok ()" using c by (simp add: e4_gate.gate_ok)
  from assms(1) obtain f where f: "?fee = Ok (f, t')" "profit = ?p"
    "s' = s\<lparr>stored_assets := Some (ba t (self e) - f), e4_config := Some (cfg\<lparr>last_harvest_ledger :=
       sequence e, last_harvest_profit := ?p\<rparr>)\<rparr>"
    unfolding e4_harvest_def g e4_load_config_def c(1) Let_def ok_or_simps and_then.simps
      and_then_eq_Ok plain_i128_checked [OF assms(2)]
    by (auto simp: plain_i128_checked [OF assms(2)])
  have p: "0 \<le> ?p" using assms(3) by simp
  have "f = ?p * ?b div 10000 \<and> (if 0 < f then tr (invoke_env e (asset cfg)) (self e) (fee_recipient cfg) f t
      = Ok t' else t' = t)"
  proof (cases "0 < ?p \<and> 0 < performance_fee_bps cfg")
    case True
    with f(1) obtain h where h: "e4_mul_div_floor ?p ?b BPS_DENOMINATOR = Ok h" "?pay h = Ok (f, t')"
      by auto
    moreover from h(2) have "h = f" by (auto split: if_splits)
    ultimately show ?thesis
      using mul_div_floor_ok [of ?p ?b 10000 f] p
      by (auto simp: BPS_DENOMINATOR_def move_assets_def split: if_splits)
  next
    case False
    then have "?p = 0 \<or> performance_fee_bps cfg = 0" using p by (auto simp: word_neq_0_conv)
    then show ?thesis using f(1) False by auto
  qed
  then have "f = profit * ?b div 10000" and "if 0 < f then tr (invoke_env e (asset cfg)) (self e)
      (fee_recipient cfg) f t = Ok t' else t' = t" unfolding f(2) by blast+
  then show thesis by (rule that [OF c f(2)]) (simp add: f(2,3))
qed


section \<open>The invariant\<close>

text \<open>
  The supply is the sum of all shares, none of which is negative; the recorded assets are covered
  by the vault's balance of the asset token; and the denominators of the conversions, the totals
  plus the virtual offset, stay positive.
\<close>

definition e4_inv :: "'t balance \<Rightarrow> ('t \<Rightarrow> bool) \<Rightarrow> address \<Rightarrow> e4_vault \<Rightarrow> 't \<Rightarrow> bool" where
  "e4_inv ba sound v s t \<longleftrightarrow>
     finite (dom (shares_of s)) \<and> (\<forall>a. 0 \<le> e4_get_shares s a) \<and> map_total (shares_of s) = S s
     \<and> - 1000 < A s \<and> A s \<le> ba t v \<and> sound t
     \<and> (case e4_config s of None \<Rightarrow> S s = 0 \<and> A s = 0
        | Some cfg \<Rightarrow> unat (performance_fee_bps cfg) \<le> 10000)"

lemma e4_inv_shares:
  assumes "e4_inv ba sound v s t"
  shows "0 \<le> S s \<and> e4_get_shares s a \<le> S s \<and> 0 \<le> e4_get_shares s a \<and> totals_ok s"
proof -
  have "get0 (shares_of s) b \<le> map_total (shares_of s)" for b
    using assms by (intro get0_le_map_total) (simp_all add: e4_inv_def e4_get_shares_def)
  moreover have "0 \<le> get0 (shares_of s) b" for b
    using assms by (simp add: e4_inv_def e4_get_shares_def)
  ultimately have "0 \<le> map_total (shares_of s)" "e4_get_shares s a \<le> map_total (shares_of s)"
    by (auto simp: e4_get_shares_def intro: order_trans)
  then show ?thesis using assms by (simp add: e4_inv_def totals_ok_def)
qed

lemma e4_inv_delta:
  assumes "e4_inv ba sound v s t" and "e4_delta a x n s s'" and "0 \<le> e4_get_shares s a + x"
    and "- 1000 < A s + n" and "A s + n \<le> ba t' v" and "sound t'"
  shows "e4_inv ba sound v s' t'"
proof -
  have d: "shares_of s' = (shares_of s)(a \<mapsto> e4_get_shares s a + x)" "S s' = S s + x" "A s' = A s + n"
    "e4_config s' = e4_config s" "e4_config s \<noteq> None"
    using assms(2) by (simp_all add: e4_delta_def)
  have "map_total (shares_of s') = S s'"
    using assms(1) d by (simp add: e4_inv_def e4_get_shares_def)
  moreover have "0 \<le> e4_get_shares s' b" for b
    using assms(1,3) d(1) by (simp add: e4_inv_def e4_get_shares_def)
  ultimately show ?thesis using assms(1,4-6) d by (auto simp: e4_inv_def split: option.splits)
qed

lemma e4_inv_frame:
  assumes "e4_inv ba sound v s t" and "shares_of s' = shares_of s" and "S s' = S s" and "A s' = A s"
    and "e4_config s' = e4_config s"
  shows "e4_inv ba sound v s' t"
  using assms by (simp add: e4_inv_def e4_get_shares_def split: option.splits)

text \<open>An exit never takes as much as the recorded assets plus the offset.\<close>

lemma exit_bound:
  fixes n x :: int
  assumes "n * (Su + 1000) \<le> x * (As + 1000)" and "x \<le> Su" and "0 \<le> Su" and "- 1000 < As"
  shows "n < As + 1000"
proof -
  have "x * (As + 1000) \<le> Su * (As + 1000)" using assms(2,4) by (intro mult_right_mono) auto
  also have "\<dots> < (Su + 1000) * (As + 1000)" using assms(4) by (simp add: distrib_right)
  finally have "n * (Su + 1000) < (As + 1000) * (Su + 1000)" using assms(1) by (simp add: mult.commute)
  then show ?thesis using assms(3) by (simp add: mult_less_cancel_right)
qed

text \<open>The price of a share, with the offset on both sides, does not fall from \<open>s\<close> to \<open>s'\<close>.\<close>

definition price_kept :: "e4_vault \<Rightarrow> e4_vault \<Rightarrow> bool" where
  "price_kept s s' \<longleftrightarrow> (A s + 1000) * (S s' + 1000) \<le> (A s' + 1000) * (S s + 1000)"

lemma entry_price:
  fixes x n :: int
  shows "x * (As + 1000) \<le> n * (Su + 1000) \<Longrightarrow>
    (As + 1000) * (Su + x + 1000) \<le> (As + n + 1000) * (Su + 1000)"
  by (simp add: algebra_simps)

lemma exit_price:
  fixes x n :: int
  shows "n * (Su + 1000) \<le> x * (As + 1000) \<Longrightarrow>
    (As + 1000) * (Su - x + 1000) \<le> (As - n + 1000) * (Su + 1000)"
  by (simp add: algebra_simps)

lemma entry_backed:
  fixes x n :: int
  assumes "x * (As + 1000) \<le> n * (Su + 1000)" and "Su \<le> As" and "0 \<le> Su" and "0 < n"
  shows "Su + x \<le> As + n"
proof -
  have "n * (Su + 1000) \<le> n * (As + 1000)" using assms(2,4) by (intro mult_left_mono) auto
  then have "x * (As + 1000) \<le> n * (As + 1000)" using assms(1) by (rule order_trans [rotated])
  then have "x \<le> n" using assms(2,3) by (simp add: mult_le_cancel_right)
  then show ?thesis using assms(2) by simp
qed

lemma exit_backed:
  fixes x n :: int
  assumes "n * (Su + 1000) \<le> x * (As + 1000)" and "x \<le> Su" and "0 \<le> n" and "0 \<le> Su" and "Su \<le> As"
  shows "Su - x \<le> As - n"
proof -
  have n: "n < As + 1000" using exit_bound [OF assms(1,2,4)] assms(4,5) by simp
  have "(n - x) * (As + 1000) = n * (As + 1000) - x * (As + 1000)" by (simp add: left_diff_distrib)
  also have "\<dots> \<le> n * (As + 1000) - n * (Su + 1000)" using assms(1) by simp
  also have "\<dots> = n * (As - Su)" by (simp add: algebra_simps)
  also have "\<dots> \<le> (As + 1000) * (As - Su)" using n assms(5) by (intro mult_right_mono) auto
  finally have "(n - x) * (As + 1000) \<le> (As - Su) * (As + 1000)" by (simp add: mult.commute)
  then have "n - x \<le> As - Su" using assms(4,5) by (simp add: mult_le_cancel_right)
  then show ?thesis by simp
qed

context token_iface
begin

lemma e4_inv_entry:
  assumes inv: "e4_inv balance sound v s t" and "e4_delta r x n s s'" and "0 < x" and "0 < n"
    and tr: "transfer (invoke_env e z) c v n t = Ok t'" and "c \<noteq> v"
  shows "e4_inv balance sound v s' t'"
proof (rule e4_inv_delta [OF inv assms(2)])
  have s: "sound t" using inv by (simp add: e4_inv_def)
  show "sound t'" using transfer_sound [OF tr s] assms(4) by simp
  have "balance t' v = balance t v + n" using transfer_pair [OF tr s] assms(4,6) by simp
  then show "A s + n \<le> balance t' v" "- 1000 < A s + n" using inv assms(4) by (simp_all add: e4_inv_def)
  show "0 \<le> e4_get_shares s r + x" using e4_inv_shares [OF inv, of r] assms(3) by simp
qed

lemma e4_inv_exit:
  assumes inv: "e4_inv balance sound v s t" and ex: "e4_exit transfer e c w r x n s t s' t'"
    and "self e = v"
  shows "e4_inv balance sound v s' t'"
proof -
  from ex obtain cfg :: vault_config where x: "e4_delta w (- x) (- n) s s'" "0 \<le> n" "x \<le> e4_get_shares s w"
    "n * (S s + 1000) \<le> x * (A s + 1000)" "transfer (invoke_env e (asset cfg)) v r n t = Ok t'"
    using assms(3) by (auto simp: e4_exit_def)
  have s: "sound t" using inv by (simp add: e4_inv_def)
  have sh: "0 \<le> S s" "e4_get_shares s w \<le> S s" using e4_inv_shares [OF inv] by auto
  show ?thesis
  proof (rule e4_inv_delta [OF inv x(1)])
    show "sound t'" using transfer_sound [OF x(5) s x(2)] .
    have "balance t v - n \<le> balance t' v" using transfer_moves [OF x(5) s x(2), of v] x(2) by simp
    then show "A s + - n \<le> balance t' v" using inv by (simp add: e4_inv_def)
    show "- 1000 < A s + - n"
      using exit_bound [OF x(4), of] x(3) sh inv by (simp add: e4_inv_def)
    show "0 \<le> e4_get_shares s w + - x" using x(3) by simp
  qed
qed

lemma e4_inv_harvest:
  assumes inv: "e4_inv balance sound v s t" and "e4_harvest transfer balance e a s t = Ok (p, s', t')"
    and "overflow_checks e" and v: "self e = v"
  shows "e4_inv balance sound v s' t' \<and> A s \<le> A s'"
proof -
  have cov: "A s \<le> balance t (self e)" and s: "sound t" using inv v by (simp_all add: e4_inv_def)
  from assms(2,3) cov obtain cfg fee where h: "e4_config s = Some cfg" "authorized e a" "cfg_admin cfg = a"
    "p = balance t v - A s" "fee = p * uint (performance_fee_bps cfg) div 10000"
    "if 0 < fee then transfer (invoke_env e (asset cfg)) v (fee_recipient cfg) fee t = Ok t' else t' = t"
    "s' = s\<lparr>stored_assets := Some (balance t v - fee), e4_config := Some (cfg\<lparr>last_harvest_ledger :=
       sequence e, last_harvest_profit := p\<rparr>)\<rparr>"
    unfolding v [symmetric] by (rule e4_harvest_ok)
  have bps: "uint (performance_fee_bps cfg) \<le> 10000"
    using inv h(1) uint_le_of_unat [of "performance_fee_bps cfg" 10000] by (simp add: e4_inv_def)
  have p: "0 \<le> p" using cov v h(4) by simp
  have "p * uint (performance_fee_bps cfg) div 10000 \<le> p * 10000 div 10000"
    using p bps by (intro zdiv_mono1 mult_left_mono) auto
  then have fee: "0 \<le> fee" "fee \<le> p" using p h(5) by (auto simp: pos_imp_zdiv_nonneg_iff)
  have t': "sound t' \<and> balance t v - fee \<le> balance t' v"
  proof (cases "0 < fee")
    case True
    then have tr: "transfer (invoke_env e (asset cfg)) v (fee_recipient cfg) fee t = Ok t'" using h(6) by simp
    show ?thesis
      using transfer_sound [OF tr s fee(1)] transfer_moves [OF tr s fee(1), of v] fee(1) by simp
  next
    case False
    then show ?thesis using h(6) s fee by simp
  qed
  have "A s \<le> balance t v - fee" using fee h(4) by simp
  then show ?thesis using inv t' h(1,7) by (auto simp: e4_inv_def e4_get_shares_def)
qed

lemma e4_inv_exec:
  assumes inv: "e4_inv balance sound v s t" and ex: "e4_exec transfer balance e c s t = Ok (s', t')"
    and o: "overflow_checks e" and v: "self e = v" and na: "\<not> authorized e v"
  shows "e4_inv balance sound v s' t'"
proof -
  have tot: "totals_ok s" using e4_inv_shares [OF inv] by simp
  show ?thesis
  proof (cases c)
    case (Initialize z a f b)
    with ex have i: "e4_config s = None" "b \<le> 10000" "t' = t" and
      s': "shares_of s' = shares_of s" "S s' = 0" "A s' = 0"
        "\<exists>cfg. e4_config s' = Some cfg \<and> performance_fee_bps cfg = b"
      by (auto simp: e4_keep_def e4_initialize_def ok_iff not_less e4_get_total_supply_def
          e4_get_total_assets_def)
    then show ?thesis using inv by (auto simp: e4_inv_def e4_get_shares_def word_le_nat_alt)
  next
    case (Deposit a n r)
    with ex obtain x where "e4_deposit transfer e a n r s t = Ok (x, s', t')" by (auto simp: e4_drop_def)
    from this o tot obtain cfg :: vault_config where "authorized e a" "e4_delta r x n s s'" "0 < x" "0 < n"
      "transfer (invoke_env e (asset cfg)) a v n t = Ok t'" unfolding v [symmetric] by (rule e4_deposit_ok)
    then show ?thesis using e4_inv_entry [OF inv] na by metis
  next
    case (Mint a x r)
    with ex obtain n where "e4_mint transfer e a x r s t = Ok (n, s', t')" by (auto simp: e4_drop_def)
    then obtain cfg :: vault_config where "authorized e a" "e4_delta r x n s s'" "0 < x" "0 < n"
      "transfer (invoke_env e (asset cfg)) a v n t = Ok t'" unfolding v [symmetric] by (rule e4_mint_ok)
    then show ?thesis using e4_inv_entry [OF inv] na by metis
  next
    case (Withdraw a n r w)
    with ex obtain x where "e4_withdraw transfer e a n r w s t = Ok (x, s', t')" by (auto simp: e4_drop_def)
    from e4_withdraw_ok [OF this o tot] show ?thesis by (intro e4_inv_exit [OF inv _ v]) blast
  next
    case (Redeem a x r w)
    with ex obtain n where "e4_redeem transfer e a x r w s t = Ok (n, s', t')" by (auto simp: e4_drop_def)
    from e4_redeem_ok [OF this o tot] show ?thesis by (intro e4_inv_exit [OF inv _ v]) blast
  next
    case (PermitWithdraw p w n r)
    with ex obtain x where "e4_permit_withdraw transfer e p w n r s t = Ok (x, s', t')"
      by (auto simp: e4_drop_def)
    from e4_permit_withdraw_ok [OF this o tot] show ?thesis by (intro e4_inv_exit [OF inv _ v]) blast
  next
    case (Harvest a)
    with ex obtain p where "e4_harvest transfer balance e a s t = Ok (p, s', t')" by (auto simp: e4_drop_def)
    from e4_inv_harvest [OF inv this o v] show ?thesis ..
  next
    case (SetAdmin a b)
    with ex obtain cfg where c: "e4_config s = Some cfg" "s' = s\<lparr>e4_config := Some (cfg\<lparr>cfg_admin := b\<rparr>)\<rparr>"
      "t' = t" by (auto simp: e4_keep_def e4_set_admin_def e4_load_config_def)
    then show ?thesis using inv c(1) by (simp add: e4_inv_def e4_get_shares_def)
  next
    case (SetFeeRecipient a b)
    with ex obtain cfg where c: "e4_config s = Some cfg" "s' = s\<lparr>e4_config := Some (cfg\<lparr>fee_recipient := b\<rparr>)\<rparr>"
      "t' = t" by (auto simp: e4_keep_def e4_set_fee_recipient_def e4_load_config_def)
    then show ?thesis using inv c(1) by (simp add: e4_inv_def e4_get_shares_def)
  next
    case (Approve a p x u)
    with ex have "t' = t" "\<exists>w. s' = s\<lparr>allowances_of := w\<rparr>"
      by (auto simp: e4_keep_def e4_approve_def ok_iff store_allowance_def)
    then show ?thesis by (auto intro!: e4_inv_frame [OF inv])
  next
    case (Revoke a p)
    with ex have "t' = t" "\<exists>w. s' = s\<lparr>allowances_of := w\<rparr>"
      by (auto simp: e4_keep_def e4_revoke_def remove_allowance_def)
    then show ?thesis by (auto intro!: e4_inv_frame [OF inv])
  next
    case (SetPaused a b)
    with ex have "t' = t" "s' = s\<lparr>stored_paused := Some b\<rparr>" by (auto simp: e4_keep_def e4_set_paused_def)
    then show ?thesis by (auto intro!: e4_inv_frame [OF inv])
  next
    case (SetVerifier a k y)
    with ex have "t' = t" "s' = s\<lparr>stored_verifier_kind := Some k, stored_verifier := y\<rparr>"
      by (auto simp: e4_keep_def e4_set_verifier_def)
    then show ?thesis by (auto intro!: e4_inv_frame [OF inv])
  qed
qed

lemma e4_run_inv: "e4_run transfer balance sound v cs s t \<Longrightarrow> e4_inv balance sound v s t"
proof (induction rule: e4_run.induct)
  case (e4_start t)
  then show ?case
    using balance_range [of t v]
    by (simp add: e4_inv_def fresh_e4_vault_def e4_get_shares_def e4_get_total_supply_def
        e4_get_total_assets_def)
next
  case (e4_call cs s t e c s' t')
  then show ?case using e4_inv_exec by blast
next
  case (e4_others cs s t t')
  then show ?case by (auto simp: e4_inv_def)
qed

text \<open>What a call other than \<open>mint\<close> does to the price of a share, and to the backing of the supply.\<close>

lemma e4_exec_price:
  assumes inv: "e4_inv balance sound v s t" and ex: "e4_exec transfer balance e c s t = Ok (s', t')"
    and o: "overflow_checks e" and v: "self e = v" and "\<forall>a x r. c \<noteq> Mint a x r"
  shows "price_kept s s' \<and> (S s \<le> A s \<longrightarrow> S s' \<le> A s')"
proof -
  have tot: "totals_ok s" using e4_inv_shares [OF inv] by simp
  have exit: ?thesis if "e4_exit transfer e p w r x n s t s' t'" for p w r x n
    using that e4_inv_shares [OF inv, of w] exit_price [of n "S s" x "A s"] exit_backed [of n "S s" x "A s"]
    by (auto simp: e4_exit_def e4_delta_def price_kept_def totals_ok_def)
  show ?thesis
  proof (cases c)
    case (Initialize z a f b)
    with ex have i: "e4_config s = None" "S s' = 0" "A s' = 0"
      by (auto simp: e4_keep_def e4_initialize_def ok_iff e4_get_total_supply_def e4_get_total_assets_def)
    then have "S s = 0" "A s = 0" using inv by (simp_all add: e4_inv_def)
    with i show ?thesis by (simp add: price_kept_def)
  next
    case (Deposit a n r)
    with ex obtain x where "e4_deposit transfer e a n r s t = Ok (x, s', t')" by (auto simp: e4_drop_def)
    from this o tot have "e4_delta r x n s s'" "0 < n" "x * (A s + 1000) \<le> n * (S s + 1000)"
      by (auto elim: e4_deposit_ok)
    then show ?thesis using tot entry_price [of x "A s" n "S s"] entry_backed [of x "A s" n "S s"]
      by (auto simp: e4_delta_def price_kept_def totals_ok_def)
  next
    case (Withdraw a n r w)
    with ex obtain x where "e4_withdraw transfer e a n r w s t = Ok (x, s', t')" by (auto simp: e4_drop_def)
    from e4_withdraw_ok [OF this o tot] show ?thesis by (intro exit) blast
  next
    case (Redeem a x r w)
    with ex obtain n where "e4_redeem transfer e a x r w s t = Ok (n, s', t')" by (auto simp: e4_drop_def)
    from e4_redeem_ok [OF this o tot] show ?thesis by (intro exit) blast
  next
    case (PermitWithdraw p w n r)
    with ex obtain x where "e4_permit_withdraw transfer e p w n r s t = Ok (x, s', t')"
      by (auto simp: e4_drop_def)
    from e4_permit_withdraw_ok [OF this o tot] show ?thesis by (intro exit) blast
  next
    case (Harvest a)
    with ex obtain p where h: "e4_harvest transfer balance e a s t = Ok (p, s', t')" by (auto simp: e4_drop_def)
    have "A s \<le> balance t (self e)" using inv v by (simp add: e4_inv_def)
    from h o this have "S s' = S s" by (auto elim: e4_harvest_ok)
    moreover have "A s \<le> A s'" using e4_inv_harvest [OF inv h o v] ..
    ultimately show ?thesis using tot by (auto simp: price_kept_def totals_ok_def intro: mult_right_mono)
  next
    case (Mint a x r)
    with assms(5) show ?thesis by simp
  qed (use ex in \<open>auto simp: e4_keep_def e4_approve_def e4_revoke_def e4_set_paused_def e4_set_verifier_def
      e4_set_admin_def e4_set_fee_recipient_def ok_iff store_allowance_def remove_allowance_def price_kept_def\<close>)
qed

lemma e4_run_backed:
  "e4_run transfer balance sound v cs s t \<Longrightarrow> \<forall>a x r. Mint a x r \<notin> set cs \<Longrightarrow> S s \<le> A s"
proof (induction rule: e4_run.induct)
  case (e4_start t)
  then show ?case by (simp add: fresh_e4_vault_def e4_get_total_supply_def e4_get_total_assets_def)
next
  case (e4_call cs s t e c s' t')
  then have "S s \<le> A s" "\<forall>a x r. c \<noteq> Mint a x r" by auto
  then show ?case using e4_exec_price [OF e4_run_inv [OF e4_call.hyps(1)] e4_call.hyps(5,3,2)] by blast
qed

end

section \<open>Allowances\<close>

text \<open>A stored allowance is positive: an allowance that is used up is removed.\<close>

definition e4_allow_ok :: "e4_vault \<Rightarrow> bool" where
  "e4_allow_ok s \<longleftrightarrow> (\<forall>k w. allowances_of s k = Some w \<longrightarrow> 0 < allowed_shares w)"

lemma allow_ok_frame: "e4_allow_ok s \<Longrightarrow> allowances_of s' = allowances_of s \<Longrightarrow> e4_allow_ok s'"
  by (simp add: e4_allow_ok_def)

lemma allow_ok_update:
  "e4_allow_ok s \<Longrightarrow> e4_allow_ok (remove_allowance a p s)"
  "e4_allow_ok s \<Longrightarrow> 0 < allowed_shares w \<Longrightarrow> e4_allow_ok (store_allowance a p w s)"
  by (simp_all add: e4_allow_ok_def remove_allowance_def store_allowance_def)

lemma allowances_frames:
  "credit_shares a x s = Ok s' \<Longrightarrow> allowances_of s' = allowances_of s"
  "debit_shares e a x s = Ok s' \<Longrightarrow> allowances_of s' = allowances_of s"
  "add_total_assets n s = Ok s' \<Longrightarrow> allowances_of s' = allowances_of s"
  "add_total_supply n s = Ok s' \<Longrightarrow> allowances_of s' = allowances_of s"
  by (auto simp: credit_shares_def debit_shares_def e4_set_shares_def add_total_assets_def add_total_supply_def
      split: if_splits)

lemma pay_out_allowances: "e4_pay_out tr e cfg r n x s t = Ok (s', t') \<Longrightarrow> allowances_of s' = allowances_of s"
  by (auto simp: e4_pay_out_def dest!: allowances_frames)

lemma consume_allow_ok: "consume_allowance e c a x s = Ok s' \<Longrightarrow> e4_allow_ok s \<Longrightarrow> e4_allow_ok s'"
  by (auto simp: consume_allowance_def not_le intro: allow_ok_update split: if_splits option.splits)

lemma burn_allow_ok:
  assumes "e4_allow_ok s" and "debit_shares e a x s = Ok s1" and "consume_allowance e c a k s1 = Ok s2"
    and "e4_pay_out tr e cfg r n x s2 t = Ok (s', t')"
  shows "e4_allow_ok s'"
  using assms allowances_frames(2) consume_allow_ok pay_out_allowances allow_ok_frame by metis

lemma permit_allow_ok:
  assumes "e4_permit_withdraw tr e p a n r s t = Ok (x, s', t')" and "overflow_checks e" and "e4_allow_ok s"
  shows "e4_allow_ok s'"
proof -
  obtain w y s1 s2 cfg where w: "load_allowance s a p = Some w" "y \<le> allowed_shares w"
    "s1 = (if allowed_shares w - y = 0 then remove_allowance a p s
       else store_allowance a p (w\<lparr>allowed_shares := allowed_shares w - y\<rparr>) s)"
    "debit_shares e a y s1 = Ok s2" "e4_pay_out tr e cfg r n y s2 t = Ok (s', t')"
    using assms(1) unfolding e4_permit_withdraw_def
    by (auto simp: ok_iff not_le not_less plain_i128_checked [OF assms(2)] Let_def)
  have "e4_allow_ok s1" using w(2,3) assms(3) by (auto intro: allow_ok_update)
  with w(4,5) show ?thesis using allowances_frames(2) pay_out_allowances allow_ok_frame by metis
qed

lemma exit_allow_ok:
  "e4_withdraw tr e c n r a s t = Ok (x, s', t') \<Longrightarrow> e4_allow_ok s \<Longrightarrow> e4_allow_ok s'"
  "e4_redeem tr e c x r a s t = Ok (n, s', t') \<Longrightarrow> e4_allow_ok s \<Longrightarrow> e4_allow_ok s'"
  by (auto simp: e4_withdraw_def e4_redeem_def ok_iff intro: burn_allow_ok)

lemma entry_allowances:
  "e4_deposit tr e c n r s t = Ok (x, s', t') \<Longrightarrow> allowances_of s' = allowances_of s"
  "e4_mint tr e c x r s t = Ok (n, s', t') \<Longrightarrow> allowances_of s' = allowances_of s"
  by (auto simp: e4_deposit_def e4_mint_def ok_iff dest!: allowances_frames)

lemma e4_exec_allow_ok:
  assumes "e4_exec tr ba e c s t = Ok (s', t')" and "overflow_checks e" and "e4_allow_ok s"
  shows "e4_allow_ok s'"
proof (cases c)
  case (Withdraw b n r w)
  with assms(1) obtain x where "e4_withdraw tr e b n r w s t = Ok (x, s', t')" by (auto simp: e4_drop_def)
  from exit_allow_ok(1) [OF this assms(3)] show ?thesis .
next
  case (Redeem b x r w)
  with assms(1) obtain n where "e4_redeem tr e b x r w s t = Ok (n, s', t')" by (auto simp: e4_drop_def)
  from exit_allow_ok(2) [OF this assms(3)] show ?thesis .
next
  case (PermitWithdraw p w n r)
  with assms show ?thesis by (auto simp: e4_drop_def intro: permit_allow_ok)
next
  case (Approve b p x u)
  with assms show ?thesis
    by (auto simp: e4_keep_def e4_approve_def e4_require_positive_def ok_iff not_le intro: allow_ok_update)
next
  case (Revoke b p)
  with assms show ?thesis by (auto simp: e4_keep_def e4_revoke_def intro: allow_ok_update)
next
  case (Harvest b)
  with assms(1) have "allowances_of s' = allowances_of s"
    by (auto simp: e4_drop_def e4_harvest_def Let_def)
  with assms(3) show ?thesis by (rule allow_ok_frame)
qed (use assms in \<open>auto simp: e4_keep_def e4_drop_def e4_initialize_def e4_set_paused_def e4_set_verifier_def
    e4_set_admin_def e4_set_fee_recipient_def ok_iff dest!: entry_allowances intro: allow_ok_frame\<close>)

lemma e4_run_allow_ok: "e4_run tr ba sound v cs s t \<Longrightarrow> e4_allow_ok s"
proof (induction rule: e4_run.induct)
  case (e4_start t)
  then show ?case by (simp add: e4_allow_ok_def fresh_e4_vault_def)
next
  case (e4_call cs s t e c s' t')
  from e4_exec_allow_ok [OF e4_call.hyps(5,3) e4_call.IH] show ?case .
qed

section \<open>A concrete history\<close>

text \<open>Calls made one after the other in one environment, all of which must succeed.\<close>

fun e4_play ::
  "('t, 'x) transfer \<Rightarrow> 't balance \<Rightarrow> env \<Rightarrow> e4_call list \<Rightarrow> e4_vault \<Rightarrow> 't
    \<Rightarrow> (e4_vault \<times> 't, e4_error) result" where
  "e4_play tr ba e [] s t = Ok (s, t)"
| "e4_play tr ba e (c # cs) s t = and_then (e4_exec tr ba e c s t) (\<lambda>(s, t). e4_play tr ba e cs s t)"

lemma e4_play_run:
  assumes "e4_play tr ba e cs s t = Ok (s', t')" and "e4_run tr ba sound v ds s t"
    and "self e = v" and "overflow_checks e" and "\<not> authorized e v"
  shows "e4_run tr ba sound v (ds @ cs) s' t'"
  using assms(1,2)
proof (induction cs arbitrary: ds s t)
  case (Cons c cs)
  then obtain s1 t1 where "e4_exec tr ba e c s t = Ok (s1, t1)" "e4_play tr ba e cs s1 t1 = Ok (s', t')"
    by auto
  with Cons.IH [OF this(2) e4_call [OF Cons.prems(2) assms(3-5) this(1)]] show ?case by simp
qed simp

definition e4_env :: env where
  "e4_env = \<lparr>sequence = 100, timestamp = 1000, authorized = (\<lambda>a. a < 3), self = 50, overflow_checks = True\<rparr>"

definition e4_result_is ::
  "(e4_vault \<Rightarrow> token \<Rightarrow> bool) \<Rightarrow> (e4_vault \<times> token, e4_error) result \<Rightarrow> bool" where
  "e4_result_is P r = (case r of Ok (s, t) \<Rightarrow> P s t | _ \<Rightarrow> False)"

lemma e4_result_isE:
  assumes "e4_result_is P r"
  obtains s t where "r = Ok (s, t)" "P s t"
  using assms by (auto simp: e4_result_is_def split: result.splits)

lemma e4_env_run:
  assumes "e4_play tok_transfer tok_balance e4_env cs fresh_e4_vault token_example = Ok (s, t)"
  shows "e4_run tok_transfer tok_balance tok_sound 50 cs s t"
  using e4_play_run [OF assms e4_start [where sound = tok_sound], of 50] token_example_sound
  by (simp add: e4_env_def)

lemma e4_example_history:
  obtains s t where
    "e4_play tok_transfer tok_balance e4_env [Initialize 9 1 4 1000, Deposit 2 60 2] fresh_e4_vault
       token_example = Ok (s, t)"
    "e4_get_shares s 2 = 60" "S s = 60" "A s = 60" "tok_balance t 50 = 60"
    "e4_preview_redeem e4_env s 60 = Ok 60"
proof -
  have "e4_result_is (\<lambda>s t. e4_get_shares s 2 = 60 \<and> S s = 60 \<and> A s = 60 \<and> tok_balance t 50 = 60
      \<and> e4_preview_redeem e4_env s 60 = Ok 60)
    (e4_play tok_transfer tok_balance e4_env [Initialize 9 1 4 1000, Deposit 2 60 2] fresh_e4_vault
       token_example)" by code_simp
  then show thesis by (elim e4_result_isE conjE) (rule that)
qed

definition e4_returns :: "i128 \<Rightarrow> (i128, token) e4_result \<Rightarrow> bool" where
  "e4_returns n r = (case r of Ok (m, s, t) \<Rightarrow> m = n | _ \<Rightarrow> False)"

lemma e4_returns_iff: "e4_returns n r \<longleftrightarrow> (\<exists>s t. r = Ok (n, s, t))"
  by (cases r) (auto simp: e4_returns_def)

text \<open>A transfer to the vault outside its entry points is one of the things others can do.\<close>

lemma e4_run_donation:
  assumes "e4_run tok_transfer tok_balance tok_sound v cs s t" and "tok_transfer e a v n t = Ok t'"
    and "0 \<le> n" and "a \<noteq> v"
  shows "e4_run tok_transfer tok_balance tok_sound v cs s t'"
proof -
  have s: "tok_sound t"
    using token_iface.e4_run_inv [OF perigee_token.token_iface_axioms assms(1)] by (simp add: e4_inv_def)
  show ?thesis
    using e4_others [OF assms(1) perigee_token.transfer_sound [OF assms(2) s assms(3)]]
      perigee_token.transfer_others [OF assms(2) s assms(3), of v] assms(4) by simp
qed

definition token_rich :: token where
  "token_rich = token_example\<lparr>balances := [2 \<mapsto> 1000000, 1 \<mapsto> 2000000, 0 \<mapsto> 1000000]\<rparr>"

lemma token_rich_sound: "tok_sound token_rich"
  by (simp add: tok_sound_def token_rich_def read_balance_def i128_max_eq)

section \<open>Properties of the vault\<close>

text \<open>
  C8. The vault's books are right. In every history, over any asset token that keeps the token laws and
  in a build that checks its arithmetic, the total supply is the sum of all share balances, no share
  balance is negative, every stored allowance is positive, and the recorded assets never exceed what the
  vault holds of the asset token. The recorded assets themselves only stay above minus the virtual offset.
\<close>

theorem e4_books_balance:
  assumes "token_iface transfer balance sound" and "e4_run transfer balance sound v cs s t"
  shows "map_total (shares_of s) = e4_get_total_supply s \<and> 0 \<le> e4_get_total_supply s
    \<and> (\<forall>a. 0 \<le> e4_balance_of s a)
    \<and> (\<forall>a p w. load_allowance s a p = Some w \<longrightarrow> 0 < allowed_shares w)
    \<and> - VIRTUAL_OFFSET < e4_get_total_assets s \<and> e4_get_total_assets s \<le> balance t v"
  using token_iface.e4_run_inv [OF assms] e4_inv_shares [OF token_iface.e4_run_inv [OF assms]]
    e4_run_allow_ok [OF assms(2)]
  by (simp add: e4_inv_def e4_balance_of_def e4_allow_ok_def load_allowance_def VIRTUAL_OFFSET_def)

theorem e4_books_balance_witness:
  "\<exists>cs s t. e4_run tok_transfer tok_balance tok_sound 50 cs s t \<and> e4_balance_of s 2 = 60
     \<and> map_total (shares_of s) = e4_get_total_supply s \<and> e4_get_total_assets s \<le> tok_balance t 50"
proof -
  obtain s t where p: "e4_play tok_transfer tok_balance e4_env [Initialize 9 1 4 1000, Deposit 2 60 2]
      fresh_e4_vault token_example = Ok (s, t)" "e4_get_shares s 2 = 60"
    by (rule e4_example_history)
  note r = e4_env_run [OF p(1)]
  show ?thesis
    using r p(2) e4_books_balance [OF perigee_token.token_iface_axioms r]
    by (auto simp: e4_balance_of_def)
qed

text \<open>
  C11. Without \<open>mint\<close> the vault is solvent: in every history that does not use it, every share is
  backed by at least one unit of assets, and redeeming any number of the shares that exist, all of
  them included, is quoted at no more than the recorded assets, which the vault holds.
\<close>

theorem e4_solvent_without_mint:
  assumes "token_iface transfer balance sound" and "e4_run transfer balance sound v cs s t"
    and "\<forall>a x r. Mint a x r \<notin> set cs" and "overflow_checks e" and "0 \<le> x" and "x \<le> e4_get_total_supply s"
    and "e4_preview_redeem e s x = Ok n"
  shows "e4_get_total_supply s \<le> e4_get_total_assets s \<and> n \<le> e4_get_total_assets s
    \<and> e4_get_total_assets s \<le> balance t v"
proof -
  note inv = token_iface.e4_run_inv [OF assms(1,2)]
  have b: "S s \<le> A s" using token_iface.e4_run_backed [OF assms(1-3)] .
  have tot: "totals_ok s" and su: "0 \<le> S s" using e4_inv_shares [OF inv] by auto
  have n: "0 \<le> n" "n * (S s + 1000) \<le> x * (A s + 1000)"
    using shares_to_assets_floor_ok [of e s x n] assms(4,5,7) tot by (simp_all add: e4_preview_redeem_def)
  have "S s - x \<le> A s - n" using exit_backed [OF n(2) assms(6) n(1) su b] .
  then show ?thesis using b assms(6) inv by (simp add: e4_inv_def)
qed

theorem e4_solvent_without_mint_witness:
  "\<exists>cs s t. e4_run tok_transfer tok_balance tok_sound 50 cs s t
     \<and> e4_preview_redeem e4_env s 60 = Ok 60 \<and> 60 \<le> e4_get_total_assets s
     \<and> e4_get_total_assets s \<le> tok_balance t 50"
proof -
  obtain s t where p: "e4_play tok_transfer tok_balance e4_env [Initialize 9 1 4 1000, Deposit 2 60 2]
      fresh_e4_vault token_example = Ok (s, t)" "S s = 60" "e4_preview_redeem e4_env s 60 = Ok 60"
    by (rule e4_example_history)
  note r = e4_env_run [OF p(1)]
  show ?thesis
    using r p(2,3) e4_solvent_without_mint [OF perigee_token.token_iface_axioms r _ _ _ _ p(3)]
    by (auto simp: e4_env_def)
qed

text \<open>
  C12. No call but \<open>mint\<close> lets the price of a share fall. Deposits, withdrawals, redemptions,
  permitted withdrawals, harvests and all administration leave the ratio of assets to supply, each
  with the virtual offset, at least as high as it was: rounding is always against the caller.
\<close>

theorem e4_price_never_falls:
  assumes "token_iface transfer balance sound" and "e4_run transfer balance sound v cs s t"
    and "e4_exec transfer balance e c s t = Ok (s', t')" and "overflow_checks e" and "self e = v"
    and "\<forall>a x r. c \<noteq> Mint a x r"
  shows "(e4_get_total_assets s + VIRTUAL_OFFSET) * (e4_get_total_supply s' + VIRTUAL_OFFSET)
    \<le> (e4_get_total_assets s' + VIRTUAL_OFFSET) * (e4_get_total_supply s + VIRTUAL_OFFSET)"
  using token_iface.e4_exec_price [OF assms(1) token_iface.e4_run_inv [OF assms(1,2)] assms(3-6)]
  by (simp add: price_kept_def VIRTUAL_OFFSET_def)

theorem e4_price_never_falls_witness:
  "\<exists>s t s' t'. e4_exec tok_transfer tok_balance e4_env (Deposit 2 30 2) s t = Ok (s', t')
     \<and> (60 + VIRTUAL_OFFSET) * (e4_get_total_supply s' + VIRTUAL_OFFSET)
         \<le> (e4_get_total_assets s' + VIRTUAL_OFFSET) * (60 + VIRTUAL_OFFSET)"
proof -
  obtain s t where p: "e4_play tok_transfer tok_balance e4_env [Initialize 9 1 4 1000, Deposit 2 60 2]
      fresh_e4_vault token_example = Ok (s, t)" "S s = 60" "A s = 60"
    by (rule e4_example_history)
  have "e4_result_is (\<lambda>s t. e4_result_is (\<lambda>_ _. True)
      (e4_exec tok_transfer tok_balance e4_env (Deposit 2 30 2) s t))
    (e4_play tok_transfer tok_balance e4_env [Initialize 9 1 4 1000, Deposit 2 60 2]
      fresh_e4_vault token_example)" by code_simp
  then obtain s' t' where d: "e4_exec tok_transfer tok_balance e4_env (Deposit 2 30 2) s t = Ok (s', t')"
    unfolding p(1) by (auto elim!: e4_result_isE)
  have "overflow_checks e4_env" "self e4_env = 50" by (simp_all add: e4_env_def)
  from e4_price_never_falls [OF perigee_token.token_iface_axioms e4_env_run [OF p(1)] d this] d p(2,3)
  show ?thesis by auto
qed

text \<open>
  C15. A round trip makes no profit: redeeming right away all the shares a deposit brought returns
  at most the assets that were deposited, whoever redeems, and whatever happened to the asset token
  in between.
\<close>

theorem e4_round_trip_no_profit:
  assumes "token_iface transfer balance sound" and "e4_run transfer balance sound v cs s t"
    and "e4_deposit transfer e caller n receiver s t = Ok (x, s1, t1)" and "overflow_checks e"
    and "e4_redeem transfer e' caller' x receiver' owner s1 t2 = Ok (n', s2, t3)" and "overflow_checks e'"
  shows "n' \<le> n"
proof -
  have tot: "totals_ok s"
    using e4_inv_shares [OF token_iface.e4_run_inv [OF assms(1,2)]] by simp
  from assms(3,4) tot have d: "e4_delta receiver x n s s1" "x * (A s + 1000) \<le> n * (S s + 1000)"
    "0 < n" "0 < x" by (auto elim: e4_deposit_ok)
  then have tot1: "totals_ok s1" and eq: "S s1 = S s + x" "A s1 = A s + n"
    using tot by (auto simp: totals_ok_def e4_delta_def)
  have "n' * (S s1 + 1000) \<le> x * (A s1 + 1000)"
    using e4_redeem_ok [OF assms(5,6) tot1] by (simp add: e4_exit_def)
  also have "\<dots> = x * (A s + 1000) + x * n" by (simp add: eq algebra_simps)
  also have "\<dots> \<le> n * (S s + 1000) + x * n" using d(2) by simp
  also have "\<dots> = n * (S s1 + 1000)" by (simp add: eq algebra_simps)
  finally show ?thesis using tot1 by (simp add: mult_le_cancel_right totals_ok_def)
qed

theorem e4_round_trip_no_profit_witness:
  "\<exists>s t s1 t1 s2 t2 n'. e4_deposit tok_transfer e4_env 2 30 2 s t = Ok (30, s1, t1)
     \<and> e4_redeem tok_transfer e4_env 2 30 2 2 s1 t1 = Ok (n', s2, t2) \<and> n' \<le> 30"
proof -
  let ?start = "e4_play tok_transfer tok_balance e4_env [Initialize 9 1 4 1000, Deposit 2 60 2]
      fresh_e4_vault token_example"
  obtain s t where p: "?start = Ok (s, t)" by (rule e4_example_history)
  have "e4_result_is (\<lambda>s t. case e4_deposit tok_transfer e4_env 2 30 2 s t of
        Ok (x, s1, t1) \<Rightarrow> x = 30 \<and> is_ok (e4_redeem tok_transfer e4_env 2 30 2 2 s1 t1) | _ \<Rightarrow> False) ?start"
    by code_simp
  then obtain s1 t1 n' s2 t2 where d: "e4_deposit tok_transfer e4_env 2 30 2 s t = Ok (30, s1, t1)"
    "e4_redeem tok_transfer e4_env 2 30 2 2 s1 t1 = Ok (n', s2, t2)"
    unfolding p by (cases "e4_deposit tok_transfer e4_env 2 30 2 s t")
      (auto simp: e4_result_is_def is_ok_iff)
  have "overflow_checks e4_env" by (simp add: e4_env_def)
  from e4_round_trip_no_profit [OF perigee_token.token_iface_axioms e4_env_run [OF p] d(1) this d(2) this] d
  show ?thesis by blast
qed

text \<open>
  C16. Nobody loses shares without authority: when an accepted call lowers somebody's share balance,
  that account authorized it, or a spender did who held an unexpired allowance of the account that
  covers the loss and that shrinks by exactly the loss.
\<close>

theorem e4_shares_taken_with_authority:
  assumes "token_iface transfer balance sound" and "e4_run transfer balance sound v cs s t"
    and "e4_exec transfer balance e c s t = Ok (s', t')" and "overflow_checks e" and "self e = v"
    and "e4_balance_of s' a < e4_balance_of s a"
  shows "authorized e a \<or> (\<exists>p. authorized e p \<and>
    spends_allowance e a p (e4_balance_of s a - e4_balance_of s' a) s s')"
proof -
  note inv = token_iface.e4_run_inv [OF assms(1,2)]
  have tot: "totals_ok s" using e4_inv_shares [OF inv] by simp
  have loss: "e4_get_shares s' a < e4_get_shares s a" using assms(6) by (simp add: e4_balance_of_def)
  have exit: ?thesis
    if x: "e4_exit transfer e p w r x n s t s' t'" "p \<noteq> w \<longrightarrow> spends_allowance e w p x s s'" for p w r x n
  proof -
    have "a = w \<and> x = e4_get_shares s a - e4_get_shares s' a"
      using x(1) loss by (auto simp: e4_exit_def e4_delta_def e4_get_shares_def split: if_splits)
    then show ?thesis using x by (cases "p = w") (auto simp: e4_exit_def e4_balance_of_def)
  qed
  show ?thesis
  proof (cases c)
    case (Deposit b n r)
    with assms(3) obtain x where "e4_deposit transfer e b n r s t = Ok (x, s', t')" by (auto simp: e4_drop_def)
    from this assms(4) tot have "e4_delta r x n s s'" "0 < x" by (auto elim: e4_deposit_ok)
    then show ?thesis using loss by (auto simp: e4_delta_def e4_get_shares_def split: if_splits)
  next
    case (Mint b x r)
    with assms(3) obtain n where "e4_mint transfer e b x r s t = Ok (n, s', t')" by (auto simp: e4_drop_def)
    then have "e4_delta r x n s s'" "0 < x" by (auto elim: e4_mint_ok)
    then show ?thesis using loss by (auto simp: e4_delta_def e4_get_shares_def split: if_splits)
  next
    case (Withdraw b n r w)
    with assms(3) obtain x where "e4_withdraw transfer e b n r w s t = Ok (x, s', t')" by (auto simp: e4_drop_def)
    from e4_withdraw_ok [OF this assms(4) tot] show ?thesis by (intro exit) blast+
  next
    case (Redeem b x r w)
    with assms(3) obtain n where "e4_redeem transfer e b x r w s t = Ok (n, s', t')" by (auto simp: e4_drop_def)
    from e4_redeem_ok [OF this assms(4) tot] show ?thesis by (intro exit) blast+
  next
    case (PermitWithdraw p w n r)
    with assms(3) obtain x where "e4_permit_withdraw transfer e p w n r s t = Ok (x, s', t')"
      by (auto simp: e4_drop_def)
    from e4_permit_withdraw_ok [OF this assms(4) tot] show ?thesis by (intro exit) blast+
  next
    case (Harvest b)
    with assms(3) obtain p where h: "e4_harvest transfer balance e b s t = Ok (p, s', t')"
      by (auto simp: e4_drop_def)
    have "A s \<le> balance t (self e)" using inv assms(5) by (simp add: e4_inv_def)
    from h assms(4) this have "shares_of s' = shares_of s" by (auto elim: e4_harvest_ok)
    then show ?thesis using loss by (simp add: e4_get_shares_def)
  qed (use assms(3) loss in \<open>auto simp: e4_keep_def e4_initialize_def e4_approve_def e4_revoke_def
      e4_set_paused_def e4_set_verifier_def e4_set_admin_def e4_set_fee_recipient_def ok_iff
      store_allowance_def remove_allowance_def e4_get_shares_def\<close>)
qed

theorem e4_shares_taken_with_authority_witness:
  "\<exists>e s t s' t'. e4_exec tok_transfer tok_balance e (Redeem 1 10 1 2) s t = Ok (s', t')
     \<and> e4_balance_of s' 2 = e4_balance_of s 2 - 10 \<and> \<not> authorized e 2
     \<and> (\<exists>p. authorized e p \<and> spends_allowance e 2 p 10 s s')"
proof -
  let ?calls = "[Initialize 9 1 4 1000, Deposit 2 60 2, Approve 2 1 25 200]"
  let ?start = "e4_play tok_transfer tok_balance e4_env ?calls fresh_e4_vault token_example"
  let ?e = "e4_env\<lparr>authorized := (\<lambda>a. a = 1)\<rparr>"
  have "e4_result_is (\<lambda>s t. e4_balance_of s 2 = 60 \<and> e4_result_is (\<lambda>s' t'. e4_balance_of s' 2 = 50)
      (e4_exec tok_transfer tok_balance ?e (Redeem 1 10 1 2) s t)) ?start" by code_simp
  then obtain s t s' t' where p: "?start = Ok (s, t)" "e4_balance_of s 2 = 60"
    and r: "e4_exec tok_transfer tok_balance ?e (Redeem 1 10 1 2) s t = Ok (s', t')" "e4_balance_of s' 2 = 50"
    by (elim e4_result_isE conjE) blast
  have e: "overflow_checks ?e" "self ?e = 50" "\<not> authorized ?e 2" by (simp_all add: e4_env_def)
  have "e4_balance_of s' 2 < e4_balance_of s 2" using p(2) r(2) by simp
  from e4_shares_taken_with_authority
    [OF perigee_token.token_iface_axioms e4_env_run [OF p(1)] r(1) e(1,2) this]
  show ?thesis using r p(2) e(3) by (intro exI [of _ ?e] exI [of _ s] exI [of _ t] exI [of _ s'] exI [of _ t']) simp
qed

text \<open>
  A harvest is exact: the profit it reports is the vault's token balance less the recorded
  assets and is never negative; the fee is the configured share of the profit, rounded down, and is
  paid to the recipient in full; and what the vault records afterwards is exactly its token balance.
\<close>

lemma e4_harvest_exact:
  assumes "token_iface transfer balance sound" and "e4_run transfer balance sound v cs s t"
    and "e4_harvest transfer balance e a s t = Ok (profit, s', t')" and "overflow_checks e"
    and "self e = v" and "e4_config s = Some cfg" and "fee_recipient cfg \<noteq> v"
  shows "profit = balance t v - e4_get_total_assets s \<and> 0 \<le> profit
    \<and> balance t' (fee_recipient cfg) = balance t (fee_recipient cfg)
        + profit * uint (performance_fee_bps cfg) div 10000
    \<and> e4_get_total_assets s' = balance t' v \<and> e4_get_total_assets s \<le> e4_get_total_assets s'
    \<and> e4_get_total_supply s' = e4_get_total_supply s"
proof -
  note inv = token_iface.e4_run_inv [OF assms(1,2)]
  have cov: "A s \<le> balance t (self e)" and s: "sound t" using inv assms(5) by (simp_all add: e4_inv_def)
  from assms(3,4) cov obtain cfg' fee where h: "e4_config s = Some cfg'" "authorized e a" "cfg_admin cfg' = a"
    "profit = balance t v - A s" "fee = profit * uint (performance_fee_bps cfg') div 10000"
    "if 0 < fee then transfer (invoke_env e (asset cfg')) v (fee_recipient cfg') fee t = Ok t' else t' = t"
    "s' = s\<lparr>stored_assets := Some (balance t v - fee), e4_config := Some (cfg'\<lparr>last_harvest_ledger :=
       sequence e, last_harvest_profit := profit\<rparr>)\<rparr>"
    unfolding assms(5) [symmetric] by (rule e4_harvest_ok)
  have c: "cfg' = cfg" using h(1) assms(6) by simp
  have p: "0 \<le> profit" using cov assms(5) h(4) by simp
  then have f0: "0 \<le> fee" using h(5) by (simp add: pos_imp_zdiv_nonneg_iff)
  have "balance t' (fee_recipient cfg) = balance t (fee_recipient cfg) + fee \<and> balance t' v = balance t v - fee"
  proof (cases "0 < fee")
    case True
    then have tr: "transfer (invoke_env e (asset cfg')) v (fee_recipient cfg) fee t = Ok t'" using h(6) c by simp
    show ?thesis using token_iface.transfer_pair [OF assms(1) tr s f0] assms(7) by auto
  next
    case False
    then show ?thesis using h(6) f0 by simp
  qed
  moreover have "A s \<le> A s'" using token_iface.e4_inv_harvest [OF assms(1) inv assms(3-5)] ..
  ultimately show ?thesis using p h(4,5,7) c by simp
qed

text \<open>The state of the example: one million shares, and three million units after a harvest.\<close>

lemma e4_yield_history:
  obtains cs s t s1 t1 s2 t2 where "e4_run tok_transfer tok_balance tok_sound 50 cs s t"
    "e4_get_total_supply s = 1000000" "e4_get_total_assets s = 3000000"
    "e4_mint tok_transfer e4_env 0 1000000 0 s t = Ok (333556, s1, t1)"
    "e4_redeem tok_transfer e4_env 0 1000000 0 0 s1 t1 = Ok (1666444, s2, t2)"
proof -
  let ?calls = "[Initialize 9 1 4 0, Deposit 2 1000000 2]"
  let ?start = "e4_play tok_transfer tok_balance e4_env ?calls fresh_e4_vault token_rich"
  have "e4_result_is (\<lambda>s t. case tok_transfer e4_env 1 50 2000000 t of
        Ok t1 \<Rightarrow> e4_result_is (\<lambda>s t. e4_get_total_supply s = 1000000 \<and> e4_get_total_assets s = 3000000
            \<and> (case e4_mint tok_transfer e4_env 0 1000000 0 s t of
                 Ok (n, s1, t1) \<Rightarrow> n = 333556 \<and> e4_returns 1666444 (e4_redeem tok_transfer e4_env 0 1000000 0 0 s1 t1)
               | _ \<Rightarrow> False))
          (e4_exec tok_transfer tok_balance e4_env (Harvest 1) s t1)
      | _ \<Rightarrow> False) ?start" by code_simp
  then obtain s0 t0 t1 s t where p: "?start = Ok (s0, t0)" "tok_transfer e4_env 1 50 2000000 t0 = Ok t1"
    "e4_exec tok_transfer tok_balance e4_env (Harvest 1) s0 t1 = Ok (s, t)"
    "e4_get_total_supply s = 1000000 \<and> e4_get_total_assets s = 3000000
     \<and> (case e4_mint tok_transfer e4_env 0 1000000 0 s t of
          Ok (n, s1, t1) \<Rightarrow> n = 333556 \<and> e4_returns 1666444 (e4_redeem tok_transfer e4_env 0 1000000 0 0 s1 t1)
        | _ \<Rightarrow> False)"
    by (elim e4_result_isE) (auto elim!: e4_result_isE split: result.splits)
  have e: "self e4_env = 50" "overflow_checks e4_env" "\<not> authorized e4_env 50" by (simp_all add: e4_env_def)
  have "e4_run tok_transfer tok_balance tok_sound 50 ([] @ ?calls) s0 t0"
    by (rule e4_play_run [OF p(1) e4_start e]) (rule token_rich_sound)
  from e4_call [OF e4_run_donation [OF this p(2)] e p(3)]
  obtain cs where r: "e4_run tok_transfer tok_balance tok_sound 50 cs s t" by auto
  obtain s1 t1 s2 t2 where "e4_mint tok_transfer e4_env 0 1000000 0 s t = Ok (333556, s1, t1)"
    "e4_redeem tok_transfer e4_env 0 1000000 0 0 s1 t1 = Ok (1666444, s2, t2)"
    using p(4) by (cases "e4_mint tok_transfer e4_env 0 1000000 0 s t") (auto simp: e4_returns_iff)
  with p(4) r show thesis using that by blast
qed

text \<open>The arithmetic of the flaw: \<open>n\<close> is the ceiling of \<open>x * s / a\<close>, where the price is \<open>x * a / s\<close>.\<close>

lemma inverse_price_profit:
  fixes a s x n m :: int
  assumes "0 < a" "0 < s" "0 < x" "n * a < x * s + a" "x * s * s + a * (2 * s + x) \<le> x * a * a"
    and "m = x * (a + n) div (s + x)"
  shows "n < m"
proof -
  have "n * a * s \<le> x * s * s + a * s"
    using mult_right_mono [of "n * a" "x * s + a" s] assms by (simp add: algebra_simps)
  then have "a * (n * s + s + x) \<le> a * (x * a)" using assms(5) by (simp add: algebra_simps)
  then have "n * s + s + x \<le> x * a" using assms(1) by simp
  then have "(n + 1) * (s + x) \<le> x * (a + n)" by (simp add: algebra_simps)
  then have "(n + 1) * (s + x) div (s + x) \<le> m" using assms(2,3) unfolding assms(6) by (intro zdiv_mono1) auto
  then show ?thesis using assms(2,3) by simp
qed

text \<open>
  C34. \<open>mint\<close> sells shares at the inverse of their price: in every history, for every accepted mint,
  the price paid is the number of shares times the supply over the assets, rounded up, where a share is
  worth the assets over the supply. So once the vault has earned enough yield (with \<open>a\<close> and \<open>b\<close> the
  assets and the supply plus the virtual offset and \<open>x\<close> the shares: \<open>x * b\<^sup>2 + a * (2 * b + x) \<le> x * a\<^sup>2\<close>)
  redeeming the new shares at once pays out more than the mint cost, at the expense of the other
  holders. The conversion from shares to assets that rounds up, which the mint needs, is never used.
\<close>

theorem e4_mint_sells_below_price:
  assumes "token_iface transfer balance sound" and "e4_run transfer balance sound v cs s t"
    and "overflow_checks e" and "e4_mint transfer e caller x receiver s t = Ok (n, s1, t1)"
    and "a = e4_get_total_assets s + VIRTUAL_OFFSET" and "b = e4_get_total_supply s + VIRTUAL_OFFSET"
  shows "x * b \<le> n * a \<and> n * a < x * b + a
    \<and> (x * b * b + a * (2 * b + x) \<le> x * a * a \<longrightarrow>
        (\<forall>e' spender r m s2 t' t2. overflow_checks e' \<longrightarrow>
           e4_redeem transfer e' spender x r receiver s1 t' = Ok (m, s2, t2) \<longrightarrow> n < m))"
proof -
  have tot: "totals_ok s" using e4_inv_shares [OF token_iface.e4_run_inv [OF assms(1,2)]] by blast
  then have ab: "0 < a" "0 < b" by (auto simp: assms(5,6) totals_ok_def VIRTUAL_OFFSET_def)
  obtain cfg :: vault_config where m: "0 < n" "0 < x" "e4_delta receiver x n s s1"
    "assets_to_shares_ceil e s x = Ok n" using assms(4) by (rule e4_mint_ok)
  have c: "x * b \<le> n * a" "n * a < x * b + a"
    using assets_to_shares_ceil_ok [OF m(4) assms(3) tot] assets_to_shares_ceil_less [OF m(4) assms(3) tot] m(2)
    by (simp_all add: assms(5,6) VIRTUAL_OFFSET_def)
  have s1: "S s1 = S s + x" "A s1 = A s + n" using m(3) by (simp_all add: e4_delta_def)
  then have tot1: "totals_ok s1" using tot m(1,2) by (simp add: totals_ok_def)
  have "n < k" if y: "x * b * b + a * (2 * b + x) \<le> x * a * a" and o: "overflow_checks e'"
    and d: "e4_redeem transfer e' spender x r receiver s1 t' = Ok (k, s2, t2)" for e' spender r k s2 t' t2
  proof (rule inverse_price_profit [OF ab m(2) c(2) y])
    have "shares_to_assets_floor e' s1 x = Ok k" using e4_redeem_ok [OF d o tot1] by blast
    from shares_to_assets_floor_eq [OF this o tot1] m(2) show "k = x * (a + n) div (b + x)"
      by (simp add: s1 assms(5,6) VIRTUAL_OFFSET_def algebra_simps)
  qed
  with c show ?thesis by blast
qed

theorem e4_mint_sells_below_price_witness:
  "\<exists>cs s t n s1 t1 m s2 t2. e4_run tok_transfer tok_balance tok_sound 50 cs s t
     \<and> e4_mint tok_transfer e4_env 0 1000000 0 s t = Ok (n, s1, t1)
     \<and> e4_redeem tok_transfer e4_env 0 1000000 0 0 s1 t1 = Ok (m, s2, t2) \<and> n < m"
proof -
  obtain cs s t n s1 t1 m s2 t2 where r: "e4_run tok_transfer tok_balance tok_sound 50 cs s t"
    "e4_get_total_supply s = 1000000" "e4_get_total_assets s = 3000000"
    and m: "e4_mint tok_transfer e4_env 0 1000000 0 s t = Ok (n, s1, t1)"
    and d: "e4_redeem tok_transfer e4_env 0 1000000 0 0 s1 t1 = Ok (m, s2, t2)"
    by (rule e4_yield_history)
  have o: "overflow_checks e4_env" by (simp add: e4_env_def)
  have "n < m"
    using e4_mint_sells_below_price [OF perigee_token.token_iface_axioms r(1) o m refl refl] d o
    by (simp add: r(2,3) VIRTUAL_OFFSET_def) blast
  with r(1) m d show ?thesis by blast
qed

end
