(* ===== verification/Fee_Engine.thy ===== *)
theory Fee_Engine
  imports Prelude
begin

text \<open>
  The fee engine, \<open>contracts/fee_engine/src/lib.rs\<close>: performance fees above a high-water mark,
  management fees that accrue with time, rebates for staked governance tokens, the history of fee
  records, and sponsors. The governance token is another contract, so its \<open>transfer\<close> is an
  argument of \<open>stake\<close> and \<open>unstake\<close>. \<open>compute_fees\<close> moves \<open>env\<close> into its first call and uses it
  again; the model passes the same environment to all of its calls, as the clones of
  \<open>compute_fees_sponsored\<close> do.
\<close>

section \<open>State\<close>

definition fe_BPS_DENOMINATOR :: i128 where "fe_BPS_DENOMINATOR = 10000"
definition SECONDS_PER_YEAR :: i128 where "SECONDS_PER_YEAR = 31536000"
definition MAX_FEE_BPS :: u32 where "MAX_FEE_BPS = 2000"
definition MAX_TIERS :: u32 where "MAX_TIERS = 8"

datatype fe_error =
    NotInitialized | AlreadyInitialized | Unauthorized | ConfigNotSet | VaultNotFound
  | InvalidAmount | InvalidTier | TooManyTiers | InsufficientStake | MathOverflow
  | InvalidFeeSplit | FeeTooHigh | Reentrancy | SponsorNotAllowed | HistoryOutOfBounds

record fee_config =
  management_fee_bps :: u32
  performance_fee_bps :: u32
  protocol_share_bps :: u32
  vault_fee_recipient :: address
  treasury :: address

record vault_state =
  principal :: i128
  high_water_mark :: i128
  last_crystallized :: i128
  last_accrual :: u64
  fees_paid :: i128

record stake =
  staked :: i128
  tier :: u32

record discount_tier =
  min_stake :: i128
  rebate_bps :: u32

record performance_tier =
  min_profit :: i128
  fee_bps :: u32

record fee_record =
  rec_seq :: u64
  rec_vault :: address
  rec_payer :: address
  rec_gross :: i128
  rec_discount :: i128
  rec_net :: i128
  rec_vault_share :: i128
  rec_protocol_share :: i128
  rec_timestamp :: u64
  rec_kind :: u32

record fee_breakdown =
  management_fee :: i128
  performance_fee :: i128
  fee_total :: i128
  discount :: i128
  net_total :: i128
  vault_share :: i128
  protocol_share :: i128

record fee_engine =
  fe_admin_slot :: "address option"
  fe_config :: "fee_config option"
  staking_token :: "address option"
  discount_tiers :: "discount_tier list option"
  perf_tiers :: "performance_tier list option"
  fe_vaults :: "address \<rightharpoonup> vault_state"
  fe_stakes :: "address \<rightharpoonup> stake"
  reentrancy_lock :: "bool option"
  fee_seq :: "u64 option"
  fee_history :: "u64 \<rightharpoonup> fee_record"
  fee_sponsor :: "address \<rightharpoonup> address"

type_synonym fe_result = "(i128 \<times> fee_engine, fe_error) result"

section \<open>Helpers\<close>

definition fe_require_admin :: "env \<Rightarrow> address \<Rightarrow> fee_engine \<Rightarrow> (unit, fe_error) result" where
  "fe_require_admin e admin s =
     and_then (ok_or (fe_admin_slot s) NotInitialized) (\<lambda>stored.
       if admin \<noteq> stored then Err Unauthorized else require_auth e admin)"

definition fe_load_config :: "fee_engine \<Rightarrow> (fee_config, fe_error) result" where
  "fe_load_config s = ok_or (fe_config s) ConfigNotSet"

definition load_vault :: "fee_engine \<Rightarrow> address \<Rightarrow> (vault_state, fe_error) result" where
  "load_vault s vault = ok_or (fe_vaults s vault) VaultNotFound"

definition default_vault_state :: vault_state where
  "default_vault_state = \<lparr>principal = 0, high_water_mark = 0, last_crystallized = 0,
     last_accrual = 0, fees_paid = 0\<rparr>"

definition load_vault_or_default :: "fee_engine \<Rightarrow> address \<Rightarrow> vault_state" where
  "load_vault_or_default s vault =
     (case fe_vaults s vault of None \<Rightarrow> default_vault_state | Some st \<Rightarrow> st)"

definition save_vault :: "address \<Rightarrow> vault_state \<Rightarrow> fee_engine \<Rightarrow> fee_engine" where
  "save_vault vault st s = s\<lparr>fe_vaults := (fe_vaults s)(vault \<mapsto> st)\<rparr>"

definition default_stake :: stake where
  "default_stake = \<lparr>staked = 0, tier = 0\<rparr>"

definition load_stake_or_default :: "fee_engine \<Rightarrow> address \<Rightarrow> stake" where
  "load_stake_or_default s staker =
     (case fe_stakes s staker of None \<Rightarrow> default_stake | Some st \<Rightarrow> st)"

definition save_stake :: "address \<Rightarrow> stake \<Rightarrow> fee_engine \<Rightarrow> fee_engine" where
  "save_stake staker st s = s\<lparr>fe_stakes := (fe_stakes s)(staker \<mapsto> st)\<rparr>"

definition load_staking_token :: "fee_engine \<Rightarrow> (address, fe_error) result" where
  "load_staking_token s = ok_or (staking_token s) NotInitialized"

definition load_tiers :: "'a list option \<Rightarrow> 'a list" where
  "load_tiers stored = (case stored of None \<Rightarrow> [] | Some tiers \<Rightarrow> tiers)"

definition fe_checked_add :: "i128 \<Rightarrow> i128 \<Rightarrow> (i128, fe_error) result" where
  "fe_checked_add a b = ok_or (checked_add a b) MathOverflow"

text \<open>The loops over the tiers, from index \<open>i\<close> on: a later tier that qualifies wins.\<close>

fun tier_loop :: "i128 \<Rightarrow> u32 \<Rightarrow> discount_tier list \<Rightarrow> u32 \<Rightarrow> u32" where
  "tier_loop amount i [] best = best"
| "tier_loop amount i (x # xs) best =
     tier_loop amount (i + 1) xs (if min_stake x \<le> amount then i + 1 else best)"

definition tier_for_stake :: "fee_engine \<Rightarrow> i128 \<Rightarrow> u32" where
  "tier_for_stake s amount = tier_loop amount 0 (load_tiers (discount_tiers s)) 0"

definition rebate_for_stake :: "fee_engine \<Rightarrow> i128 \<Rightarrow> (u32, fe_error) result" where
  "rebate_for_stake s amount =
     (let t = tier_for_stake s amount; tiers = load_tiers (discount_tiers s)
      in if t = 0 then Ok 0
         else if unat (t - 1) < length tiers then Ok (rebate_bps (tiers ! unat (t - 1)))
         else Panic)"

fun rate_loop :: "i128 \<Rightarrow> performance_tier list \<Rightarrow> u32 option \<Rightarrow> u32 option" where
  "rate_loop profit [] rate = rate"
| "rate_loop profit (x # xs) rate =
     rate_loop profit xs (if min_profit x \<le> profit then Some (fee_bps x) else rate)"

definition perf_rate_for_profit :: "fee_engine \<Rightarrow> i128 \<Rightarrow> u32 option" where
  "perf_rate_for_profit s profit = rate_loop profit (load_tiers (perf_tiers s)) None"

definition unwrap_or :: "'a option \<Rightarrow> 'a \<Rightarrow> 'a" where
  "unwrap_or x d = (case x of None \<Rightarrow> d | Some y \<Rightarrow> y)"

section \<open>Setup and configuration\<close>

definition fe_initialize :: "env \<Rightarrow> address \<Rightarrow> address \<Rightarrow> fee_engine \<Rightarrow> (fee_engine, fe_error) result" where
  "fe_initialize e admin token s =
     (if fe_admin_slot s \<noteq> None then Err AlreadyInitialized
      else and_then (require_auth e admin) (\<lambda>_.
        Ok (s\<lparr>fe_admin_slot := Some admin, staking_token := Some token\<rparr>)))"

definition fe_admin :: "fee_engine \<Rightarrow> (address, fe_error) result" where
  "fe_admin s = ok_or (fe_admin_slot s) NotInitialized"

definition fe_set_fee_config :: "env \<Rightarrow> address \<Rightarrow> fee_config \<Rightarrow> fee_engine \<Rightarrow> (fee_engine, fe_error) result" where
  "fe_set_fee_config e admin config s =
     and_then (fe_require_admin e admin s) (\<lambda>_.
       if MAX_FEE_BPS < management_fee_bps config \<or> MAX_FEE_BPS < performance_fee_bps config
       then Err FeeTooHigh
       else if 10000 < protocol_share_bps config then Err InvalidFeeSplit
       else Ok (s\<lparr>fe_config := Some config\<rparr>))"

definition fe_get_fee_config :: "fee_engine \<Rightarrow> (fee_config, fe_error) result" where
  "fe_get_fee_config s = fe_load_config s"

text \<open>The loops of the two validations; \<open>prev\<close> is the tier before, if there is one.\<close>

fun discount_tiers_loop :: "i128 option \<Rightarrow> discount_tier list \<Rightarrow> (unit, fe_error) result" where
  "discount_tiers_loop prev [] = Ok ()"
| "discount_tiers_loop prev (x # xs) =
     (if 10000 < rebate_bps x then Err InvalidTier
      else if (case prev of None \<Rightarrow> False | Some m \<Rightarrow> min_stake x \<le> m) then Err InvalidTier
      else discount_tiers_loop (Some (min_stake x)) xs)"

definition validate_discount_tiers :: "discount_tier list \<Rightarrow> (unit, fe_error) result" where
  "validate_discount_tiers tiers =
     (if length tiers = 0 \<or> unat MAX_TIERS < length tiers then Err TooManyTiers
      else discount_tiers_loop None tiers)"

fun perf_tiers_loop :: "i128 option \<Rightarrow> performance_tier list \<Rightarrow> (unit, fe_error) result" where
  "perf_tiers_loop prev [] = Ok ()"
| "perf_tiers_loop prev (x # xs) =
     (if MAX_FEE_BPS < fee_bps x then Err FeeTooHigh
      else if (case prev of None \<Rightarrow> False | Some m \<Rightarrow> min_profit x \<le> m) then Err InvalidTier
      else perf_tiers_loop (Some (min_profit x)) xs)"

definition validate_perf_tiers :: "performance_tier list \<Rightarrow> (unit, fe_error) result" where
  "validate_perf_tiers tiers =
     (if length tiers = 0 \<or> unat MAX_TIERS < length tiers then Err TooManyTiers
      else perf_tiers_loop None tiers)"

definition fe_set_discount_tiers ::
  "env \<Rightarrow> address \<Rightarrow> discount_tier list \<Rightarrow> fee_engine \<Rightarrow> (fee_engine, fe_error) result" where
  "fe_set_discount_tiers e admin tiers s =
     and_then (fe_require_admin e admin s) (\<lambda>_.
     and_then (validate_discount_tiers tiers) (\<lambda>_.
       Ok (s\<lparr>discount_tiers := Some tiers\<rparr>)))"

definition fe_get_discount_tiers :: "fee_engine \<Rightarrow> discount_tier list" where
  "fe_get_discount_tiers s = load_tiers (discount_tiers s)"

definition fe_set_perf_tiers ::
  "env \<Rightarrow> address \<Rightarrow> performance_tier list \<Rightarrow> fee_engine \<Rightarrow> (fee_engine, fe_error) result" where
  "fe_set_perf_tiers e admin tiers s =
     and_then (fe_require_admin e admin s) (\<lambda>_.
     and_then (validate_perf_tiers tiers) (\<lambda>_.
       Ok (s\<lparr>perf_tiers := Some tiers\<rparr>)))"

definition fe_get_perf_tiers :: "fee_engine \<Rightarrow> performance_tier list" where
  "fe_get_perf_tiers s = load_tiers (perf_tiers s)"

section \<open>Staking\<close>

definition fe_stake ::
  "('t, 'x) transfer \<Rightarrow> env \<Rightarrow> address \<Rightarrow> i128 \<Rightarrow> fee_engine \<Rightarrow> 't \<Rightarrow> (fee_engine \<times> 't, fe_error) result" where
  "fe_stake transfer e staker amount s t =
     and_then (require_auth e staker) (\<lambda>_.
       if amount \<le> 0 then Err InvalidAmount
       else
         and_then (load_staking_token s) (\<lambda>token.
         and_then (sub_call (transfer (invoke_env e token) staker (self e) amount t)) (\<lambda>t.
         and_then (fe_checked_add (staked (load_stake_or_default s staker)) amount) (\<lambda>n.
           Ok (save_stake staker \<lparr>staked = n, tier = tier_for_stake s n\<rparr> s, t)))))"

definition fe_unstake ::
  "('t, 'x) transfer \<Rightarrow> env \<Rightarrow> address \<Rightarrow> i128 \<Rightarrow> fee_engine \<Rightarrow> 't \<Rightarrow> (fee_engine \<times> 't, fe_error) result" where
  "fe_unstake transfer e staker amount s t =
     and_then (require_auth e staker) (\<lambda>_.
       if amount \<le> 0 then Err InvalidAmount
       else if staked (load_stake_or_default s staker) < amount then Err InsufficientStake
       else
         and_then (load_staking_token s) (\<lambda>token.
         and_then (sub_call (transfer (invoke_env e token) (self e) staker amount t)) (\<lambda>t.
         and_then (plain_i128 e (staked (load_stake_or_default s staker) - amount)) (\<lambda>n.
           Ok (save_stake staker \<lparr>staked = n, tier = tier_for_stake s n\<rparr> s, t)))))"

definition fe_get_stake :: "fee_engine \<Rightarrow> address \<Rightarrow> stake" where
  "fe_get_stake s staker = load_stake_or_default s staker"

section \<open>Vaults\<close>

definition fe_record_deposit :: "env \<Rightarrow> address \<Rightarrow> i128 \<Rightarrow> fee_engine \<Rightarrow> (fee_engine, fe_error) result" where
  "fe_record_deposit e vault amount s =
     and_then (require_auth e vault) (\<lambda>_.
       if amount \<le> 0 then Err InvalidAmount
       else
         (let state = load_vault_or_default s vault
          in and_then (fe_checked_add (principal state) amount) (\<lambda>p.
             let state = state\<lparr>principal := p\<rparr>;
                 state = (if high_water_mark state < p
                          then state\<lparr>high_water_mark := p, last_crystallized := p\<rparr> else state)
             in Ok (save_vault vault (state\<lparr>last_accrual := timestamp e\<rparr>) s))))"

definition fe_record_withdrawal :: "env \<Rightarrow> address \<Rightarrow> i128 \<Rightarrow> fee_engine \<Rightarrow> (fee_engine, fe_error) result" where
  "fe_record_withdrawal e vault amount s =
     and_then (require_auth e vault) (\<lambda>_.
       if amount \<le> 0 then Err InvalidAmount
       else
         (let state = load_vault_or_default s vault
          in if principal state < amount then Err InvalidAmount
             else and_then (plain_i128 e (principal state - amount)) (\<lambda>p.
               Ok (save_vault vault (state\<lparr>principal := p\<rparr>) s))))"

definition fe_get_vault :: "fee_engine \<Rightarrow> address \<Rightarrow> (vault_state, fe_error) result" where
  "fe_get_vault s vault = load_vault s vault"

section \<open>The lock, the history and sponsors\<close>

definition fe_reentrancy_enter :: "fee_engine \<Rightarrow> (fee_engine, fe_error) result" where
  "fe_reentrancy_enter s =
     (if unwrap_or (reentrancy_lock s) False then Err Reentrancy
      else Ok (s\<lparr>reentrancy_lock := Some True\<rparr>))"

definition fe_reentrancy_exit :: "fee_engine \<Rightarrow> fee_engine" where
  "fe_reentrancy_exit s = s\<lparr>reentrancy_lock := Some False\<rparr>"

definition next_fee_seq :: "fee_engine \<Rightarrow> u64 \<times> fee_engine" where
  "next_fee_seq s =
     (let n = saturating_add_word (unwrap_or (fee_seq s) 0) 1 in (n, s\<lparr>fee_seq := Some n\<rparr>))"

definition record_fee_event ::
  "env \<Rightarrow> address \<Rightarrow> address \<Rightarrow> i128 \<Rightarrow> i128 \<Rightarrow> i128 \<Rightarrow> i128 \<Rightarrow> i128 \<Rightarrow> u32 \<Rightarrow> fee_engine \<Rightarrow> fee_engine" where
  "record_fee_event e vault payer gross disc net vshare pshare kind s =
     (let (seq, s) = next_fee_seq s
      in s\<lparr>fee_history := (fee_history s)(seq \<mapsto>
           \<lparr>rec_seq = seq, rec_vault = vault, rec_payer = payer, rec_gross = gross,
            rec_discount = disc, rec_net = net, rec_vault_share = vshare,
            rec_protocol_share = pshare, rec_timestamp = timestamp e, rec_kind = kind\<rparr>)\<rparr>)"

definition fe_fee_history_len :: "fee_engine \<Rightarrow> u64" where
  "fe_fee_history_len s = unwrap_or (fee_seq s) 0"

definition fe_get_fee_record :: "fee_engine \<Rightarrow> u64 \<Rightarrow> (fee_record, fe_error) result" where
  "fe_get_fee_record s seq = ok_or (fee_history s seq) HistoryOutOfBounds"

definition fe_set_fee_sponsor ::
  "env \<Rightarrow> address \<Rightarrow> address \<Rightarrow> bool \<Rightarrow> fee_engine \<Rightarrow> (fee_engine, fe_error) result" where
  "fe_set_fee_sponsor e user sponsor allowed s =
     and_then (require_auth e user) (\<lambda>_.
       Ok (s\<lparr>fee_sponsor := (fee_sponsor s)(user := (if allowed then Some sponsor else None))\<rparr>))"

definition fe_get_fee_sponsor :: "fee_engine \<Rightarrow> address \<Rightarrow> address option" where
  "fe_get_fee_sponsor s user = fee_sponsor s user"

definition require_payer_or_sponsor ::
  "env \<Rightarrow> address \<Rightarrow> address \<Rightarrow> fee_engine \<Rightarrow> (unit, fe_error) result" where
  "require_payer_or_sponsor e user payer s =
     (if payer = user then require_auth e payer
      else and_then (require_auth e payer) (\<lambda>_.
        if fee_sponsor s user = Some payer then Ok () else Err SponsorNotAllowed))"

definition fe_split_fee :: "i128 \<Rightarrow> u32 \<Rightarrow> (i128 \<times> i128, fe_error) result" where
  "fe_split_fee fee bps =
     (if 10000 < bps then Err InvalidFeeSplit
      else
        and_then (ok_or (checked_mul fee (uint bps)) MathOverflow) (\<lambda>scaled.
        and_then (div_i128 scaled fe_BPS_DENOMINATOR) (\<lambda>protocol.
        and_then (ok_or (checked_sub fee protocol) MathOverflow) (\<lambda>vault.
          Ok (vault, protocol)))))"

section \<open>Fees\<close>

text \<open>
  The lock is taken, the closure runs, and the lock is released whatever the closure returned; an
  error then discards the writes of the invocation, the release included.
\<close>

definition with_lock :: "(fee_engine \<Rightarrow> fe_result) \<Rightarrow> fee_engine \<Rightarrow> fe_result" where
  "with_lock body s =
     and_then (fe_reentrancy_enter s) (\<lambda>s.
     and_then (body s) (\<lambda>(fee, s).
       Ok (fee, fe_reentrancy_exit s)))"

definition charge_record :: "env \<Rightarrow> address \<Rightarrow> fee_config \<Rightarrow> i128 \<Rightarrow> u32 \<Rightarrow> fee_engine \<Rightarrow> (fee_engine, fe_error) result" where
  "charge_record e vault config fee kind s =
     (if 0 < fee
      then and_then (fe_split_fee fee (protocol_share_bps config)) (\<lambda>(vshare, pshare).
        Ok (record_fee_event e vault vault fee 0 fee vshare pshare kind s))
      else Ok s)"

definition accrue_body :: "env \<Rightarrow> address \<Rightarrow> i128 \<Rightarrow> fee_engine \<Rightarrow> fe_result" where
  "accrue_body e vault aum s =
     and_then (fe_load_config s) (\<lambda>config.
     and_then (load_vault s vault) (\<lambda>state.
       let elapsed = saturating_sub_word (timestamp e) (last_accrual state)
       in and_then
            (if elapsed = 0 \<or> aum \<le> 0 then Ok 0
             else
               and_then (ok_or (checked_mul aum (uint (management_fee_bps config))) MathOverflow) (\<lambda>x.
               and_then (ok_or (checked_mul x (uint elapsed)) MathOverflow) (\<lambda>y.
                 div_i128 y (fe_BPS_DENOMINATOR * SECONDS_PER_YEAR)))) (\<lambda>fee.
          and_then (fe_checked_add (fees_paid state) fee) (\<lambda>paid.
          and_then
            (charge_record e vault config fee 1
              (save_vault vault (state\<lparr>last_accrual := timestamp e, fees_paid := paid\<rparr>) s)) (\<lambda>s.
            Ok (fee, s))))))"

definition fe_accrue_management_fee :: "env \<Rightarrow> address \<Rightarrow> i128 \<Rightarrow> fee_engine \<Rightarrow> fe_result" where
  "fe_accrue_management_fee e vault aum = with_lock (accrue_body e vault aum)"

definition crystallize_body :: "env \<Rightarrow> address \<Rightarrow> i128 \<Rightarrow> fee_engine \<Rightarrow> fe_result" where
  "crystallize_body e vault nav s =
     and_then (fe_load_config s) (\<lambda>config.
     and_then (load_vault s vault) (\<lambda>state.
       if high_water_mark state < nav then
         and_then (plain_i128 e (nav - high_water_mark state)) (\<lambda>profit.
         let rate = unwrap_or (perf_rate_for_profit s profit) (performance_fee_bps config)
         in and_then (ok_or (checked_mul profit (uint rate)) MathOverflow) (\<lambda>x.
            and_then (div_i128 x fe_BPS_DENOMINATOR) (\<lambda>fee.
            and_then (fe_checked_add (fees_paid state) fee) (\<lambda>paid.
            and_then
              (charge_record e vault config fee 2
                (save_vault vault
                  (state\<lparr>high_water_mark := nav, last_crystallized := nav, fees_paid := paid\<rparr>) s)) (\<lambda>s.
              Ok (fee, s))))))
       else if nav < last_crystallized state then
         and_then (plain_i128 e (last_crystallized state - nav)) (\<lambda>loss.
         let rate = unwrap_or (perf_rate_for_profit s loss) (performance_fee_bps config)
         in and_then (ok_or (checked_mul loss (uint rate)) MathOverflow) (\<lambda>x.
            and_then (div_i128 x fe_BPS_DENOMINATOR) (\<lambda>clawback.
              Ok (0, save_vault vault
                       (state\<lparr>fees_paid := saturating_sub (fees_paid state) clawback,
                              last_crystallized := nav\<rparr>) s))))
       else Ok (0, s)))"

definition fe_crystallize :: "env \<Rightarrow> address \<Rightarrow> i128 \<Rightarrow> fee_engine \<Rightarrow> fe_result" where
  "fe_crystallize e vault nav = with_lock (crystallize_body e vault nav)"

definition fe_compute_fees ::
  "env \<Rightarrow> address \<Rightarrow> i128 \<Rightarrow> fee_engine \<Rightarrow> (fee_breakdown \<times> fee_engine, fe_error) result" where
  "fe_compute_fees e vault nav s =
     and_then (fe_accrue_management_fee e vault nav s) (\<lambda>(mfee, s).
     and_then (fe_crystallize e vault nav s) (\<lambda>(pfee, s).
     and_then (fe_load_config s) (\<lambda>config.
     and_then (fe_checked_add mfee pfee) (\<lambda>total.
     and_then (rebate_for_stake s (staked (load_stake_or_default s vault))) (\<lambda>rebate.
     and_then (ok_or (checked_mul total (uint rebate)) MathOverflow) (\<lambda>x.
     and_then (div_i128 x fe_BPS_DENOMINATOR) (\<lambda>disc.
     and_then (ok_or (checked_sub total disc) MathOverflow) (\<lambda>net.
     and_then (fe_split_fee net (protocol_share_bps config)) (\<lambda>(vshare, pshare).
       Ok (\<lparr>management_fee = mfee, performance_fee = pfee, fee_total = total, discount = disc,
             net_total = net, vault_share = vshare, protocol_share = pshare\<rparr>, s))))))))))"

definition fe_compute_fees_sponsored ::
  "env \<Rightarrow> address \<Rightarrow> address \<Rightarrow> i128 \<Rightarrow> fee_engine \<Rightarrow> (fee_breakdown \<times> fee_engine, fe_error) result" where
  "fe_compute_fees_sponsored e vault payer nav s =
     and_then (require_payer_or_sponsor e vault payer s) (\<lambda>_.
     and_then (fe_compute_fees e vault nav s) (\<lambda>(b, s).
       Ok (b, if 0 < net_total b
              then record_fee_event e vault payer (fee_total b) (discount b) (net_total b)
                     (vault_share b) (protocol_share b) 3 s
              else s)))"

section \<open>Calls\<close>

datatype fe_call =
    Initialize address address
  | SetFeeConfig address fee_config
  | SetDiscountTiers address "discount_tier list"
  | SetPerfTiers address "performance_tier list"
  | Stake address i128
  | Unstake address i128
  | RecordDeposit address i128
  | RecordWithdrawal address i128
  | AccrueManagementFee address i128
  | Crystallize address i128
  | ComputeFees address i128
  | ComputeFeesSponsored address address i128
  | SetFeeSponsor address address bool

definition fe_keep :: "'t \<Rightarrow> (fee_engine, fe_error) result \<Rightarrow> (fee_engine \<times> 't, fe_error) result" where
  "fe_keep t m = and_then m (\<lambda>s. Ok (s, t))"

definition fe_drop :: "'t \<Rightarrow> ('r \<times> fee_engine, fe_error) result \<Rightarrow> (fee_engine \<times> 't, fe_error) result" where
  "fe_drop t m = and_then m (\<lambda>(r, s). Ok (s, t))"

fun fe_exec ::
  "('t, 'x) transfer \<Rightarrow> env \<Rightarrow> fe_call \<Rightarrow> fee_engine \<Rightarrow> 't \<Rightarrow> (fee_engine \<times> 't, fe_error) result" where
  "fe_exec tr e (Initialize a k) s t = fe_keep t (fe_initialize e a k s)"
| "fe_exec tr e (SetFeeConfig a c) s t = fe_keep t (fe_set_fee_config e a c s)"
| "fe_exec tr e (SetDiscountTiers a x) s t = fe_keep t (fe_set_discount_tiers e a x s)"
| "fe_exec tr e (SetPerfTiers a x) s t = fe_keep t (fe_set_perf_tiers e a x s)"
| "fe_exec tr e (Stake a n) s t = fe_stake tr e a n s t"
| "fe_exec tr e (Unstake a n) s t = fe_unstake tr e a n s t"
| "fe_exec tr e (RecordDeposit v n) s t = fe_keep t (fe_record_deposit e v n s)"
| "fe_exec tr e (RecordWithdrawal v n) s t = fe_keep t (fe_record_withdrawal e v n s)"
| "fe_exec tr e (AccrueManagementFee v n) s t = fe_drop t (fe_accrue_management_fee e v n s)"
| "fe_exec tr e (Crystallize v n) s t = fe_drop t (fe_crystallize e v n s)"
| "fe_exec tr e (ComputeFees v n) s t = fe_drop t (fe_compute_fees e v n s)"
| "fe_exec tr e (ComputeFeesSponsored v p n) s t = fe_drop t (fe_compute_fees_sponsored e v p n s)"
| "fe_exec tr e (SetFeeSponsor u p b) s t = fe_keep t (fe_set_fee_sponsor e u p b s)"

definition fresh_fee_engine :: fee_engine where
  "fresh_fee_engine = \<lparr>fe_admin_slot = None, fe_config = None, staking_token = None,
     discount_tiers = None, perf_tiers = None, fe_vaults = Map.empty, fe_stakes = Map.empty,
     reentrancy_lock = None, fee_seq = None, fee_history = Map.empty, fee_sponsor = Map.empty\<rparr>"

text \<open>
  Histories of the engine at address \<open>v\<close> and its governance token: accepted calls, in transactions
  that do not carry the engine's own signature and in a build that checks its arithmetic, and in
  between anything that others do with the token, which can only add to the engine's balance.
\<close>

inductive fe_run ::
  "('t, 'x) transfer \<Rightarrow> 't balance \<Rightarrow> ('t \<Rightarrow> bool) \<Rightarrow> address \<Rightarrow> fee_engine \<Rightarrow> 't \<Rightarrow> bool"
  for tr ba sound v where
  fe_start: "sound t \<Longrightarrow> fe_run tr ba sound v fresh_fee_engine t"
| fe_call: "fe_run tr ba sound v s t \<Longrightarrow> self e = v \<Longrightarrow> overflow_checks e \<Longrightarrow> \<not> authorized e v \<Longrightarrow>
    fe_exec tr e c s t = Ok (s', t') \<Longrightarrow> fe_run tr ba sound v s' t'"
| fe_others: "fe_run tr ba sound v s t \<Longrightarrow> sound t' \<Longrightarrow> ba t v \<le> ba t' v \<Longrightarrow>
    fe_run tr ba sound v s t'"

interpretation fe_gate: admin_gate fe_require_admin fe_admin_slot
  by unfold_locales (auto simp: fe_require_admin_def split: if_splits)

interpretation engine_split: fee_split fe_split_fee
proof
  fix fee bps v p
  assume "fe_split_fee fee bps = Ok (v, p)"
  then have "p = (fee * uint bps) sdiv 10000" and "v = fee - p"
    by (auto simp: fe_split_fee_def fe_BPS_DENOMINATOR_def div_i128_def ok_iff)
  then show "v = fee - p \<and> (0 \<le> fee \<longrightarrow> p = fee * uint bps div 10000)"
    by (auto simp: sdiv_nonneg)
qed

end
