(* ===== verification/Fee_Accounts.thy ===== *)
theory Fee_Accounts
  imports Fee_Engine Token
begin

text \<open>
  What the fee engine promises over its whole life: performance fees stay below a fifth of the
  high-water mark, the history of fee records is complete, stakes are backed by tokens, and a charge
  is split without loss.
\<close>

section \<open>Tiers\<close>

definition tier_spec :: "('a \<Rightarrow> i128) \<Rightarrow> ('a \<Rightarrow> u32) \<Rightarrow> u32 \<Rightarrow> 'a list \<Rightarrow> bool" where
  "tier_spec from rate cap xs \<longleftrightarrow>
     length xs \<le> 8 \<and> (\<forall>x\<in>set xs. rate x \<le> cap) \<and> sorted_wrt (\<lambda>x y. from x < from y) xs"

lemma discount_loop_spec:
  "discount_tiers_loop prev xs = Ok u \<Longrightarrow>
     (\<forall>x\<in>set xs. rebate_bps x \<le> 10000 \<and> (\<forall>m. prev = Some m \<longrightarrow> m < min_stake x))
     \<and> sorted_wrt (\<lambda>x y. min_stake x < min_stake y) xs"
  by (induction prev xs rule: discount_tiers_loop.induct) (fastforce simp: ok_iff not_less split: option.splits)+

lemma perf_loop_spec:
  "perf_tiers_loop prev xs = Ok u \<Longrightarrow>
     (\<forall>x\<in>set xs. fee_bps x \<le> MAX_FEE_BPS \<and> (\<forall>m. prev = Some m \<longrightarrow> m < min_profit x))
     \<and> sorted_wrt (\<lambda>x y. min_profit x < min_profit y) xs"
  by (induction prev xs rule: perf_tiers_loop.induct) (fastforce simp: ok_iff not_less split: option.splits)+

lemma validate_discount_spec:
  "validate_discount_tiers xs = Ok u \<Longrightarrow> tier_spec min_stake rebate_bps 10000 xs"
  using discount_loop_spec [of None xs u]
  by (auto simp: validate_discount_tiers_def tier_spec_def MAX_TIERS_def ok_iff)

lemma validate_perf_spec:
  "validate_perf_tiers xs = Ok u \<Longrightarrow> tier_spec min_profit fee_bps MAX_FEE_BPS xs"
  using perf_loop_spec [of None xs u]
  by (auto simp: validate_perf_tiers_def tier_spec_def MAX_TIERS_def ok_iff)

text \<open>The tier that applies is the last one the amount reaches.\<close>

definition best_tier :: "('a \<Rightarrow> i128) \<Rightarrow> i128 \<Rightarrow> 'a list \<Rightarrow> 'a option" where
  "best_tier from n xs = (case filter (\<lambda>x. from x \<le> n) xs of [] \<Rightarrow> None | ys \<Rightarrow> Some (last ys))"

lemma best_tier_Nil [simp]: "best_tier from n [] = None"
  by (simp add: best_tier_def)

lemma best_tier_Cons:
  "best_tier from n (x # xs) =
     (case best_tier from n xs of Some y \<Rightarrow> Some y | None \<Rightarrow> if from x \<le> n then Some x else None)"
  by (auto simp: best_tier_def split: list.splits)

lemma best_tier_mem: "best_tier from n xs = Some x \<Longrightarrow> x \<in> set xs \<and> from x \<le> n"
  by (induction xs) (auto simp: best_tier_Cons split: option.splits if_splits)

lemma rate_loop_best:
  "rate_loop n xs r = (case best_tier min_profit n xs of None \<Rightarrow> r | Some x \<Rightarrow> Some (fee_bps x))"
  by (induction n xs r rule: rate_loop.induct) (auto simp: best_tier_Cons split: option.splits)

lemma tier_loop_best:
  "case best_tier min_stake n xs of None \<Rightarrow> tier_loop n i xs b = b
   | Some x \<Rightarrow> \<exists>j<length xs. tier_loop n i xs b = i + of_nat j + 1 \<and> xs ! j = x"
proof (induction n i xs b rule: tier_loop.induct)
  case (2 n i x xs b)
  show ?case
  proof (cases "best_tier min_stake n xs")
    case None
    then show ?thesis using "2.IH" by (auto simp: best_tier_Cons)
  next
    case (Some y)
    then obtain j where "j < length xs" "xs ! j = y"
      "tier_loop n (i + 1) xs (if min_stake x \<le> n then i + 1 else b) = i + 1 + of_nat j + 1"
      using "2.IH" by auto
    then show ?thesis using Some by (auto simp: best_tier_Cons intro!: exI [of _ "Suc j"])
  qed
qed simp

lemma rebate_best:
  assumes "length (load_tiers (discount_tiers s)) \<le> 8"
  shows "rebate_for_stake s n =
    Ok (case best_tier min_stake n (load_tiers (discount_tiers s)) of None \<Rightarrow> 0 | Some x \<Rightarrow> rebate_bps x)"
proof (cases "best_tier min_stake n (load_tiers (discount_tiers s))")
  case None
  then show ?thesis
    using tier_loop_best [of n 0 "load_tiers (discount_tiers s)" 0]
    by (simp add: rebate_for_stake_def tier_for_stake_def)
next
  case (Some x)
  then obtain j where j: "j < length (load_tiers (discount_tiers s))" "load_tiers (discount_tiers s) ! j = x"
    "tier_for_stake s n = of_nat j + 1"
    using tier_loop_best [of n 0 "load_tiers (discount_tiers s)" 0] by (auto simp: tier_for_stake_def)
  have u: "unat (of_nat i :: u32) = i" if "i \<le> 8" for i
    using that by (simp add: unat_of_nat take_bit_nat_eq_self)
  have "unat (of_nat j :: u32) = j" using j(1) assms by (intro u) simp
  moreover have "of_nat j + 1 \<noteq> (0 :: u32)"
    using u [of "Suc j"] j(1) assms by (metis Suc_leI add.commute le_trans nat.distinct(1) of_nat_Suc unat_0)
  ultimately show ?thesis using j Some by (simp add: rebate_for_stake_def Let_def)
qed

section \<open>The invariant\<close>

definition mark :: "fee_engine \<Rightarrow> address \<Rightarrow> i128" where
  "mark s v = high_water_mark (load_vault_or_default s v)"

definition vault_ok :: "vault_state \<Rightarrow> bool" where
  "vault_ok st \<longleftrightarrow> 0 \<le> principal st \<and> principal st \<le> high_water_mark st
     \<and> last_crystallized st \<le> high_water_mark st"

definition record_ok :: "fee_record \<Rightarrow> bool" where
  "record_ok r \<longleftrightarrow> 0 < rec_net r \<and> 0 \<le> rec_discount r \<and> rec_gross r = rec_net r + rec_discount r
     \<and> 0 \<le> rec_vault_share r \<and> 0 \<le> rec_protocol_share r
     \<and> rec_vault_share r + rec_protocol_share r = rec_net r"

definition history_ok :: "fee_engine \<Rightarrow> bool" where
  "history_ok s \<longleftrightarrow>
     (\<forall>k. fee_history s k \<noteq> None \<longleftrightarrow> 1 \<le> unat k \<and> unat k \<le> unat (fe_fee_history_len s))
     \<and> (\<forall>k r. fee_history s k = Some r \<longrightarrow> rec_seq r = k \<and> record_ok r)"

text \<open>The performance fees on record against a vault.\<close>

definition perf_charges :: "fee_engine \<Rightarrow> address \<Rightarrow> u64 \<rightharpoonup> i128" where
  "perf_charges s v k =
     map_option (\<lambda>r. if rec_vault r = v \<and> rec_kind r = 2 then rec_net r else 0) (fee_history s k)"

definition config_ok :: "fee_engine \<Rightarrow> bool" where
  "config_ok s \<longleftrightarrow>
     (\<forall>c. fe_config s = Some c \<longrightarrow> management_fee_bps c \<le> MAX_FEE_BPS
        \<and> performance_fee_bps c \<le> MAX_FEE_BPS \<and> protocol_share_bps c \<le> 10000)
     \<and> tier_spec min_stake rebate_bps 10000 (load_tiers (discount_tiers s))
     \<and> tier_spec min_profit fee_bps MAX_FEE_BPS (load_tiers (perf_tiers s))"

definition fe_core :: "fee_engine \<Rightarrow> bool" where
  "fe_core s \<longleftrightarrow> config_ok s \<and> history_ok s \<and> (\<forall>v st. fe_vaults s v = Some st \<longrightarrow> vault_ok st)
     \<and> (\<forall>v. 5 * map_total (perf_charges s v) \<le> mark s v)"

lemma fe_core_frame:
  assumes "fe_core s" and "config_ok s'" and "fe_vaults s' = fe_vaults s" and "fee_seq s' = fee_seq s"
    and "fee_history s' = fee_history s"
  shows "fe_core s'"
proof -
  have "perf_charges s' = perf_charges s" "mark s' = mark s"
    using assms(2-) by (auto simp: fun_eq_iff perf_charges_def mark_def load_vault_or_default_def)
  then show ?thesis
    using assms by (simp add: fe_core_def history_ok_def fe_fee_history_len_def)
qed

lemma fe_core_locked [simp]: "fe_core (s\<lparr>reentrancy_lock := b\<rparr>) = fe_core s"
proof -
  have "perf_charges (s\<lparr>reentrancy_lock := b\<rparr>) = perf_charges s" "mark (s\<lparr>reentrancy_lock := b\<rparr>) = mark s"
    by (simp_all add: fun_eq_iff perf_charges_def mark_def load_vault_or_default_def)
  then show ?thesis by (simp add: fe_core_def config_ok_def history_ok_def fe_fee_history_len_def)
qed

lemma load_vault_default_ok: "fe_core s \<Longrightarrow> vault_ok (load_vault_or_default s v)"
  by (auto simp: load_vault_or_default_def default_vault_state_def fe_core_def vault_ok_def split: option.split)

lemma fe_vaults_save [simp]: "fe_vaults (save_vault w st s) = (fe_vaults s)(w \<mapsto> st)"
  by (simp add: save_vault_def)

lemma perf_charges_simps [simp]:
  "perf_charges (save_vault w st s) = perf_charges s"
  "perf_charges (s\<lparr>reentrancy_lock := b\<rparr>) = perf_charges s"
  by (simp_all add: fun_eq_iff perf_charges_def save_vault_def)

lemma mark_save [simp]: "mark (save_vault w st s) v = (if v = w then high_water_mark st else mark s v)"
  by (simp add: mark_def save_vault_def load_vault_or_default_def)

lemma fe_core_save:
  assumes "fe_core s" and "vault_ok st" and "mark s w \<le> high_water_mark st"
  shows "fe_core (save_vault w st s)"
proof -
  have "config_ok (save_vault w st s) = config_ok s" "history_ok (save_vault w st s) = history_ok s"
    by (simp_all add: config_ok_def history_ok_def save_vault_def fe_fee_history_len_def)
  moreover have "5 * map_total (perf_charges s v) \<le> mark (save_vault w st s) v" for v
    using assms(1,3) order_trans by (fastforce simp: fe_core_def)
  ultimately show ?thesis using assms(1,2) by (auto simp: fe_core_def)
qed

section \<open>Records\<close>

definition next_seq :: "fee_engine \<Rightarrow> u64" where
  "next_seq s = saturating_add_word (fe_fee_history_len s) 1"

lemma record_fee_event_simps [simp]:
  "fe_config (record_fee_event e v p g d n x y k s) = fe_config s"
  "discount_tiers (record_fee_event e v p g d n x y k s) = discount_tiers s"
  "perf_tiers (record_fee_event e v p g d n x y k s) = perf_tiers s"
  "fe_vaults (record_fee_event e v p g d n x y k s) = fe_vaults s"
  "fe_stakes (record_fee_event e v p g d n x y k s) = fe_stakes s"
  "reentrancy_lock (record_fee_event e v p g d n x y k s) = reentrancy_lock s"
  "fe_fee_history_len (record_fee_event e v p g d n x y k s) = next_seq s"
  "fee_history (record_fee_event e v p g d n x y k s) = (fee_history s)(next_seq s \<mapsto>
     \<lparr>rec_seq = next_seq s, rec_vault = v, rec_payer = p, rec_gross = g, rec_discount = d, rec_net = n,
      rec_vault_share = x, rec_protocol_share = y, rec_timestamp = timestamp e, rec_kind = k\<rparr>)"
  by (simp_all add: record_fee_event_def next_fee_seq_def next_seq_def fe_fee_history_len_def unwrap_or_def Let_def)

lemma unat_next_seq:
  "unat (next_seq s) = (if unat (fe_fee_history_len s) + 1 < 2 ^ 64 then unat (fe_fee_history_len s) + 1
     else unat (fe_fee_history_len s))"
proof -
  have "unat (fe_fee_history_len s) < 2 ^ 64" using unsigned_less [of "fe_fee_history_len s", where 'a = nat] by simp
  then show ?thesis
    by (auto simp: next_seq_def saturating_add_word_def unat_word_ariths unsigned_minus_1_eq_mask mask_eq_exp_minus_1)
qed

lemma history_ok_record:
  assumes "history_ok s" and "record_ok r" and "rec_seq r = next_seq s"
    and "fee_history s' = (fee_history s)(next_seq s \<mapsto> r)" and "fe_fee_history_len s' = next_seq s"
  shows "history_ok s'"
proof -
  have "unat k \<le> unat (next_seq s) \<longleftrightarrow> k = next_seq s \<or> unat k \<le> unat (fe_fee_history_len s)" for k
    using unat_next_seq [of s]
    by (auto simp: word_unat_eq_iff)
  moreover have "1 \<le> unat (next_seq s)"
    using unat_next_seq [of s] by (simp split: if_splits)
  ultimately show ?thesis using assms by (auto simp: history_ok_def)
qed

lemma perf_charges_nonneg:
  assumes "fe_core s"
  shows "0 \<le> get0 (perf_charges s v) k"
proof (cases "fee_history s k")
  case (Some r)
  then have "record_ok r" using assms by (auto simp: fe_core_def history_ok_def)
  then show ?thesis using Some by (simp add: perf_charges_def get0_def record_ok_def)
qed (simp add: perf_charges_def get0_def)

lemma fe_core_record:
  assumes "fe_core s" and "0 < n" "0 \<le> d" "g = n + d" "0 \<le> x" "0 \<le> y" "x + y = n"
    and room: "k = 2 \<Longrightarrow> 5 * (map_total (perf_charges s w) + n) \<le> mark s w"
  shows "fe_core (record_fee_event e w p g d n x y k s)" (is "fe_core ?s")
proof -
  have "history_ok ?s"
    by (rule history_ok_record [where s = s and
      r = "\<lparr>rec_seq = next_seq s, rec_vault = w, rec_payer = p, rec_gross = g, rec_discount = d, rec_net = n,
        rec_vault_share = x, rec_protocol_share = y, rec_timestamp = timestamp e, rec_kind = k\<rparr>"])
      (use assms in \<open>simp_all add: fe_core_def record_ok_def\<close>)
  moreover have "config_ok ?s = config_ok s" by (simp add: config_ok_def)
  moreover have m: "mark ?s = mark s" by (simp add: fun_eq_iff mark_def load_vault_or_default_def)
  moreover have "5 * map_total (perf_charges ?s v) \<le> mark s v" for v
  proof -
    have "perf_charges ?s v = (perf_charges s v)(next_seq s \<mapsto> if w = v \<and> k = 2 then n else 0)"
      by (auto simp: fun_eq_iff perf_charges_def)
    then have "map_total (perf_charges ?s v) \<le> map_total (perf_charges s v) + (if w = v \<and> k = 2 then n else 0)"
      using perf_charges_nonneg [OF assms(1), of v "next_seq s"] by simp
    moreover have "5 * map_total (perf_charges s v) \<le> mark s v" using assms(1) by (simp add: fe_core_def)
    ultimately show ?thesis using room by (cases "w = v \<and> k = 2") simp_all
  qed
  ultimately show ?thesis using assms(1) by (simp add: fe_core_def)
qed

section \<open>Charges\<close>

lemma split_fee_ok:
  assumes "fe_split_fee fee bps = Ok (x, y)" and "0 \<le> fee"
  shows "0 \<le> x \<and> 0 \<le> y \<and> x + y = fee \<and> y = fee * uint bps div 10000"
proof -
  have "bps \<le> 10000" using assms(1) by (auto simp: fe_split_fee_def ok_iff)
  then show ?thesis
    using engine_split.split_bounds [OF assms] engine_split.split_sum [OF assms(1)]
      engine_split.split_ok [OF assms(1)] assms(2) by simp
qed

text \<open>What a charge leaves alone.\<close>

definition fe_same :: "fee_engine \<Rightarrow> fee_engine \<Rightarrow> bool" where
  "fe_same s s' \<longleftrightarrow> fe_config s' = fe_config s \<and> discount_tiers s' = discount_tiers s
     \<and> perf_tiers s' = perf_tiers s \<and> fe_stakes s' = fe_stakes s"

lemma fe_same_simps [simp]:
  "fe_same s (save_vault w st s') = fe_same s s'"
  "fe_same s (record_fee_event e v p g d n x y k s') = fe_same s s'"
  "fe_same s (s'\<lparr>reentrancy_lock := b\<rparr>) = fe_same s s'"
  "fe_same s s"
  by (simp_all add: fe_same_def save_vault_def)

lemma charge_record_ok:
  assumes "charge_record e w c fee k s = Ok s'" and "fe_core s" and "0 \<le> fee"
    and "k = 2 \<Longrightarrow> 5 * (map_total (perf_charges s w) + fee) \<le> mark s w"
  shows "fe_core s' \<and> fe_vaults s' = fe_vaults s \<and> fe_same s s'"
proof (cases "0 < fee")
  case True
  then obtain x y where xy: "fe_split_fee fee (protocol_share_bps c) = Ok (x, y)"
    and s': "s' = record_fee_event e w w fee 0 fee x y k s"
    using assms(1) by (auto simp: charge_record_def)
  have "fe_core s'"
    unfolding s' by (rule fe_core_record [OF assms(2) True])
      (use split_fee_ok [OF xy assms(3)] assms(4) in simp_all)
  then show ?thesis by (simp add: s')
qed (use assms in \<open>simp add: charge_record_def\<close>)

lemma mark_of: "fe_vaults s w = Some st \<Longrightarrow> mark s w = high_water_mark st"
  by (simp add: mark_def load_vault_or_default_def)

lemma mark_vaults: "fe_vaults s' = fe_vaults s \<Longrightarrow> mark s' = mark s"
  by (simp add: fun_eq_iff mark_def load_vault_or_default_def)

text \<open>The management fee of the documentation, rounded down.\<close>

definition management_due :: "fee_config \<Rightarrow> vault_state \<Rightarrow> u64 \<Rightarrow> i128 \<Rightarrow> i128" where
  "management_due c st now aum =
     max 0 aum * uint (management_fee_bps c) * int (unat now - unat (last_accrual st)) div 315360000000"

lemma uint_elapsed: "uint (saturating_sub_word a b :: u64) = int (unat a - unat b)"
  by (metis unat_saturating_sub_word uint_nat)

lemma accrue_body_ok:
  assumes "accrue_body e w aum s = Ok (fee, s')"
  obtains c st where "fe_config s = Some c" "fe_vaults s w = Some st"
    "fee = management_due c st (timestamp e) aum"
    "charge_record e w c fee 1
       (save_vault w (st\<lparr>last_accrual := timestamp e, fees_paid := fees_paid st + fee\<rparr>) s) = Ok s'"
proof -
  let ?el = "\<lambda>st. saturating_sub_word (timestamp e) (last_accrual st)"
  obtain c st where c: "fe_config s = Some c" and st: "fe_vaults s w = Some st"
    and fee: "(if ?el st = 0 \<or> aum \<le> 0 then Ok 0
      else and_then (ok_or (checked_mul aum (uint (management_fee_bps c))) MathOverflow)
        (\<lambda>x. and_then (ok_or (checked_mul x (uint (?el st))) MathOverflow)
          (\<lambda>y. div_i128 y (fe_BPS_DENOMINATOR * SECONDS_PER_YEAR)))) = Ok fee"
    and r: "charge_record e w c fee 1
       (save_vault w (st\<lparr>last_accrual := timestamp e, fees_paid := fees_paid st + fee\<rparr>) s) = Ok s'"
    using assms unfolding accrue_body_def fe_load_config_def load_vault_def fe_checked_add_def Let_def
    by auto
  have "fee = management_due c st (timestamp e) aum"
  proof (cases "?el st = 0 \<or> aum \<le> 0")
    case True
    then have "int (unat (timestamp e) - unat (last_accrual st)) = 0 \<or> max 0 aum = 0"
      by (auto simp flip: uint_elapsed)
    then show ?thesis using True fee by (auto simp: management_due_def)
  next
    case False
    then have "fee = (aum * uint (management_fee_bps c) * uint (?el st)) sdiv 315360000000"
      using fee by (auto simp: div_i128_def fe_BPS_DENOMINATOR_def SECONDS_PER_YEAR_def)
    then show ?thesis using False by (simp add: sdiv_nonneg management_due_def uint_elapsed)
  qed
  then show ?thesis using that c st r by blast
qed

text \<open>The performance fee: the rate of the tier that applies, on what the NAV is above the mark.\<close>

definition perf_rate :: "fee_engine \<Rightarrow> fee_config \<Rightarrow> i128 \<Rightarrow> u32" where
  "perf_rate s c profit = (case best_tier min_profit profit (load_tiers (perf_tiers s)) of
     None \<Rightarrow> performance_fee_bps c | Some x \<Rightarrow> fee_bps x)"

definition performance_due :: "fee_engine \<Rightarrow> fee_config \<Rightarrow> vault_state \<Rightarrow> i128 \<Rightarrow> i128" where
  "performance_due s c st nav =
     (let profit = max 0 (nav - high_water_mark st) in profit * uint (perf_rate s c profit) div 10000)"

lemma perf_rate_eq:
  "unwrap_or (perf_rate_for_profit s profit) (performance_fee_bps c) = perf_rate s c profit"
  by (simp add: perf_rate_for_profit_def rate_loop_best perf_rate_def unwrap_or_def split: option.split)

lemma perf_rate_le: "config_ok s \<Longrightarrow> fe_config s = Some c \<Longrightarrow> uint (perf_rate s c n) \<le> 2000"
  by (auto simp: perf_rate_def config_ok_def tier_spec_def MAX_FEE_BPS_def word_le_def
      dest!: best_tier_mem split: option.split)

lemma bps_part_le: "0 \<le> n \<Longrightarrow> r \<le> 2000 \<Longrightarrow> 5 * (n * r div 10000) \<le> (n :: int)"
proof -
  assume "0 \<le> n" "r \<le> 2000"
  then have "n * r \<le> n * 2000" by (rule mult_left_mono [rotated])
  then show ?thesis by linarith
qed

lemma performance_due_bounds:
  assumes "config_ok s" and "fe_config s = Some c"
  shows "0 \<le> performance_due s c st nav \<and> 5 * performance_due s c st nav \<le> max 0 (nav - high_water_mark st)"
  using bps_part_le [OF _ perf_rate_le [OF assms], of "max 0 (nav - high_water_mark st)"]
  by (simp add: performance_due_def Let_def pos_imp_zdiv_nonneg_iff)

lemma crystallize_body_ok:
  assumes "crystallize_body e w nav s = Ok (fee, s')" and "overflow_checks e"
  obtains c st where "fe_config s = Some c" "fe_vaults s w = Some st" "fee = performance_due s c st nav"
    "high_water_mark st < nav \<Longrightarrow> charge_record e w c fee 2 (save_vault w
       (st\<lparr>high_water_mark := nav, last_crystallized := nav, fees_paid := fees_paid st + fee\<rparr>) s) = Ok s'"
    "nav \<le> high_water_mark st \<Longrightarrow> s' = s \<or>
       (nav < last_crystallized st \<and> s' = save_vault w (st\<lparr>fees_paid :=
          saturating_sub (fees_paid st) ((last_crystallized st - nav)
            * uint (perf_rate s c (last_crystallized st - nav)) div 10000), last_crystallized := nav\<rparr>) s)"
proof -
  obtain c st where c: "fe_config s = Some c" and st: "fe_vaults s w = Some st"
    using assms(1) unfolding crystallize_body_def fe_load_config_def load_vault_def by auto
  note b = assms(1) [unfolded crystallize_body_def fe_load_config_def load_vault_def c st ok_or_simps and_then.simps]
  consider "high_water_mark st < nav" | "nav \<le> high_water_mark st" "nav < last_crystallized st"
    | "nav \<le> high_water_mark st" "last_crystallized st \<le> nav" by linarith
  then show ?thesis
  proof cases
    case 1
    then have "fee = performance_due s c st nav" "charge_record e w c fee 2 (save_vault w
       (st\<lparr>high_water_mark := nav, last_crystallized := nav, fees_paid := fees_paid st + fee\<rparr>) s) = Ok s'"
      using b assms(2)
      by (auto simp: plain_i128_checked perf_rate_eq fe_checked_add_def fe_BPS_DENOMINATOR_def Let_def
          div_i128_pos performance_due_def)
    then show ?thesis using that [OF c st] 1 by simp
  next
    case 2
    then have "fee = 0" "s' = save_vault w (st\<lparr>fees_paid :=
          saturating_sub (fees_paid st) ((last_crystallized st - nav)
            * uint (perf_rate s c (last_crystallized st - nav)) div 10000), last_crystallized := nav\<rparr>) s"
      using b assms(2)
      by (auto simp: plain_i128_checked perf_rate_eq fe_BPS_DENOMINATOR_def Let_def div_i128_pos)
    then show ?thesis using that [OF c st] 2 by (simp add: performance_due_def)
  next
    case 3
    then show ?thesis using that [OF c st] b by (simp add: performance_due_def)
  qed
qed

section \<open>Entry points\<close>

definition lock_free :: "fee_engine \<Rightarrow> bool" where
  "lock_free s \<longleftrightarrow> reentrancy_lock s \<noteq> Some True"

lemma with_lock_ok:
  "with_lock body s = Ok (fee, s') \<longleftrightarrow>
     lock_free s \<and> (\<exists>s1. body (s\<lparr>reentrancy_lock := Some True\<rparr>) = Ok (fee, s1)
        \<and> s' = s1\<lparr>reentrancy_lock := Some False\<rparr>)"
  by (auto simp: with_lock_def fe_reentrancy_enter_def fe_reentrancy_exit_def unwrap_or_def lock_free_def
      ok_iff split: option.splits)

lemma accrue_ok:
  assumes "fe_accrue_management_fee e w aum s = Ok (fee, s')" and "fe_core s"
  obtains c st where "fe_config s = Some c" "fe_vaults s w = Some st"
    "fee = management_due c st (timestamp e) aum" "0 \<le> fee"
    "fe_vaults s' = (fe_vaults s)(w \<mapsto> st\<lparr>last_accrual := timestamp e, fees_paid := fees_paid st + fee\<rparr>)"
    "fe_core s'" "fe_same s s'" "lock_free s'"
proof -
  obtain s1 where b: "accrue_body e w aum (s\<lparr>reentrancy_lock := Some True\<rparr>) = Ok (fee, s1)"
    and s': "s' = s1\<lparr>reentrancy_lock := Some False\<rparr>"
    using assms(1) by (auto simp: fe_accrue_management_fee_def with_lock_ok)
  from b show ?thesis
  proof (rule accrue_body_ok)
    fix c :: fee_config and st :: vault_state
    let ?st = "st\<lparr>last_accrual := timestamp e, fees_paid := fees_paid st + fee\<rparr>"
    let ?s = "save_vault w ?st (s\<lparr>reentrancy_lock := Some True\<rparr>)"
    assume c: "fe_config (s\<lparr>reentrancy_lock := Some True\<rparr>) = Some c"
      and st: "fe_vaults (s\<lparr>reentrancy_lock := Some True\<rparr>) w = Some st"
      and fee: "fee = management_due c st (timestamp e) aum"
      and r: "charge_record e w c fee 1 ?s = Ok s1"
    have f: "0 \<le> fee" unfolding fee management_due_def by (simp add: pos_imp_zdiv_nonneg_iff)
    have "vault_ok st" using assms(2) st by (simp add: fe_core_def)
    then have "vault_ok ?st" by (simp add: vault_ok_def)
    then have "fe_core ?s"
      using assms(2) st by (intro fe_core_save) (simp_all add: mark_of)
    from charge_record_ok [OF r this f]
    have "fe_core s1" "fe_vaults s1 = fe_vaults ?s" "fe_same ?s s1" by auto
    then show ?thesis
      using c st fee f that [of c st] by (simp add: s' save_vault_def fe_same_def lock_free_def)
  qed
qed

lemma raise_mark_ok:
  assumes "fe_core s" and "fe_vaults s w = Some st" and "high_water_mark st < nav"
    and "0 \<le> fee" and "5 * fee \<le> nav - high_water_mark st"
    and "charge_record e w c fee 2 (save_vault w st' s) = Ok s1"
    and "st' = st\<lparr>high_water_mark := nav, last_crystallized := nav, fees_paid := paid\<rparr>"
  shows "fe_core s1 \<and> fe_vaults s1 = (fe_vaults s)(w \<mapsto> st') \<and> fe_same s s1"
proof -
  have "vault_ok st" using assms(1,2) by (simp add: fe_core_def)
  then have "fe_core (save_vault w st' s)"
    using assms by (intro fe_core_save) (auto simp: vault_ok_def mark_of)
  moreover have "5 * map_total (perf_charges s w) \<le> high_water_mark st"
    using assms(1) unfolding mark_of [OF assms(2), symmetric] by (simp add: fe_core_def)
  ultimately have "fe_core s1 \<and> fe_vaults s1 = fe_vaults (save_vault w st' s) \<and> fe_same (save_vault w st' s) s1"
    using assms by (intro charge_record_ok [OF assms(6)]) simp_all
  then show ?thesis by (simp add: fe_same_def save_vault_def)
qed

lemma lower_crystallized_ok:
  assumes "fe_core s" and "fe_vaults s w = Some st" and "nav \<le> high_water_mark st"
    and "st' = st\<lparr>fees_paid := paid, last_crystallized := nav\<rparr>"
  shows "fe_core (save_vault w st' s)"
proof -
  have "vault_ok st" using assms(1,2) by (simp add: fe_core_def)
  then show ?thesis using assms by (intro fe_core_save) (auto simp: vault_ok_def mark_of)
qed

lemma crystallize_ok:
  assumes "fe_crystallize e w nav s = Ok (fee, s')" and "fe_core s" and "overflow_checks e"
  obtains c st st' where "fe_config s = Some c" "fe_vaults s w = Some st"
    "fee = performance_due s c st nav" "0 \<le> fee" "fe_vaults s' = (fe_vaults s)(w \<mapsto> st')"
    "high_water_mark st' = max (high_water_mark st) nav"
    "fe_core s'" "fe_same s s'" "lock_free s'"
proof -
  let ?l = "s\<lparr>reentrancy_lock := Some True\<rparr>"
  obtain s1 where b: "crystallize_body e w nav ?l = Ok (fee, s1)"
    and s': "s' = s1\<lparr>reentrancy_lock := Some False\<rparr>"
    using assms(1) by (auto simp: fe_crystallize_def with_lock_ok)
  obtain c st where cs: "fe_config s = Some c" "fe_vaults s w = Some st" "fee = performance_due s c st nav"
    and up: "high_water_mark st < nav \<Longrightarrow> charge_record e w c fee 2 (save_vault w
         (st\<lparr>high_water_mark := nav, last_crystallized := nav, fees_paid := fees_paid st + fee\<rparr>) ?l) = Ok s1"
    and down: "nav \<le> high_water_mark st \<Longrightarrow> s1 = ?l \<or>
         (\<exists>paid. s1 = save_vault w (st\<lparr>fees_paid := paid, last_crystallized := nav\<rparr>) ?l)"
    using b assms(3)
    by (rule crystallize_body_ok) (auto simp: performance_due_def perf_rate_def)
  have "config_ok s" using assms(2) by (simp add: fe_core_def)
  note due = performance_due_bounds [OF this cs(1), of st nav, folded cs(3)]
  have l: "fe_core ?l" "fe_vaults ?l w = Some st" using assms(2) cs by simp_all
  have "\<exists>st'. fe_core s1 \<and> fe_vaults s1 = (fe_vaults s)(w \<mapsto> st')
      \<and> high_water_mark st' = max (high_water_mark st) nav \<and> fe_same s s1"
  proof (cases "high_water_mark st < nav")
    case True
    show ?thesis
      using raise_mark_ok [OF l True _ _ up [OF True] refl] due True
      by (intro exI [of _ "st\<lparr>high_water_mark := nav, last_crystallized := nav, fees_paid := fees_paid st + fee\<rparr>"])
        (simp add: fe_same_def)
  next
    case False
    then consider "s1 = ?l" | paid where "s1 = save_vault w (st\<lparr>fees_paid := paid, last_crystallized := nav\<rparr>) ?l"
      using down by fastforce
    then show ?thesis
    proof cases
      case 1
      then show ?thesis using False l cs by (intro exI [of _ st]) (simp add: fun_upd_idem)
    next
      case 2
      then show ?thesis
        using False lower_crystallized_ok [OF l _ refl, of nav paid]
        by (intro exI [of _ "st\<lparr>fees_paid := paid, last_crystallized := nav\<rparr>"]) (simp add: save_vault_def fe_same_def)
    qed
  qed
  then show ?thesis using that cs due by (auto simp: s' lock_free_def)
qed

text \<open>The breakdown a vault with a given stake is due at a NAV.\<close>

definition fe_rebate :: "fee_engine \<Rightarrow> address \<Rightarrow> i128" where
  "fe_rebate s w = (case best_tier min_stake (staked (load_stake_or_default s w)) (load_tiers (discount_tiers s)) of
     None \<Rightarrow> 0 | Some x \<Rightarrow> uint (rebate_bps x))"

definition breakdown_due :: "fee_engine \<Rightarrow> fee_config \<Rightarrow> vault_state \<Rightarrow> address \<Rightarrow> u64 \<Rightarrow> i128 \<Rightarrow> fee_breakdown" where
  "breakdown_due s c st w now nav =
     (let m = management_due c st now nav; p = performance_due s c st nav;
          d = (m + p) * fe_rebate s w div 10000; n = m + p - d;
          y = n * uint (protocol_share_bps c) div 10000
      in \<lparr>management_fee = m, performance_fee = p, fee_total = m + p, discount = d, net_total = n,
          vault_share = n - y, protocol_share = y\<rparr>)"

lemma fe_rebate_le: "config_ok s \<Longrightarrow> 0 \<le> fe_rebate s w \<and> fe_rebate s w \<le> 10000"
  by (auto simp: fe_rebate_def config_ok_def tier_spec_def word_le_def dest!: best_tier_mem split: option.split)

lemma rebate_eq:
  assumes "config_ok s"
  shows "rebate_for_stake s (staked (load_stake_or_default s w)) = Ok r \<longleftrightarrow> uint r = fe_rebate s w"
proof -
  have "length (load_tiers (discount_tiers s)) \<le> 8" using assms by (simp add: config_ok_def tier_spec_def)
  note e = rebate_best [OF this, of "staked (load_stake_or_default s w)"]
  show ?thesis
    unfolding e fe_rebate_def by (auto simp: word_uint_eq_iff split: option.split)
qed

lemma bps_whole_le: "0 \<le> n \<Longrightarrow> r \<le> 10000 \<Longrightarrow> n * r div 10000 \<le> (n :: int)"
proof -
  assume "0 \<le> n" "r \<le> 10000"
  then have "n * r \<le> n * 10000" by (rule mult_left_mono [rotated])
  then show ?thesis by linarith
qed

lemma due_nonneg:
  "0 \<le> management_due c st now aum" "config_ok s \<Longrightarrow> fe_config s = Some c \<Longrightarrow> 0 \<le> performance_due s c st nav"
  by (simp_all add: management_due_def pos_imp_zdiv_nonneg_iff performance_due_bounds)

lemma fe_same_due:
  assumes "fe_same s s'" and "high_water_mark st' = high_water_mark st"
  shows "performance_due s' c st' nav = performance_due s c st nav" "fe_rebate s' w = fe_rebate s w"
  using assms by (simp_all add: fe_same_def performance_due_def perf_rate_def fe_rebate_def load_stake_or_default_def)

lemma fe_same_trans: "fe_same s s' \<Longrightarrow> fe_same s' s'' \<Longrightarrow> fe_same s s''"
  by (simp add: fe_same_def)

lemma compute_fees_ok:
  assumes "fe_compute_fees e w nav s = Ok (b, s')" and "fe_core s" and "overflow_checks e"
  obtains c st st' where "fe_config s = Some c" "fe_vaults s w = Some st" "b = breakdown_due s c st w (timestamp e) nav"
    "fe_vaults s' = (fe_vaults s)(w \<mapsto> st')" "high_water_mark st' = max (high_water_mark st) nav"
    "fe_core s'" "fe_same s s'" "lock_free s'"
proof -
  obtain mf s1 pf c r x y n d where m: "fe_accrue_management_fee e w nav s = Ok (mf, s1)"
    and p: "fe_crystallize e w nav s1 = Ok (pf, s')" and c: "fe_config s' = Some c"
    and r: "rebate_for_stake s' (staked (load_stake_or_default s' w)) = Ok r"
    and d: "d = (mf + pf) * uint r sdiv 10000" and n: "n = mf + pf - d"
    and xy: "fe_split_fee n (protocol_share_bps c) = Ok (x, y)"
    and b: "b = \<lparr>management_fee = mf, performance_fee = pf, fee_total = mf + pf, discount = d,
      net_total = n, vault_share = x, protocol_share = y\<rparr>"
    using assms(1)
    by (auto simp: fe_compute_fees_def fe_load_config_def fe_checked_add_def div_i128_def fe_BPS_DENOMINATOR_def
        ok_iff)
  obtain c0 st where a: "fe_config s = Some c0" "fe_vaults s w = Some st"
    "mf = management_due c0 st (timestamp e) nav" "0 \<le> mf"
    "fe_vaults s1 = (fe_vaults s)(w \<mapsto> st\<lparr>last_accrual := timestamp e, fees_paid := fees_paid st + mf\<rparr>)"
    "fe_core s1" "fe_same s s1"
    using m assms(2) by (rule accrue_ok)
  obtain c1 st1 st' where q: "fe_config s1 = Some c1" "fe_vaults s1 w = Some st1" "pf = performance_due s1 c1 st1 nav"
    "0 \<le> pf" "fe_vaults s' = (fe_vaults s1)(w \<mapsto> st')" "high_water_mark st' = max (high_water_mark st1) nav"
    "fe_core s'" "fe_same s1 s'" "lock_free s'"
    using p a(6) assms(3) by (rule crystallize_ok)
  have same: "fe_same s s'" using a(7) q(8) by (rule fe_same_trans)
  have eq: "c1 = c0" "c = c0" "high_water_mark st1 = high_water_mark st"
    using a q c same by (auto simp: fe_same_def)
  have cfg: "config_ok s'" "config_ok s" using q(7) assms(2) by (simp_all add: fe_core_def)
  have reb: "uint r = fe_rebate s w"
    using r rebate_eq [OF cfg(1)] fe_same_due(2) [OF same refl] by metis
  have dd: "d = (mf + pf) * fe_rebate s w div 10000"
    using a(4) q(4) fe_rebate_le [OF cfg(2), of w] reb by (simp add: d sdiv_nonneg)
  have "0 \<le> n"
    using bps_whole_le [of "mf + pf" "fe_rebate s w"] a(4) q(4) fe_rebate_le [OF cfg(2), of w]
    by (simp add: n dd)
  from split_fee_ok [OF xy this] have "x = n - y" "y = n * uint (protocol_share_bps c) div 10000" by auto
  then have "b = breakdown_due s c0 st w (timestamp e) nav"
    using a(3) q(3) fe_same_due(1) [OF a(7) eq(3)] unfolding b breakdown_due_def n dd by (simp add: eq Let_def)
  then show ?thesis
    using that [of c0 st st'] a(1,2,5) q(5-7,9) same eq by simp
qed

lemma breakdown_due_ok:
  assumes "config_ok s" and "fe_config s = Some c"
  shows "let b = breakdown_due s c st w now nav in
    0 \<le> discount b \<and> 0 \<le> net_total b \<and> fee_total b = net_total b + discount b
    \<and> 0 \<le> vault_share b \<and> 0 \<le> protocol_share b \<and> vault_share b + protocol_share b = net_total b"
proof -
  let ?t = "management_due c st now nav + performance_due s c st nav"
  let ?n = "?t - ?t * fe_rebate s w div 10000"
  have t: "0 \<le> ?t" using due_nonneg assms by (simp add: add_nonneg_nonneg)
  then have n: "0 \<le> ?n" using bps_whole_le fe_rebate_le [OF assms(1)] by simp
  have "uint (protocol_share_bps c) \<le> 10000" using assms by (simp add: config_ok_def word_le_def)
  from bps_whole_le [OF n this] show ?thesis
    using t n fe_rebate_le [OF assms(1), of w] by (simp add: breakdown_due_def Let_def pos_imp_zdiv_nonneg_iff)
qed

lemma breakdown_due_fields:
  "let b = breakdown_due s c st w now nav in
    management_fee b = management_due c st now nav \<and> performance_fee b = performance_due s c st nav
    \<and> discount b = (management_fee b + performance_fee b) * fe_rebate s w div 10000
    \<and> net_total b = management_fee b + performance_fee b - discount b"
  by (simp add: breakdown_due_def Let_def)

lemma payer_ok:
  "require_payer_or_sponsor e w p s = Ok u \<longleftrightarrow> authorized e p \<and> (p = w \<or> fee_sponsor s w = Some p)"
  by (auto simp: require_payer_or_sponsor_def)

lemma sponsored_ok:
  assumes "fe_compute_fees_sponsored e w p nav s = Ok (b, s')" and "fe_core s" and "overflow_checks e"
  obtains c st st' where "fe_config s = Some c" "fe_vaults s w = Some st" "b = breakdown_due s c st w (timestamp e) nav"
    "fe_vaults s' = (fe_vaults s)(w \<mapsto> st')" "high_water_mark st' = max (high_water_mark st) nav"
    "fe_core s'" "fe_same s s'" "lock_free s'" "authorized e p" "p = w \<or> fee_sponsor s w = Some p"
proof -
  obtain s1 where b: "fe_compute_fees e w nav s = Ok (b, s1)"
    and s': "s' = (if 0 < net_total b then record_fee_event e w p (fee_total b) (discount b) (net_total b)
      (vault_share b) (protocol_share b) 3 s1 else s1)"
    and auth: "authorized e p" "p = w \<or> fee_sponsor s w = Some p"
    using assms(1) by (auto simp: fe_compute_fees_sponsored_def payer_ok)
  obtain c st st' where o: "fe_config s = Some c" "fe_vaults s w = Some st" "b = breakdown_due s c st w (timestamp e) nav"
    "fe_vaults s1 = (fe_vaults s)(w \<mapsto> st')" "high_water_mark st' = max (high_water_mark st) nav"
    "fe_core s1" "fe_same s s1" "lock_free s1"
    using b assms(2,3) by (rule compute_fees_ok)
  have "config_ok s" using assms(2) by (simp add: fe_core_def)
  note d = breakdown_due_ok [OF this o(1), of st w "timestamp e" nav, folded o(3), unfolded Let_def]
  have "fe_core s'"
    unfolding s' using o(6) d by (auto intro!: fe_core_record)
  then show ?thesis
    using that [of c st st'] o auth by (simp add: s' lock_free_def)
qed

section \<open>Histories\<close>

definition fe_inv :: "fee_engine \<Rightarrow> bool" where
  "fe_inv s \<longleftrightarrow> fe_core s \<and> lock_free s"

lemma fe_inv_frame:
  assumes "fe_inv s" and "config_ok s'" and "fe_vaults s' = fe_vaults s" and "fee_seq s' = fee_seq s"
    and "fee_history s' = fee_history s" and "reentrancy_lock s' = reentrancy_lock s"
  shows "fe_inv s' \<and> mark s v \<le> mark s' v"
  using fe_core_frame [of s s'] mark_vaults [of s' s] assms by (simp add: fe_inv_def lock_free_def)

lemmas fe_raise_simps = fe_inv_def mark_def load_vault_or_default_def

lemma fe_inv_save:
  assumes "fe_inv s" and "vault_ok st" and "mark s w \<le> high_water_mark st"
  shows "fe_inv (save_vault w st s) \<and> mark s v \<le> mark (save_vault w st s) v"
proof -
  have "reentrancy_lock (save_vault w st s) = reentrancy_lock s" by (simp add: save_vault_def)
  then show ?thesis using assms fe_core_save by (auto simp: fe_inv_def lock_free_def)
qed

lemma fe_exec_inv:
  assumes "fe_exec tr e c s t = Ok (s', t')" and "overflow_checks e" and i: "fe_inv s"
  shows "fe_inv s' \<and> mark s v \<le> mark s' v"
proof (cases c)
  case (Initialize a k)
  then show ?thesis using assms(1)
    by (intro fe_inv_frame [OF i])
      (use i in \<open>auto simp: fe_keep_def fe_initialize_def config_ok_def fe_inv_def fe_core_def ok_iff\<close>)
next
  case (SetFeeConfig a k)
  then show ?thesis using assms(1)
    by (intro fe_inv_frame [OF i])
      (use i in \<open>auto simp: fe_keep_def fe_set_fee_config_def config_ok_def fe_inv_def fe_core_def ok_iff not_less\<close>)
next
  case (SetDiscountTiers a x)
  then obtain u where "validate_discount_tiers x = Ok u" "s' = s\<lparr>discount_tiers := Some x\<rparr>" using assms(1)
    by (auto simp: fe_keep_def fe_set_discount_tiers_def)
  then show ?thesis using validate_discount_spec
    by (intro fe_inv_frame [OF i])
      (use i in \<open>auto simp: config_ok_def fe_inv_def fe_core_def load_tiers_def\<close>)
next
  case (SetPerfTiers a x)
  then obtain u where "validate_perf_tiers x = Ok u" "s' = s\<lparr>perf_tiers := Some x\<rparr>" using assms(1)
    by (auto simp: fe_keep_def fe_set_perf_tiers_def)
  then show ?thesis using validate_perf_spec
    by (intro fe_inv_frame [OF i])
      (use i in \<open>auto simp: config_ok_def fe_inv_def fe_core_def load_tiers_def\<close>)
next
  case (Stake a n)
  then show ?thesis using assms(1)
    by (intro fe_inv_frame [OF i])
      (use i in \<open>auto simp: fe_stake_def save_stake_def config_ok_def fe_inv_def fe_core_def ok_iff\<close>)
next
  case (Unstake a n)
  then show ?thesis using assms(1)
    by (intro fe_inv_frame [OF i])
      (use i in \<open>auto simp: fe_unstake_def save_stake_def config_ok_def fe_inv_def fe_core_def ok_iff\<close>)
next
  case (RecordDeposit w n)
  let ?o = "load_vault_or_default s w"
  let ?st = "(if high_water_mark ?o < principal ?o + n
    then ?o\<lparr>principal := principal ?o + n, high_water_mark := principal ?o + n, last_crystallized := principal ?o + n\<rparr>
    else ?o\<lparr>principal := principal ?o + n\<rparr>)\<lparr>last_accrual := timestamp e\<rparr>"
  have s': "s' = save_vault w ?st s" and n: "0 < n"
    using assms(1) RecordDeposit by (auto simp: fe_keep_def fe_record_deposit_def fe_checked_add_def Let_def ok_iff)
  have "vault_ok ?o" using i load_vault_default_ok by (simp add: fe_inv_def)
  then show ?thesis unfolding s' using n
    by (intro fe_inv_save [OF i]) (auto simp: vault_ok_def mark_def)
next
  case (RecordWithdrawal w n)
  let ?o = "load_vault_or_default s w"
  have s': "s' = save_vault w (?o\<lparr>principal := principal ?o - n\<rparr>) s" and n: "0 < n" "n \<le> principal ?o"
    using assms(1,2) RecordWithdrawal
    by (auto simp: fe_keep_def fe_record_withdrawal_def plain_i128_checked Let_def ok_iff)
  have "vault_ok ?o" using i load_vault_default_ok by (simp add: fe_inv_def)
  then show ?thesis unfolding s' using n
    by (intro fe_inv_save [OF i]) (auto simp: vault_ok_def mark_def)
next
  case (AccrueManagementFee w n)
  then obtain fee where "fe_accrue_management_fee e w n s = Ok (fee, s')" "fe_core s"
    using assms(1) i by (auto simp: fe_drop_def fe_inv_def)
  then show ?thesis by (rule accrue_ok) (auto simp: fe_raise_simps)
next
  case (Crystallize w n)
  then obtain fee where "fe_crystallize e w n s = Ok (fee, s')" "fe_core s"
    using assms(1) i by (auto simp: fe_drop_def fe_inv_def)
  then show ?thesis using assms(2) by (rule crystallize_ok) (auto simp: fe_raise_simps)
next
  case (ComputeFees w n)
  then obtain b where "fe_compute_fees e w n s = Ok (b, s')" "fe_core s"
    using assms(1) i by (auto simp: fe_drop_def fe_inv_def)
  then show ?thesis using assms(2) by (rule compute_fees_ok) (auto simp: fe_raise_simps)
next
  case (ComputeFeesSponsored w p n)
  then obtain b where "fe_compute_fees_sponsored e w p n s = Ok (b, s')" "fe_core s"
    using assms(1) i by (auto simp: fe_drop_def fe_inv_def)
  then show ?thesis using assms(2) by (rule sponsored_ok) (auto simp: fe_raise_simps)
next
  case (SetFeeSponsor u p b)
  then show ?thesis using assms(1)
    by (intro fe_inv_frame [OF i])
      (use i in \<open>auto simp: fe_keep_def fe_set_fee_sponsor_def config_ok_def fe_inv_def fe_core_def\<close>)
qed

lemma fe_inv_fresh: "fe_inv fresh_fee_engine"
proof -
  have "perf_charges fresh_fee_engine = (\<lambda>v. Map.empty)"
    by (simp add: fun_eq_iff perf_charges_def fresh_fee_engine_def)
  then show ?thesis
    by (simp add: fe_inv_def fe_core_def config_ok_def history_ok_def tier_spec_def load_tiers_def lock_free_def
        fe_fee_history_len_def unwrap_or_def mark_def load_vault_or_default_def default_vault_state_def
        fresh_fee_engine_def)
qed

lemma fe_run_inv: "fe_run tr ba sound v s t \<Longrightarrow> fe_inv s"
  by (induction rule: fe_run.induct) (auto intro: fe_inv_fresh dest: fe_exec_inv)

section \<open>Stakes\<close>

definition stakes_of :: "fee_engine \<Rightarrow> address \<rightharpoonup> i128" where
  "stakes_of s a = map_option staked (fe_stakes s a)"

lemma stakes_of_save [simp]: "stakes_of (save_stake a st s) = (stakes_of s)(a \<mapsto> staked st)"
  by (simp add: fun_eq_iff stakes_of_def save_stake_def)

lemma staked_eq: "staked (load_stake_or_default s a) = get0 (stakes_of s) a"
  by (simp add: load_stake_or_default_def default_stake_def stakes_of_def get0_def split: option.split)

definition backed :: "'t balance \<Rightarrow> address \<Rightarrow> fee_engine \<Rightarrow> 't \<Rightarrow> bool" where
  "backed ba v s t \<longleftrightarrow> finite (dom (stakes_of s)) \<and> (\<forall>a. 0 \<le> get0 (stakes_of s) a)
     \<and> map_total (stakes_of s) \<le> ba t v"

text \<open>Only \<open>stake\<close> and \<open>unstake\<close> touch the stakes or the token.\<close>

lemma fe_exec_stakes:
  assumes "fe_exec tr e c s t = Ok (s', t')" and "overflow_checks e" and "fe_core s"
    and "\<And>a n. c \<noteq> Stake a n" "\<And>a n. c \<noteq> Unstake a n"
  shows "stakes_of s' = stakes_of s \<and> t' = t"
proof -
  have "fe_stakes s' = fe_stakes s \<and> t' = t"
  proof (cases c)
    case (AccrueManagementFee w n)
    then obtain fee where "fe_accrue_management_fee e w n s = Ok (fee, s')" "t' = t"
      using assms(1) by (auto simp: fe_drop_def)
    then show ?thesis using accrue_ok [OF _ assms(3)] by (metis fe_same_def)
  next
    case (Crystallize w n)
    then obtain fee where "fe_crystallize e w n s = Ok (fee, s')" "t' = t"
      using assms(1) by (auto simp: fe_drop_def)
    then show ?thesis using crystallize_ok [OF _ assms(3,2)] by (metis fe_same_def)
  next
    case (ComputeFees w n)
    then obtain b where "fe_compute_fees e w n s = Ok (b, s')" "t' = t"
      using assms(1) by (auto simp: fe_drop_def)
    then show ?thesis using compute_fees_ok [OF _ assms(3,2)] by (metis fe_same_def)
  next
    case (ComputeFeesSponsored w p n)
    then obtain b where "fe_compute_fees_sponsored e w p n s = Ok (b, s')" "t' = t"
      using assms(1) by (auto simp: fe_drop_def)
    then show ?thesis using sponsored_ok [OF _ assms(3,2)] by (metis fe_same_def)
  qed (use assms in \<open>auto simp: fe_keep_def fe_initialize_def fe_set_fee_config_def fe_set_discount_tiers_def
      fe_set_perf_tiers_def fe_record_deposit_def fe_record_withdrawal_def fe_set_fee_sponsor_def save_vault_def
      Let_def ok_iff\<close>)
  then show ?thesis by (simp add: fun_eq_iff stakes_of_def)
qed

context token_iface
begin

lemma fe_stake_backed:
  assumes "fe_stake transfer e a n s t = Ok (s', t')" and "\<not> authorized e (self e)" and "sound t"
    and "backed balance (self e) s t"
  shows "sound t' \<and> backed balance (self e) s' t'
    \<and> stakes_of s' = (stakes_of s)(a \<mapsto> get0 (stakes_of s) a + n) \<and> authorized e a"
proof -
  obtain k where a: "authorized e a" "0 < n" "transfer (invoke_env e k) a (self e) n t = Ok t'"
    "stakes_of s' = (stakes_of s)(a \<mapsto> get0 (stakes_of s) a + n)"
    using assms(1) by (auto simp: fe_stake_def fe_checked_add_def ok_iff staked_eq)
  have "a \<noteq> self e" using a(1) assms(2) by auto
  then have "balance t' (self e) = balance t (self e) + n"
    using transfer_pair [OF a(3) assms(3)] a(2) by simp
  then show ?thesis
    using a assms(4) transfer_sound [OF a(3) assms(3)] by (simp add: backed_def)
qed

lemma fe_unstake_backed:
  assumes "fe_unstake transfer e a n s t = Ok (s', t')" and "\<not> authorized e (self e)" and "sound t"
    and "overflow_checks e" and "backed balance (self e) s t"
  shows "sound t' \<and> backed balance (self e) s' t'
    \<and> stakes_of s' = (stakes_of s)(a \<mapsto> get0 (stakes_of s) a - n) \<and> authorized e a"
proof -
  obtain k where a: "authorized e a" "0 < n" "transfer (invoke_env e k) (self e) a n t = Ok t'"
    "stakes_of s' = (stakes_of s)(a \<mapsto> get0 (stakes_of s) a - n)" "n \<le> get0 (stakes_of s) a"
    using assms(1,4) by (auto simp: fe_unstake_def plain_i128_checked ok_iff staked_eq)
  have "a \<noteq> self e" using a(1) assms(2) by auto
  then have "balance t' (self e) = balance t (self e) - n"
    using transfer_pair [OF a(3) assms(3)] a(2) by simp
  then show ?thesis
    using a assms(5) transfer_sound [OF a(3) assms(3)] by (simp add: backed_def)
qed

lemma fe_run_backed: "fe_run transfer balance sound v s t \<Longrightarrow> sound t \<and> backed balance v s t"
proof (induction rule: fe_run.induct)
  case (fe_start t)
  have "stakes_of fresh_fee_engine = Map.empty" by (simp add: fun_eq_iff stakes_of_def fresh_fee_engine_def)
  then show ?case using fe_start balance_range by (simp add: backed_def)
next
  case (fe_call s t e c s' t')
  have i: "fe_core s" using fe_run_inv [OF fe_call(1)] by (simp add: fe_inv_def)
  show ?case
  proof (cases "\<exists>a n. c = Stake a n \<or> c = Unstake a n")
    case True
    then show ?thesis using fe_call fe_stake_backed fe_unstake_backed by auto
  next
    case False
    then show ?thesis using fe_exec_stakes [OF fe_call(5,3) i] fe_call by (simp add: backed_def)
  qed
qed (auto simp: backed_def)

end

section \<open>Charges that succeed\<close>

text \<open>
  Amounts up to \<open>2 ^ 80\<close>, fees paid up to \<open>2 ^ 100\<close> and periods up to \<open>2 ^ 32\<close> seconds, about 136
  years, leave room for every product the engine forms.
\<close>

lemma in_i128_small: "- (2 ^ 126) \<le> x \<Longrightarrow> x \<le> 2 ^ 126 \<Longrightarrow> in_i128 x"
  by (simp add: in_i128_iff)

lemma in_i128_nonneg: "0 \<le> x \<Longrightarrow> x \<le> b \<Longrightarrow> b \<le> 2 ^ 126 \<Longrightarrow> in_i128 x"
  by (simp add: in_i128_iff)

lemma mult_bound: "0 \<le> x \<Longrightarrow> 0 \<le> y \<Longrightarrow> x \<le> a \<Longrightarrow> y \<le> b \<Longrightarrow> 0 \<le> x * y \<and> x * y \<le> a * (b :: int)"
  by (simp add: mult_mono)

lemma split_fee_some:
  assumes "0 \<le> fee" "fee \<le> 2 ^ 100" "bps \<le> 10000"
  shows "fe_split_fee fee bps = Ok (fee - fee * uint bps div 10000, fee * uint bps div 10000)"
proof -
  have b: "uint bps \<le> 10000" using assms(3) by (simp add: word_le_def)
  have m: "0 \<le> fee * uint bps" "fee * uint bps \<le> 2 ^ 100 * 10000"
    using mult_bound [OF assms(1) _ assms(2) b] by simp_all
  then have "in_i128 (fee * uint bps)" by (rule in_i128_nonneg) simp
  moreover have "0 \<le> fee * uint bps div 10000" using m(1) by (simp add: pos_imp_zdiv_nonneg_iff)
  then have "fee - fee * uint bps div 10000 \<le> 2 ^ 100" using assms(2) by linarith
  with bps_whole_le [OF assms(1) b] have "in_i128 (fee - fee * uint bps div 10000)"
    by (intro in_i128_nonneg [of _ "2 ^ 100"]) simp_all
  ultimately show ?thesis
    using assms(3) m by (simp add: fe_split_fee_def checked_mul_def checked_sub_def fe_BPS_DENOMINATOR_def div_i128_pos not_less)
qed

lemma charge_record_some:
  assumes "0 \<le> fee" "fee \<le> 2 ^ 90" "protocol_share_bps c \<le> 10000"
  shows "\<exists>s'. charge_record e w c fee k s = Ok s'"
  using split_fee_some [OF assms(1) _ assms(3)] assms(2) by (simp add: charge_record_def)

lemma config_bps:
  assumes "config_ok s" "fe_config s = Some c"
  shows "uint (management_fee_bps c) \<le> 2000" "protocol_share_bps c \<le> 10000"
  using assms by (auto simp: config_ok_def MAX_FEE_BPS_def word_le_def)

lemma accrue_some:
  assumes "fe_inv s" "fe_config s = Some c" "fe_vaults s w = Some st" "0 \<le> aum" "aum \<le> 2 ^ 80"
    "unat (timestamp e) - unat (last_accrual st) \<le> 2 ^ 32" "\<bar>fees_paid st\<bar> \<le> 2 ^ 100"
  shows "\<exists>s'. fe_accrue_management_fee e w aum s = Ok (management_due c st (timestamp e) aum, s')"
    and "management_due c st (timestamp e) aum \<le> 2 ^ 90"
proof -
  let ?m = "uint (management_fee_bps c)"
  let ?el = "saturating_sub_word (timestamp e) (last_accrual st)"
  let ?fee = "management_due c st (timestamp e) aum"
  have cfg: "config_ok s" using assms(1) by (simp add: fe_inv_def fe_core_def)
  have el: "uint ?el \<le> 2 ^ 32" using assms(6) by (simp add: uint_elapsed)
  have x: "0 \<le> aum * ?m" "aum * ?m \<le> 2 ^ 80 * 2000"
    using mult_bound [OF assms(4) _ assms(5) config_bps(1) [OF cfg assms(2)]] by simp_all
  have y: "0 \<le> aum * ?m * uint ?el" "aum * ?m * uint ?el \<le> 2 ^ 80 * 2000 * 2 ^ 32"
    using mult_bound [OF x(1) _ x(2) el] by simp_all
  have r: "in_i128 (aum * ?m)" "in_i128 (aum * ?m * uint ?el)"
    using in_i128_nonneg [OF x] in_i128_nonneg [OF y] by simp_all
  have fee: "?fee = aum * ?m * uint ?el div 315360000000"
    using assms(4) by (simp add: management_due_def uint_elapsed max_def)
  then show bound: "?fee \<le> 2 ^ 90" using y(2) by simp
  have paid: "in_i128 (fees_paid st + ?fee)"
    using bound due_nonneg(1) [of c st "timestamp e" aum] assms(7) by (intro in_i128_small) simp_all
  have step: "(if ?el = 0 \<or> aum \<le> 0 then Ok 0
      else and_then (ok_or (checked_mul aum ?m) MathOverflow) (\<lambda>x. and_then (ok_or (checked_mul x (uint ?el)) MathOverflow)
        (\<lambda>y. div_i128 y (fe_BPS_DENOMINATOR * SECONDS_PER_YEAR)))) = (Ok ?fee :: (i128, fe_error) result)"
    using r y(1) assms(4)
    by (auto simp: fee checked_mul_def div_i128_pos fe_BPS_DENOMINATOR_def SECONDS_PER_YEAR_def)
  obtain s1 where "charge_record e w c ?fee 1 (save_vault w
      (st\<lparr>last_accrual := timestamp e, fees_paid := fees_paid st + ?fee\<rparr>) (s\<lparr>reentrancy_lock := Some True\<rparr>)) = Ok s1"
    using charge_record_some [OF due_nonneg(1) bound config_bps(2) [OF cfg assms(2)]] by blast
  then have "accrue_body e w aum (s\<lparr>reentrancy_lock := Some True\<rparr>) = Ok (?fee, s1)"
    unfolding accrue_body_def fe_load_config_def load_vault_def
    using assms(2,3) step paid by (simp add: fe_checked_add_def checked_add_def Let_def)
  then show "\<exists>s'. fe_accrue_management_fee e w aum s = Ok (?fee, s')"
    using assms(1) by (auto simp: fe_accrue_management_fee_def with_lock_ok fe_inv_def)
qed

lemma crystallize_some:
  assumes "fe_inv s" "fe_config s = Some c" "fe_vaults s w = Some st" "0 \<le> nav" "nav \<le> 2 ^ 80"
    "high_water_mark st \<le> 2 ^ 80" "\<bar>fees_paid st\<bar> \<le> 2 ^ 110"
  shows "\<exists>s'. fe_crystallize e w nav s = Ok (performance_due s c st nav, s')"
    and "performance_due s c st nav \<le> 2 ^ 80"
proof -
  let ?l = "s\<lparr>reentrancy_lock := Some True\<rparr>"
  let ?fee = "performance_due s c st nav"
  have cfg: "config_ok s" and v: "vault_ok st" using assms(1,3) by (auto simp: fe_inv_def fe_core_def)
  have hwm: "0 \<le> high_water_mark st" "last_crystallized st \<le> high_water_mark st" using v by (auto simp: vault_ok_def)
  note due = performance_due_bounds [OF cfg assms(2), of st nav]
  then show bound: "?fee \<le> 2 ^ 80" using assms(4,5) hwm by (simp add: max_def split: if_splits)
  have l: "perf_rate ?l = perf_rate s" by (simp add: perf_rate_def fun_eq_iff)
  have prod: "0 \<le> n * uint (perf_rate s c n)" "in_i128 (n * uint (perf_rate s c n))"
    if "0 \<le> n" "n \<le> 2 ^ 80" for n
    using mult_bound [OF that(1) _ that(2) perf_rate_le [OF cfg assms(2), of n]]
      in_i128_nonneg [of "n * uint (perf_rate s c n)" "2 ^ 80 * 2000"] by simp_all
  have small: "in_i128 n" if "0 \<le> n" "n \<le> 2 ^ 80" for n
    using in_i128_nonneg [OF that] by simp
  have paid: "in_i128 (fees_paid st + ?fee)"
    using bound conjunct1 [OF due] assms(7) by (intro in_i128_small) simp_all
  obtain s1 where up: "charge_record e w c ?fee 2 (save_vault w
      (st\<lparr>high_water_mark := nav, last_crystallized := nav, fees_paid := fees_paid st + ?fee\<rparr>) ?l) = Ok s1"
    using charge_record_some [of ?fee c] due bound config_bps(2) [OF cfg assms(2)] by fastforce
  have "\<exists>s'. crystallize_body e w nav ?l = Ok (?fee, s')"
  proof (cases "high_water_mark st < nav")
    case True
    then have n: "0 \<le> nav - high_water_mark st" "nav - high_water_mark st \<le> 2 ^ 80" using assms hwm by simp_all
    have "?fee = (nav - high_water_mark st) * uint (perf_rate s c (nav - high_water_mark st)) div 10000"
      using True by (simp add: performance_due_def Let_def)
    then show ?thesis
      using True prod [OF n] small [OF n] up paid assms(2,3)
      by (simp add: Let_def crystallize_body_def fe_load_config_def load_vault_def plain_i128_ok perf_rate_eq l checked_mul_def
          fe_BPS_DENOMINATOR_def div_i128_pos fe_checked_add_def checked_add_def)
  next
    case False
    then have z: "?fee = 0" by (simp add: performance_due_def Let_def)
    show ?thesis
    proof (cases "nav < last_crystallized st")
      case True
      then have n: "0 \<le> last_crystallized st - nav" "last_crystallized st - nav \<le> 2 ^ 80" using assms hwm by simp_all
      show ?thesis
        using True False z prod [OF n] small [OF n] assms(2,3)
        by (simp add: Let_def crystallize_body_def fe_load_config_def load_vault_def plain_i128_ok perf_rate_eq l checked_mul_def
          fe_BPS_DENOMINATOR_def div_i128_pos)
    qed (use False z assms(2,3) in \<open>simp add: crystallize_body_def fe_load_config_def load_vault_def\<close>)
  qed
  then show "\<exists>s'. fe_crystallize e w nav s = Ok (?fee, s')"
    using assms(1) by (auto simp: fe_crystallize_def with_lock_ok fe_inv_def)
qed

lemma compute_fees_some:
  assumes "fe_inv s" "fe_config s = Some c" "fe_vaults s w = Some st" "overflow_checks e"
    "0 \<le> nav" "nav \<le> 2 ^ 80" "high_water_mark st \<le> 2 ^ 80"
    "unat (timestamp e) - unat (last_accrual st) \<le> 2 ^ 32" "\<bar>fees_paid st\<bar> \<le> 2 ^ 100"
  shows "\<exists>b s'. fe_compute_fees e w nav s = Ok (b, s')"
proof -
  let ?m = "management_due c st (timestamp e) nav"
  obtain s1 where m: "fe_accrue_management_fee e w nav s = Ok (?m, s1)" and mb: "?m \<le> 2 ^ 90"
    using accrue_some [OF assms(1-3,5,6,8,9)] by auto
  define st1 where "st1 = st\<lparr>last_accrual := timestamp e, fees_paid := fees_paid st + ?m\<rparr>"
  have core: "fe_core s" using assms(1) by (simp add: fe_inv_def)
  have a: "fe_vaults s1 w = Some st1" "fe_inv s1" "fe_config s1 = Some c"
    using m core by (rule accrue_ok; use assms(2,3) in \<open>simp add: fe_inv_def fe_same_def st1_def\<close>)+
  let ?p = "performance_due s1 c st1 nav"
  have "\<bar>fees_paid st1\<bar> \<le> 2 ^ 110"
    using assms(9) mb due_nonneg(1) [of c st "timestamp e" nav] by (simp add: st1_def)
  then obtain s2 where p: "fe_crystallize e w nav s1 = Ok (?p, s2)" and pb: "?p \<le> 2 ^ 80"
    using crystallize_some [OF a(2,3,1) assms(5,6)] assms(7) by (auto simp: st1_def)
  have core1: "fe_core s1" using a(2) by (simp add: fe_inv_def)
  have q: "fe_config s2 = Some c" "config_ok s2"
    using p core1 assms(4) by (rule crystallize_ok; use a(3) in \<open>simp add: fe_same_def fe_core_def\<close>)+
  have t: "0 \<le> ?m + ?p" "?m + ?p \<le> 2 ^ 91"
    using mb pb due_nonneg(1) [of c st "timestamp e" nav] due_nonneg(2) [OF _ a(3)] core1
    by (simp_all add: fe_core_def)
  obtain r where r: "rebate_for_stake s2 (staked (load_stake_or_default s2 w)) = Ok r" "uint r = fe_rebate s2 w"
    using rebate_best [of s2] rebate_eq [OF q(2)] q(2) by (metis config_ok_def tier_spec_def)
  have rb: "uint r \<le> 10000" using r(2) fe_rebate_le [OF q(2), of w] by simp
  have d: "0 \<le> (?m + ?p) * uint r" "(?m + ?p) * uint r \<le> 2 ^ 91 * 10000"
    using mult_bound [OF t(1) _ t(2) rb] by simp_all
  let ?n = "?m + ?p - (?m + ?p) * uint r div 10000"
  have "0 \<le> (?m + ?p) * uint r div 10000" using d(1) by (simp add: pos_imp_zdiv_nonneg_iff)
  then have n: "0 \<le> ?n" "?n \<le> 2 ^ 91" using bps_whole_le [OF t(1) rb] t(2) by linarith+
  have "?n \<le> 2 ^ 100" using n(2) by simp
  note sp = split_fee_some [OF n(1) this config_bps(2) [OF q(2,1)]]
  have "in_i128 (?m + ?p)" "in_i128 ((?m + ?p) * uint r)" "in_i128 ?n"
    using in_i128_nonneg [OF t] in_i128_nonneg [OF d] in_i128_nonneg [OF n] by simp_all
  then show ?thesis
    using m p q(1) r(1) sp d(1)
    by (simp add: fe_compute_fees_def fe_load_config_def fe_checked_add_def checked_add_def checked_mul_def
        checked_sub_def fe_BPS_DENOMINATOR_def div_i128_pos)
qed

lemma crystallize_records:
  assumes "fe_crystallize e w nav s = Ok (fee, s')" and "overflow_checks e" and "0 < fee"
  shows "fe_fee_history_len s' = next_seq s
    \<and> (\<exists>r. fee_history s' (next_seq s) = Some r \<and> rec_vault r = w \<and> rec_net r = fee \<and> rec_kind r = 2)"
proof -
  let ?l = "s\<lparr>reentrancy_lock := Some True\<rparr>"
  obtain s1 where b: "crystallize_body e w nav ?l = Ok (fee, s1)"
    and s': "s' = s1\<lparr>reentrancy_lock := Some False\<rparr>"
    using assms(1) by (auto simp: fe_crystallize_def with_lock_ok)
  obtain c st where "fee = performance_due ?l c st nav"
    and up: "high_water_mark st < nav \<Longrightarrow> charge_record e w c fee 2 (save_vault w
      (st\<lparr>high_water_mark := nav, last_crystallized := nav, fees_paid := fees_paid st + fee\<rparr>) ?l) = Ok s1"
    using b assms(2) by (rule crystallize_body_ok) auto
  then have "high_water_mark st < nav"
    using assms(3) by (cases "high_water_mark st < nav") (auto simp: performance_due_def Let_def)
  from up [OF this] obtain x y st1 where "s1 = record_fee_event e w w fee 0 fee x y 2 (save_vault w st1 ?l)"
    using assms(3) by (auto simp: charge_record_def)
  moreover have "next_seq (save_vault w st1 ?l) = next_seq s"
    by (simp add: next_seq_def fe_fee_history_len_def save_vault_def)
  moreover have "fe_fee_history_len s' = fe_fee_history_len s1" by (simp add: s' fe_fee_history_len_def)
  ultimately show ?thesis by (simp add: s')
qed

lemma due_split: "(a :: int) * x div n + a * y div n \<le> a * (x + y) div n
    \<and> a * (x + y) div n \<le> a * x div n + a * y div n + 1" if "0 < n"
proof -
  have "a * (x + y) div n = a * x div n + a * y div n + (a * x mod n + a * y mod n) div n"
    by (simp add: ring_distribs div_add1_eq [of "a * x"])
  moreover have "0 \<le> (a * x mod n + a * y mod n) div n"
    using that by (simp add: pos_imp_zdiv_nonneg_iff)
  moreover have "(a * x mod n + a * y mod n) div n < 2"
  proof -
    let ?m = "a * x mod n + a * y mod n"
    have "?m < 2 * n" using pos_mod_bound [OF that, of "a * x"] pos_mod_bound [OF that, of "a * y"] by simp
    moreover have "?m div n * n \<le> ?m"
      using div_mult_mod_eq [of ?m n] pos_mod_sign [OF that, of ?m] by linarith
    ultimately have "?m div n * n < 2 * n" by linarith
    then show ?thesis using that by (simp add: mult_less_cancel_right)
  qed
  ultimately show ?thesis by linarith
qed

section \<open>Examples\<close>

fun fe_play ::
  "('t, 'x) transfer \<Rightarrow> (env \<times> fe_call) list \<Rightarrow> fee_engine \<Rightarrow> 't \<Rightarrow> (fee_engine \<times> 't, fe_error) result" where
  "fe_play tr [] s t = Ok (s, t)"
| "fe_play tr ((e, c) # cs) s t = and_then (fe_exec tr e c s t) (\<lambda>(s, t). fe_play tr cs s t)"

definition fe_env :: "u64 \<Rightarrow> env" where
  "fe_env now = \<lparr>sequence = 100, timestamp = now, authorized = (\<lambda>a. a < 3), self = 50, overflow_checks = True\<rparr>"

lemma fe_env_simps [simp]:
  "self (fe_env now) = 50" "overflow_checks (fe_env now)" "\<not> authorized (fe_env now) 50"
  "timestamp (fe_env now) = now"
  by (simp_all add: fe_env_def)

lemma fe_play_run:
  assumes "fe_play tok_transfer (map (\<lambda>(now, c). (fe_env now, c)) cs) s t = Ok (s', t')"
    and "fe_run tok_transfer tok_balance tok_sound 50 s t"
  shows "fe_run tok_transfer tok_balance tok_sound 50 s' t'"
  using assms
proof (induction cs arbitrary: s t)
  case (Cons x cs)
  then obtain now c s1 t1 where "x = (now, c)" "fe_exec tok_transfer (fe_env now) c s t = Ok (s1, t1)"
    "fe_play tok_transfer (map (\<lambda>(now, c). (fe_env now, c)) cs) s1 t1 = Ok (s', t')"
    by (cases x) auto
  with Cons.IH [OF this(3) fe_call [OF Cons.prems(2) _ _ _ this(2)]] show ?case by simp
qed simp

definition fe_story :: "(u64 \<times> fe_call) list \<Rightarrow> (fee_engine \<times> token, fe_error) result" where
  "fe_story cs = fe_play tok_transfer (map (\<lambda>(now, c). (fe_env now, c)) cs) fresh_fee_engine token_example"

lemma fe_story_run: "fe_story cs = Ok (s, t) \<Longrightarrow> fe_run tok_transfer tok_balance tok_sound 50 s t"
  unfolding fe_story_def by (erule fe_play_run) (rule fe_start, rule token_example_sound)

definition fe_holds :: "(fee_engine \<Rightarrow> token \<Rightarrow> bool) \<Rightarrow> (fee_engine \<times> token, fe_error) result \<Rightarrow> bool" where
  "fe_holds P r = (case r of Ok (s, t) \<Rightarrow> P s t | _ \<Rightarrow> False)"

lemma fe_storyE:
  assumes "fe_holds P (fe_story cs)"
  obtains s t where "fe_run tok_transfer tok_balance tok_sound 50 s t" "P s t"
  using assms by (auto simp: fe_holds_def split: result.splits intro: that fe_story_run)

definition fe_returns :: "'r \<Rightarrow> ('r \<times> fee_engine, fe_error) result \<Rightarrow> bool" where
  "fe_returns x r = (case r of Ok (y, s) \<Rightarrow> y = x | _ \<Rightarrow> False)"

lemma fe_returnsE:
  assumes "fe_returns x r"
  obtains s where "r = Ok (x, s)"
  using assms by (auto simp: fe_returns_def split: result.splits)

text \<open>A vault 2 with principal 1000000 at a 10 % performance and a 2 % management fee.\<close>

definition fe_setup :: "(u64 \<times> fe_call) list" where
  "fe_setup = [(1000, fe_call.Initialize 1 9),
     (1000, SetFeeConfig 1 \<lparr>management_fee_bps = 200, performance_fee_bps = 1000, protocol_share_bps = 3000,
        vault_fee_recipient = 4, treasury = 6\<rparr>),
     (1000, SetDiscountTiers 1 [\<lparr>min_stake = 50, rebate_bps = 1000\<rparr>, \<lparr>min_stake = 90, rebate_bps = 5000\<rparr>]),
     (1000, RecordDeposit 2 1000000)]"

lemma fe_setup_state:
  obtains s t where "fe_run tok_transfer tok_balance tok_sound 50 s t"
    "fe_config s = Some \<lparr>management_fee_bps = 200, performance_fee_bps = 1000, protocol_share_bps = 3000,
        vault_fee_recipient = 4, treasury = 6\<rparr>"
    "fe_vaults s 2 = Some \<lparr>principal = 1000000, high_water_mark = 1000000, last_crystallized = 1000000,
      last_accrual = 1000, fees_paid = 0\<rparr>"
    "mark s 2 = 1000000" "fe_fee_history_len s = 0"
    "fe_returns 50000 (fe_crystallize (fe_env 2000) 2 1500000 s)"
    "(case fe_accrue_management_fee (fe_env 11000) 2 1000000 s of
       Ok (f, s1) \<Rightarrow> f = 6 \<and> fe_returns 6 (fe_accrue_management_fee (fe_env 21000) 2 1000000 s1) | _ \<Rightarrow> False)"
    "fe_returns 12 (fe_accrue_management_fee (fe_env 21000) 2 1000000 s)"
    "(case fe_record_deposit (fe_env 31537000) 2 1 s of
       Ok s' \<Rightarrow> is_ok (fe_accrue_management_fee (fe_env 31537000) 2 1000000 s') | _ \<Rightarrow> False)"
proof -
  have "fe_holds (\<lambda>s t. fe_config s = Some \<lparr>management_fee_bps = 200, performance_fee_bps = 1000,
        protocol_share_bps = 3000, vault_fee_recipient = 4, treasury = 6\<rparr>
    \<and> fe_vaults s 2 = Some \<lparr>principal = 1000000, high_water_mark = 1000000, last_crystallized = 1000000,
      last_accrual = 1000, fees_paid = 0\<rparr>
    \<and> mark s 2 = 1000000 \<and> fe_fee_history_len s = 0
    \<and> fe_returns 50000 (fe_crystallize (fe_env 2000) 2 1500000 s)
    \<and> (case fe_accrue_management_fee (fe_env 11000) 2 1000000 s of
       Ok (f, s1) \<Rightarrow> f = 6 \<and> fe_returns 6 (fe_accrue_management_fee (fe_env 21000) 2 1000000 s1) | _ \<Rightarrow> False)
    \<and> fe_returns 12 (fe_accrue_management_fee (fe_env 21000) 2 1000000 s)
    \<and> (case fe_record_deposit (fe_env 31537000) 2 1 s of
       Ok s' \<Rightarrow> is_ok (fe_accrue_management_fee (fe_env 31537000) 2 1000000 s') | _ \<Rightarrow> False)) (fe_story fe_setup)"
    by code_simp
  then show thesis by (rule fe_storyE) (elim conjE, rule that)
qed

section \<open>Properties\<close>

text \<open>
  C17. Performance fees are charged on profit above the high-water mark, and only once: in every
  reachable state the performance fees on record against a vault sum to at most a fifth of its
  mark, no call ever lowers the mark, and a crystallisation charges nothing at or below the mark, at
  most a fifth of what the NAV is above it, and moves the mark up to the NAV.
\<close>

theorem fe_performance_fees_bounded:
  assumes "fe_run tr ba sound v s t" and "overflow_checks e"
  shows "5 * map_total (perf_charges s w) \<le> mark s w
    \<and> (fe_exec tr e c s t = Ok (s', t') \<longrightarrow> mark s w \<le> mark s' w)
    \<and> (fe_crystallize e w nav s = Ok (fee, s'') \<longrightarrow>
         0 \<le> fee \<and> 5 * fee \<le> max 0 (nav - mark s w) \<and> mark s'' w = max (mark s w) nav)"
proof (intro conjI impI)
  have i: "fe_inv s" using assms(1) by (rule fe_run_inv)
  then have core: "fe_core s" by (simp add: fe_inv_def)
  then show "5 * map_total (perf_charges s w) \<le> mark s w" by (simp add: fe_core_def)
  show "mark s w \<le> mark s' w" if "fe_exec tr e c s t = Ok (s', t')"
    using fe_exec_inv [OF that assms(2) i] by simp
  assume "fe_crystallize e w nav s = Ok (fee, s'')"
  from this core assms(2) obtain c st st' where o: "fe_config s = Some c" "fe_vaults s w = Some st"
    "fee = performance_due s c st nav" "fe_vaults s'' = (fe_vaults s)(w \<mapsto> st')"
    "high_water_mark st' = max (high_water_mark st) nav" by (rule crystallize_ok)
  have "config_ok s" using core by (simp add: fe_core_def)
  from performance_due_bounds [OF this o(1), of st nav]
  show "0 \<le> fee" "5 * fee \<le> max 0 (nav - mark s w)" "mark s'' w = max (mark s w) nav"
    using o by (simp_all add: mark_of)
qed

theorem fe_performance_fees_bounded_witness:
  "\<exists>s t s'. fe_run tok_transfer tok_balance tok_sound 50 s t
     \<and> fe_crystallize (fe_env 2000) 2 1500000 s = Ok (50000, s') \<and> mark s 2 = 1000000 \<and> mark s' 2 = 1500000
     \<and> map_total (perf_charges s 2) \<le> 200000"
proof -
  obtain s t where r: "fe_run tok_transfer tok_balance tok_sound 50 s t" "mark s 2 = 1000000"
    and "fe_returns 50000 (fe_crystallize (fe_env 2000) 2 1500000 s)" by (rule fe_setup_state)
  then obtain s' where c: "fe_crystallize (fe_env 2000) 2 1500000 s = Ok (50000, s')" by (elim fe_returnsE)
  show ?thesis
    using r c fe_performance_fees_bounded [OF r(1), of "fe_env 2000" 2, where nav = 1500000] by fastforce
qed

text \<open>
  C25. A charge is always possible and exact: once the configuration and the vault exist, and with
  amounts and times that leave room for the products, \<open>compute_fees\<close> succeeds in every reachable
  state. It returns the management fee of the elapsed time, the performance fee at the rate of the
  tier the profit reaches, the rebate of the tier the stake reaches, and a net fee that the two
  shares divide without loss.
\<close>

theorem fe_charge_exact:
  assumes "fe_run tr ba sound v s t" "fe_config s = Some c" "fe_vaults s w = Some st" "overflow_checks e"
    "0 \<le> nav" "nav \<le> 2 ^ 80" "high_water_mark st \<le> 2 ^ 80"
    "unat (timestamp e) - unat (last_accrual st) \<le> 2 ^ 32" "\<bar>fees_paid st\<bar> \<le> 2 ^ 100"
  shows "\<exists>b s'. fe_compute_fees e w nav s = Ok (b, s')
    \<and> management_fee b = nav * uint (management_fee_bps c)
        * int (unat (timestamp e) - unat (last_accrual st)) div 315360000000
    \<and> performance_fee b = performance_due s c st nav
    \<and> discount b = (management_fee b + performance_fee b) * fe_rebate s w div 10000
    \<and> net_total b = management_fee b + performance_fee b - discount b
    \<and> 0 \<le> discount b \<and> 0 \<le> vault_share b \<and> 0 \<le> protocol_share b
    \<and> vault_share b + protocol_share b = net_total b"
proof -
  have i: "fe_inv s" using assms(1) by (rule fe_run_inv)
  then have core: "fe_core s" "config_ok s" by (simp_all add: fe_inv_def fe_core_def)
  obtain b s' where b: "fe_compute_fees e w nav s = Ok (b, s')"
    using compute_fees_some [OF i assms(2-)] by blast
  have e: "b = breakdown_due s c st w (timestamp e) nav"
    using b core(1) assms(4) by (rule compute_fees_ok) (use assms(2,3) in simp)
  have m: "management_due c st (timestamp e) nav = nav * uint (management_fee_bps c)
        * int (unat (timestamp e) - unat (last_accrual st)) div 315360000000"
    using assms(5) by (simp add: management_due_def max_absorb2)
  show ?thesis
    using b breakdown_due_ok [OF core(2) assms(2), of st w "timestamp e" nav, folded e, unfolded Let_def]
      breakdown_due_fields [of s c st w "timestamp e" nav, folded e, unfolded Let_def m] by blast
qed

theorem fe_charge_exact_witness:
  "\<exists>s t b s'. fe_run tok_transfer tok_balance tok_sound 50 s t
     \<and> fe_compute_fees (fe_env 31537000) 2 1500000 s = Ok (b, s')
     \<and> management_fee b = 30000 \<and> performance_fee b = 50000 \<and> discount b = 8000
     \<and> vault_share b + protocol_share b = 72000"
proof -
  let ?c = "\<lparr>management_fee_bps = 200, performance_fee_bps = 1000, protocol_share_bps = 3000,
        vault_fee_recipient = 4, treasury = 6\<rparr>"
  let ?st = "\<lparr>principal = 1000000, high_water_mark = 1000000, last_crystallized = 1000000,
        last_accrual = 1000, fees_paid = 0\<rparr>"
  have "fe_holds (\<lambda>s t. fe_config s = Some ?c \<and> fe_vaults s 2 = Some ?st
      \<and> performance_due s ?c ?st 1500000 = 50000 \<and> fe_rebate s 2 = 1000) (fe_story (fe_setup @ [(1000, Stake 2 60)]))"
    by code_simp
  then obtain s t where r: "fe_run tok_transfer tok_balance tok_sound 50 s t" "fe_config s = Some ?c"
    "fe_vaults s 2 = Some ?st" "performance_due s ?c ?st 1500000 = 50000" "fe_rebate s 2 = 1000"
    by (rule fe_storyE) simp
  have "overflow_checks (fe_env 31537000)" "(0 :: i128) \<le> 1500000" "(1500000 :: i128) \<le> 2 ^ 80"
    "high_water_mark ?st \<le> 2 ^ 80" "unat (timestamp (fe_env 31537000)) - unat (last_accrual ?st) \<le> 2 ^ 32"
    "\<bar>fees_paid ?st\<bar> \<le> 2 ^ 100" by simp_all
  from fe_charge_exact [OF r(1-3) this] obtain b s' where
    b: "fe_compute_fees (fe_env 31537000) 2 1500000 s = Ok (b, s')"
      "management_fee b = 1500000 * uint (management_fee_bps ?c)
         * int (unat (timestamp (fe_env 31537000)) - unat (last_accrual ?st)) div 315360000000"
      "performance_fee b = 50000" "discount b = (management_fee b + performance_fee b) * 1000 div 10000"
      "net_total b = management_fee b + performance_fee b - discount b"
      "vault_share b + protocol_share b = net_total b"
    unfolding r(4,5) by blast
  have "management_fee b = 30000" by (simp add: b(2))
  then show ?thesis using r(1) b by auto
qed

text \<open>
  C28. The history of fees is complete and consistent: in every reachable state the records are
  exactly those with sequence numbers from one to the length of the history, each carries its own
  number, and its net fee is positive, is the gross fee less the discount, and is what the two
  shares sum to. A crystallisation with a fee appends a record of that fee against that vault.
\<close>

theorem fe_history_exact:
  assumes "fe_run tr ba sound v s t"
  shows "is_ok (fe_get_fee_record s k) = (1 \<le> unat k \<and> unat k \<le> unat (fe_fee_history_len s))
    \<and> (fe_get_fee_record s k = Ok r \<longrightarrow> rec_seq r = k \<and> 0 < rec_net r
        \<and> rec_net r = rec_gross r - rec_discount r \<and> rec_vault_share r + rec_protocol_share r = rec_net r)
    \<and> (fe_crystallize e w nav s = Ok (fee, s') \<and> overflow_checks e \<and> 0 < fee
        \<and> unat (fe_fee_history_len s) + 1 < 2 ^ 64 \<longrightarrow>
          unat (fe_fee_history_len s') = unat (fe_fee_history_len s) + 1
          \<and> (\<exists>r'. fe_get_fee_record s' (fe_fee_history_len s') = Ok r'
              \<and> rec_vault r' = w \<and> rec_net r' = fee \<and> rec_kind r' = 2))"
proof -
  have h: "history_ok s" using fe_run_inv [OF assms] by (simp add: fe_inv_def fe_core_def)
  have "is_ok (fe_get_fee_record s k) = (fee_history s k \<noteq> None)"
    by (auto simp: fe_get_fee_record_def is_ok_iff)
  then show ?thesis
    using h crystallize_records [of e w nav s fee s'] unat_next_seq [of s]
    by (auto simp: history_ok_def record_ok_def fe_get_fee_record_def)
qed

theorem fe_history_exact_witness:
  "\<exists>s t s' r. fe_run tok_transfer tok_balance tok_sound 50 s t
     \<and> fe_crystallize (fe_env 2000) 2 1500000 s = Ok (50000, s')
     \<and> unat (fe_fee_history_len s') = unat (fe_fee_history_len s) + 1
     \<and> fe_get_fee_record s' (fe_fee_history_len s') = Ok r \<and> rec_net r = 50000"
proof -
  obtain s t where r: "fe_run tok_transfer tok_balance tok_sound 50 s t" "fe_fee_history_len s = 0"
    and "fe_returns 50000 (fe_crystallize (fe_env 2000) 2 1500000 s)" by (rule fe_setup_state)
  then obtain s' where c: "fe_crystallize (fe_env 2000) 2 1500000 s = Ok (50000, s')" by (elim fe_returnsE)
  show ?thesis
    using r c fe_history_exact [OF r(1), of 0 undefined "fe_env 2000" 2 1500000 50000 s'] by auto
qed

text \<open>
  C18. Stakes are backed and belong to their stakers: in every reachable state no stake is negative
  and the stakes sum to at most the governance tokens the engine holds. Staking and unstaking need
  the staker's authorization and change that stake by exactly the amount, and no other; every other
  call, in a build that checks its arithmetic, leaves all stakes and the tokens as they are.
\<close>

theorem fe_stakes_backed:
  assumes "token_iface transfer balance sound" and "fe_run transfer balance sound v s t"
  shows "0 \<le> staked (fe_get_stake s a) \<and> map_total (stakes_of s) \<le> balance t v
    \<and> (\<forall>e b n s' t'. self e = v \<and> \<not> authorized e v \<and> fe_stake transfer e b n s t = Ok (s', t') \<longrightarrow>
        authorized e b \<and> staked (fe_get_stake s' a) = staked (fe_get_stake s a) + (if a = b then n else 0))
    \<and> (\<forall>e b n s' t'. self e = v \<and> \<not> authorized e v \<and> overflow_checks e
        \<and> fe_unstake transfer e b n s t = Ok (s', t') \<longrightarrow>
        authorized e b \<and> staked (fe_get_stake s' a) = staked (fe_get_stake s a) - (if a = b then n else 0))
    \<and> (\<forall>e c s' t'. overflow_checks e \<and> fe_exec transfer e c s t = Ok (s', t')
        \<and> (\<forall>b n. c \<noteq> Stake b n \<and> c \<noteq> Unstake b n) \<longrightarrow>
        staked (fe_get_stake s' a) = staked (fe_get_stake s a) \<and> t' = t)"
proof -
  have core: "fe_core s" using fe_run_inv [OF assms(2)] by (simp add: fe_inv_def)
  have b: "sound t" "backed balance v s t" using token_iface.fe_run_backed [OF assms] by auto
  have "authorized e b \<and> get0 (stakes_of s') a = get0 (stakes_of s) a + (if a = b then n else 0)"
    if "self e = v" "\<not> authorized e v" "fe_stake transfer e b n s t = Ok (s', t')" for e b n s' t'
    using token_iface.fe_stake_backed [OF assms(1) that(3)] that b by auto
  moreover have "authorized e b \<and> get0 (stakes_of s') a = get0 (stakes_of s) a - (if a = b then n else 0)"
    if "self e = v" "\<not> authorized e v" "overflow_checks e" "fe_unstake transfer e b n s t = Ok (s', t')" for e b n s' t'
    using token_iface.fe_unstake_backed [OF assms(1) that(4)] that b by auto
  moreover have "get0 (stakes_of s') a = get0 (stakes_of s) a \<and> t' = t"
    if "overflow_checks e" "fe_exec transfer e c s t = Ok (s', t')" "\<forall>b n. c \<noteq> Stake b n \<and> c \<noteq> Unstake b n"
    for e c s' t'
    using fe_exec_stakes [OF that(2,1) core] that(3) by simp
  ultimately show ?thesis using b unfolding fe_get_stake_def staked_eq backed_def by blast
qed

theorem fe_stakes_backed_witness:
  "\<exists>s t. fe_run tok_transfer tok_balance tok_sound 50 s t \<and> staked (fe_get_stake s 2) = 60
     \<and> map_total (stakes_of s) \<le> tok_balance t 50"
proof -
  have "fe_holds (\<lambda>s t. staked (fe_get_stake s 2) = 60) (fe_story (fe_setup @ [(1000, Stake 2 80), (1000, Unstake 2 20)]))"
    by code_simp
  then obtain s t where r: "fe_run tok_transfer tok_balance tok_sound 50 s t" "staked (fe_get_stake s 2) = 60"
    by (rule fe_storyE)
  show ?thesis using r fe_stakes_backed [OF perigee_token.token_iface_axioms r(1)] by blast
qed

text \<open>
  C36. Management fees accrue with time, however often they are charged: charging a vault at two
  moments charges the fee of one accrual at the later moment, or one unit less, and leaves the same
  moment as the last accrual.
\<close>

theorem fe_accrual_additive:
  assumes "fe_run tr ba sound v s t" "fe_vaults s w = Some st"
    "last_accrual st \<le> timestamp e1" "timestamp e1 \<le> timestamp e2"
    "fe_accrue_management_fee e1 w aum s = Ok (f1, s1)" "fe_accrue_management_fee e2 w aum s1 = Ok (f2, s2)"
    "fe_accrue_management_fee e2 w aum s = Ok (f, s')"
  shows "f1 + f2 \<le> f \<and> f \<le> f1 + f2 + 1
    \<and> map_option last_accrual (fe_vaults s2 w) = map_option last_accrual (fe_vaults s' w)"
proof -
  have core: "fe_core s" using fe_run_inv [OF assms(1)] by (simp add: fe_inv_def)
  obtain c st1 where a: "fe_config s = Some c" "f1 = management_due c st (timestamp e1) aum"
    "fe_vaults s1 w = Some st1" "last_accrual st1 = timestamp e1" "fe_core s1" "fe_config s1 = Some c"
    using assms(5) core by (rule accrue_ok) (use assms(2) in \<open>auto simp: fe_same_def\<close>)
  have b: "f2 = management_due c st1 (timestamp e2) aum" "map_option last_accrual (fe_vaults s2 w) = Some (timestamp e2)"
    using assms(6) a(5) by (rule accrue_ok; use a(3,6) in simp)+
  have d: "f = management_due c st (timestamp e2) aum" "map_option last_accrual (fe_vaults s' w) = Some (timestamp e2)"
    using assms(7) core by (rule accrue_ok; use a(1) assms(2) in simp)+
  have t: "int (unat (timestamp e2) - unat (last_accrual st)) =
      int (unat (timestamp e1) - unat (last_accrual st)) + int (unat (timestamp e2) - unat (last_accrual st1))"
    using assms(3,4) a(4) by (simp add: word_le_nat_alt)
  have "f1 + f2 \<le> f \<and> f \<le> f1 + f2 + 1"
    using due_split [of 315360000000 "max 0 aum * uint (management_fee_bps c)"]
    by (simp add: a(2) b(1) d(1) management_due_def t)
  then show ?thesis unfolding b(2) d(2) by simp
qed

theorem fe_accrual_additive_witness:
  "\<exists>s t s1 s2 s' f. fe_run tok_transfer tok_balance tok_sound 50 s t
     \<and> fe_accrue_management_fee (fe_env 11000) 2 1000000 s = Ok (6, s1)
     \<and> fe_accrue_management_fee (fe_env 21000) 2 1000000 s1 = Ok (6, s2)
     \<and> fe_accrue_management_fee (fe_env 21000) 2 1000000 s = Ok (f, s') \<and> 12 \<le> f \<and> f \<le> 13"
proof -
  let ?a = "\<lambda>now. fe_accrue_management_fee (fe_env now) 2 1000000"
  obtain s t where r: "fe_run tok_transfer tok_balance tok_sound 50 s t"
    "fe_vaults s 2 = Some \<lparr>principal = 1000000, high_water_mark = 1000000, last_crystallized = 1000000,
      last_accrual = 1000, fees_paid = 0\<rparr>"
    and "(case ?a 11000 s of Ok (f, s1) \<Rightarrow> f = 6 \<and> fe_returns 6 (?a 21000 s1) | _ \<Rightarrow> False)"
    and "fe_returns 12 (?a 21000 s)"
    by (rule fe_setup_state)
  then obtain s1 s2 s' where a: "?a 11000 s = Ok (6, s1)" "?a 21000 s1 = Ok (6, s2)" "?a 21000 s = Ok (12, s')"
    by (auto elim!: fe_returnsE split: result.splits)
  show ?thesis using r(1) a fe_accrual_additive [OF r _ _ a] by fastforce
qed

text \<open>
  C39. Nobody has to authorize a crystallisation: anyone can report a NAV for any vault. A NAV far
  above the mark raises the mark to it, and from then on no crystallisation at a NAV up to that
  value charges a performance fee.
\<close>

theorem fe_nav_unauthenticated:
  assumes "fe_run tr ba sound v s t" "fe_config s = Some c" "fe_vaults s w = Some st" "overflow_checks e"
    "high_water_mark st < nav" "nav \<le> 2 ^ 80" "\<bar>fees_paid st\<bar> \<le> 2 ^ 110"
  shows "\<exists>fee s'. fe_crystallize (e\<lparr>authorized := \<lambda>_. False\<rparr>) w nav s = Ok (fee, s') \<and> mark s' w = nav
    \<and> (\<forall>e' nav' fee' s''. overflow_checks e' \<and> nav' \<le> nav \<and> fe_crystallize e' w nav' s' = Ok (fee', s'') \<longrightarrow> fee' = 0)"
proof -
  let ?e = "e\<lparr>authorized := \<lambda>_. False\<rparr>"
  have i: "fe_inv s" using assms(1) by (rule fe_run_inv)
  then have core: "fe_core s" and "vault_ok st" using assms(3) by (auto simp: fe_inv_def fe_core_def)
  then have nav: "0 \<le> nav" "high_water_mark st \<le> 2 ^ 80" using assms(5,6) by (simp_all add: vault_ok_def)
  obtain fee s' where f: "fe_crystallize ?e w nav s = Ok (fee, s')"
    using crystallize_some(1) [OF i assms(2,3) nav(1) assms(6) nav(2) assms(7)] by blast
  have "overflow_checks ?e" using assms(4) by simp
  with f core obtain st' where st': "fe_vaults s' w = Some st'" "high_water_mark st' = nav" "fe_core s'"
    by (rule crystallize_ok) (use assms(3,5) in \<open>auto simp: max_def\<close>)
  have "fee' = 0" if "overflow_checks e'" "nav' \<le> nav" "fe_crystallize e' w nav' s' = Ok (fee', s'')" for e' nav' fee' s''
    using that(3) st'(3) that(1) by (rule crystallize_ok) (use st' that(2) in \<open>simp add: performance_due_def Let_def\<close>)
  then show ?thesis using f st' by (auto simp: mark_of)
qed

theorem fe_nav_unauthenticated_witness:
  "\<exists>s t fee s'. fe_run tok_transfer tok_balance tok_sound 50 s t
     \<and> fe_crystallize ((fe_env 2000)\<lparr>authorized := \<lambda>_. False\<rparr>) 2 1000000000000 s = Ok (fee, s')
     \<and> mark s' 2 = 1000000000000"
proof -
  obtain s t where r: "fe_run tok_transfer tok_balance tok_sound 50 s t"
    "fe_config s = Some \<lparr>management_fee_bps = 200, performance_fee_bps = 1000, protocol_share_bps = 3000,
        vault_fee_recipient = 4, treasury = 6\<rparr>"
    "fe_vaults s 2 = Some \<lparr>principal = 1000000, high_water_mark = 1000000, last_crystallized = 1000000,
      last_accrual = 1000, fees_paid = 0\<rparr>"
    by (rule fe_setup_state)
  show ?thesis using r(1) fe_nav_unauthenticated [OF r, of "fe_env 2000" 1000000000000] by auto
qed

text \<open>
  The claw-back gives back fees that were never charged: a vault that loses a tenth of its
  first deposit before any profit has no fee on record, and yet minus ten thousand in fees paid.
\<close>

lemma fe_clawback_below_zero:
  "\<exists>s t st. fe_run tok_transfer tok_balance tok_sound 50 s t \<and> fe_fee_history_len s = 0
     \<and> fe_get_vault s 2 = Ok st \<and> fees_paid st = - 10000"
proof -
  have "fe_holds (\<lambda>s t. fe_fee_history_len s = 0 \<and> map_option fees_paid (fe_vaults s 2) = Some (- 10000))
      (fe_story (fe_setup @ [(2000, Crystallize 2 900000)]))" by code_simp
  then obtain s t where "fe_run tok_transfer tok_balance tok_sound 50 s t" "fe_fee_history_len s = 0"
    "map_option fees_paid (fe_vaults s 2) = Some (- 10000)" by (rule fe_storyE) simp
  then show ?thesis by (auto simp: fe_get_vault_def load_vault_def)
qed

text \<open>
  A deposit forgives the management fee accrued so far: it moves the last accrual to the present
  without charging, so an accrual in the same ledger charges nothing.
\<close>

lemma fe_deposit_forgives_fee:
  assumes "fe_run tr ba sound v s t" "overflow_checks e" "fe_record_deposit e w n s = Ok s'"
    "fe_accrue_management_fee e w aum s' = Ok (fee, s'')"
  shows "fee = 0"
proof -
  have "fe_exec tr e (RecordDeposit w n) s t = Ok (s', t)" using assms(3) by (simp add: fe_keep_def)
  from fe_exec_inv [OF this assms(2) fe_run_inv [OF assms(1)]] have "fe_core s'" by (simp add: fe_inv_def)
  moreover have "map_option last_accrual (fe_vaults s' w) = Some (timestamp e)"
    using assms(3) by (auto simp: fe_record_deposit_def Let_def ok_iff)
  ultimately show ?thesis
    using assms(4) by - (erule (1) accrue_ok, simp add: management_due_def)
qed

end
