(* ===== verification/Vault_Strategy.thy ===== *)
theory Vault_Strategy
  imports Prelude
begin

text \<open>
  The strategy registry, \<open>contracts/vault_strategy/src/lib.rs\<close>: which yield strategies exist and
  are approved, which one each vault uses, and the fees a vault owes on its profit. The contract
  never calls a strategy; it records what its callers report.
\<close>

section \<open>State\<close>

definition vs_MAX_FEE_BPS :: u32 where "vs_MAX_FEE_BPS = 2000"
definition vs_BPS_DENOMINATOR :: i128 where "vs_BPS_DENOMINATOR = 10000"
definition SUPPORTED_STRATEGY_VERSION :: u32 where "SUPPORTED_STRATEGY_VERSION = 1"

datatype vs_error =
    NotInitialized | AlreadyInitialized | Unauthorized | StrategyNotFound | StrategyAlreadyRegistered
  | IncompatibleStrategyVersion | NoActiveStrategy | StrategyNotApproved | FeeTooHigh
  | InvalidFeeSplit | StrategyBalanceMismatch | MathOverflow | InsufficientPrincipal

record strategy_record =
  sr_address :: address
  sr_version :: u32
  sr_label :: string
  sr_approved :: bool
  sr_registered_at :: u32

record vs_vault_state =
  vs_vault :: address
  active :: address
  vs_principal :: i128
  idle :: i128
  vs_fees_paid :: i128
  rotation_count :: u32

record vs_fee_config =
  vs_management_fee_bps :: u32
  vs_performance_fee_bps :: u32
  vs_protocol_share_bps :: u32
  vs_vault_fee_recipient :: address
  vs_treasury :: address

record rotation_result =
  rr_from :: address
  rr_to :: address
  withdrawn :: i128
  profit :: i128
  deployed :: i128

record vault_strategy =
  vs_admin_slot :: "address option"
  vs_count :: "u32 option"
  strategies :: "address \<rightharpoonup> strategy_record"
  approved_flags :: "address \<rightharpoonup> bool"
  vs_vaults :: "address \<rightharpoonup> vs_vault_state"
  vs_fees :: "address \<rightharpoonup> vs_fee_config"

section \<open>Helpers\<close>

definition vs_require_admin :: "env \<Rightarrow> address \<Rightarrow> vault_strategy \<Rightarrow> (unit, vs_error) result" where
  "vs_require_admin e admin s =
     and_then (ok_or (vs_admin_slot s) NotInitialized) (\<lambda>stored.
       if admin \<noteq> stored then Err Unauthorized else require_auth e admin)"

definition mul_bps_floor :: "i128 \<Rightarrow> u32 \<Rightarrow> (i128, vs_error) result" where
  "mul_bps_floor n bps =
     (if bps = 0 then Ok 0
      else and_then (ok_or (checked_mul n (uint bps)) MathOverflow) (\<lambda>product.
        div_i128 product vs_BPS_DENOMINATOR))"

definition load_vault_state :: "vault_strategy \<Rightarrow> address \<Rightarrow> (vs_vault_state, vs_error) result" where
  "load_vault_state s vault = ok_or (vs_vaults s vault) NoActiveStrategy"

definition load_fee_config :: "vault_strategy \<Rightarrow> address \<Rightarrow> (vs_fee_config, vs_error) result" where
  "load_fee_config s vault = ok_or (vs_fees s vault) NotInitialized"

definition store_vault :: "address \<Rightarrow> vs_vault_state \<Rightarrow> vault_strategy \<Rightarrow> vault_strategy" where
  "store_vault vault st s = s\<lparr>vs_vaults := (vs_vaults s)(vault \<mapsto> st)\<rparr>"

definition is_approved :: "vault_strategy \<Rightarrow> address \<Rightarrow> bool" where
  "is_approved s strategy = (approved_flags s strategy = Some True)"

section \<open>The registry\<close>

definition vs_initialize :: "env \<Rightarrow> address \<Rightarrow> address \<Rightarrow> vault_strategy \<Rightarrow> (vault_strategy, vs_error) result" where
  "vs_initialize e admin treasury s =
     (if vs_admin_slot s \<noteq> None then Err AlreadyInitialized
      else and_then (require_auth e admin) (\<lambda>_.
        Ok (s\<lparr>vs_admin_slot := Some admin, vs_count := Some 0\<rparr>)))"

definition vs_strategy_count :: "vault_strategy \<Rightarrow> u32" where
  "vs_strategy_count s = (case vs_count s of None \<Rightarrow> 0 | Some n \<Rightarrow> n)"

definition vs_register_strategy ::
  "env \<Rightarrow> address \<Rightarrow> address \<Rightarrow> u32 \<Rightarrow> string \<Rightarrow> vault_strategy \<Rightarrow> (vault_strategy, vs_error) result" where
  "vs_register_strategy e admin strategy version label s =
     and_then (vs_require_admin e admin s) (\<lambda>_.
       if version \<noteq> SUPPORTED_STRATEGY_VERSION then Err IncompatibleStrategyVersion
       else if strategies s strategy \<noteq> None then Err StrategyAlreadyRegistered
       else and_then (add_u32 e (vs_strategy_count s) 1) (\<lambda>n.
         Ok (s\<lparr>strategies := (strategies s)(strategy \<mapsto>
                 \<lparr>sr_address = strategy, sr_version = version, sr_label = label,
                  sr_approved = False, sr_registered_at = sequence e\<rparr>),
               vs_count := Some n\<rparr>)))"

definition vs_approve_strategy ::
  "env \<Rightarrow> address \<Rightarrow> address \<Rightarrow> bool \<Rightarrow> vault_strategy \<Rightarrow> (vault_strategy, vs_error) result" where
  "vs_approve_strategy e admin strategy approved s =
     and_then (vs_require_admin e admin s) (\<lambda>_.
     and_then (ok_or (strategies s strategy) StrategyNotFound) (\<lambda>r.
       Ok (s\<lparr>strategies := (strategies s)(strategy \<mapsto> r\<lparr>sr_approved := approved\<rparr>),
             approved_flags := (approved_flags s)(strategy \<mapsto> approved)\<rparr>)))"

definition vs_get_strategy :: "vault_strategy \<Rightarrow> address \<Rightarrow> (strategy_record, vs_error) result" where
  "vs_get_strategy s strategy = ok_or (strategies s strategy) StrategyNotFound"

section \<open>Fees\<close>

definition vs_set_fee_config ::
  "env \<Rightarrow> address \<Rightarrow> address \<Rightarrow> vs_fee_config \<Rightarrow> vault_strategy \<Rightarrow> (vault_strategy, vs_error) result" where
  "vs_set_fee_config e admin vault config s =
     and_then (vs_require_admin e admin s) (\<lambda>_.
       if vs_MAX_FEE_BPS < vs_management_fee_bps config then Err FeeTooHigh
       else if vs_MAX_FEE_BPS < vs_performance_fee_bps config then Err FeeTooHigh
       else if 10000 < vs_protocol_share_bps config then Err InvalidFeeSplit
       else Ok (s\<lparr>vs_fees := (vs_fees s)(vault \<mapsto> config)\<rparr>))"

definition vs_get_fee_config :: "vault_strategy \<Rightarrow> address \<Rightarrow> (vs_fee_config, vs_error) result" where
  "vs_get_fee_config s vault = load_fee_config s vault"

definition vs_split_fee :: "i128 \<Rightarrow> u32 \<Rightarrow> (i128 \<times> i128, vs_error) result" where
  "vs_split_fee fee bps =
     and_then (mul_bps_floor fee bps) (\<lambda>protocol.
     and_then (ok_or (checked_sub fee protocol) MathOverflow) (\<lambda>vault.
       Ok (vault, protocol)))"

definition vs_compute_fees ::
  "address \<Rightarrow> i128 \<Rightarrow> vault_strategy \<Rightarrow> (i128 \<times> i128 \<times> i128, vs_error) result" where
  "vs_compute_fees vault aum s =
     and_then (load_vault_state s vault) (\<lambda>state.
     and_then (load_fee_config s vault) (\<lambda>config.
     and_then (ok_or (checked_sub aum (vs_principal state)) MathOverflow) (\<lambda>gain.
     and_then (if gain \<le> 0 then Ok 0 else mul_bps_floor gain (vs_management_fee_bps config)) (\<lambda>mfee.
     and_then (if gain \<le> 0 then Ok 0 else mul_bps_floor gain (vs_performance_fee_bps config)) (\<lambda>pfee.
     and_then (ok_or (checked_add mfee pfee) MathOverflow) (\<lambda>total.
     and_then (vs_split_fee total (vs_protocol_share_bps config)) (\<lambda>(vshare, pshare).
       Ok (total, vshare, pshare))))))))"

definition vs_record_fees_paid :: "env \<Rightarrow> address \<Rightarrow> i128 \<Rightarrow> vault_strategy \<Rightarrow> (vault_strategy, vs_error) result" where
  "vs_record_fees_paid e vault n s =
     and_then (require_auth e vault) (\<lambda>_.
     and_then (load_vault_state s vault) (\<lambda>state.
     and_then (ok_or (checked_add (vs_fees_paid state) n) MathOverflow) (\<lambda>paid.
       Ok (store_vault vault (state\<lparr>vs_fees_paid := paid\<rparr>) s))))"

section \<open>Vaults\<close>

definition vs_initialize_vault ::
  "env \<Rightarrow> address \<Rightarrow> address \<Rightarrow> address \<Rightarrow> i128 \<Rightarrow> vault_strategy \<Rightarrow> (vault_strategy, vs_error) result" where
  "vs_initialize_vault e admin vault strategy p s =
     and_then (vs_require_admin e admin s) (\<lambda>_.
       if \<not> is_approved s strategy then Err StrategyNotApproved
       else if vs_vaults s vault \<noteq> None then Err AlreadyInitialized
       else Ok (store_vault vault \<lparr>vs_vault = vault, active = strategy, vs_principal = p, idle = p,
                  vs_fees_paid = 0, rotation_count = 0\<rparr> s))"

definition vs_add_deposit :: "env \<Rightarrow> address \<Rightarrow> i128 \<Rightarrow> vault_strategy \<Rightarrow> (vault_strategy, vs_error) result" where
  "vs_add_deposit e vault n s =
     and_then (require_auth e vault) (\<lambda>_.
     and_then (load_vault_state s vault) (\<lambda>state.
     and_then (ok_or (checked_add (vs_principal state) n) MathOverflow) (\<lambda>p.
     and_then (ok_or (checked_add (idle state) n) MathOverflow) (\<lambda>i.
       Ok (store_vault vault (state\<lparr>vs_principal := p, idle := i\<rparr>) s)))))"

definition vs_add_withdrawal :: "env \<Rightarrow> address \<Rightarrow> i128 \<Rightarrow> vault_strategy \<Rightarrow> (vault_strategy, vs_error) result" where
  "vs_add_withdrawal e vault n s =
     and_then (require_auth e vault) (\<lambda>_.
     and_then (load_vault_state s vault) (\<lambda>state.
       if vs_principal state < n \<or> idle state < n then Err InsufficientPrincipal
       else
         and_then (plain_i128 e (vs_principal state - n)) (\<lambda>p.
         and_then (plain_i128 e (idle state - n)) (\<lambda>i.
           Ok (store_vault vault (state\<lparr>vs_principal := p, idle := i\<rparr>) s)))))"

definition vs_get_vault :: "vault_strategy \<Rightarrow> address \<Rightarrow> (vs_vault_state, vs_error) result" where
  "vs_get_vault s vault = load_vault_state s vault"

definition vs_rotate ::
  "env \<Rightarrow> address \<Rightarrow> address \<Rightarrow> i128 \<Rightarrow> i128 \<Rightarrow> i128 \<Rightarrow> vault_strategy
    \<Rightarrow> (rotation_result \<times> vault_strategy, vs_error) result" where
  "vs_rotate e vault to gain out into s =
     and_then (require_auth e vault) (\<lambda>_.
       if \<not> is_approved s to then Err StrategyNotApproved
       else and_then (load_vault_state s vault) (\<lambda>state.
         if active state = to then Err StrategyAlreadyRegistered
         else and_then (ok_or (checked_add_word (rotation_count state) 1) MathOverflow) (\<lambda>n.
           Ok (\<lparr>rr_from = active state, rr_to = to, withdrawn = out, profit = gain, deployed = into\<rparr>,
               store_vault vault (state\<lparr>active := to, rotation_count := n, idle := into\<rparr>) s))))"

definition vs_set_admin :: "env \<Rightarrow> address \<Rightarrow> address \<Rightarrow> vault_strategy \<Rightarrow> (vault_strategy, vs_error) result" where
  "vs_set_admin e admin new_admin s =
     and_then (vs_require_admin e admin s) (\<lambda>_. Ok (s\<lparr>vs_admin_slot := Some new_admin\<rparr>))"

definition vs_admin :: "vault_strategy \<Rightarrow> (address, vs_error) result" where
  "vs_admin s = ok_or (vs_admin_slot s) NotInitialized"

section \<open>Calls\<close>

datatype vs_call =
    Initialize address address
  | RegisterStrategy address address u32 string
  | ApproveStrategy address address bool
  | SetFeeConfig address address vs_fee_config
  | InitializeVault address address address i128
  | AddDeposit address i128
  | AddWithdrawal address i128
  | Rotate address address i128 i128 i128
  | RecordFeesPaid address i128
  | SetAdmin address address

fun vs_exec :: "env \<Rightarrow> vs_call \<Rightarrow> vault_strategy \<Rightarrow> (vault_strategy, vs_error) result" where
  "vs_exec e (Initialize a k) s = vs_initialize e a k s"
| "vs_exec e (RegisterStrategy a x n l) s = vs_register_strategy e a x n l s"
| "vs_exec e (ApproveStrategy a x b) s = vs_approve_strategy e a x b s"
| "vs_exec e (SetFeeConfig a v c) s = vs_set_fee_config e a v c s"
| "vs_exec e (InitializeVault a v x p) s = vs_initialize_vault e a v x p s"
| "vs_exec e (AddDeposit v n) s = vs_add_deposit e v n s"
| "vs_exec e (AddWithdrawal v n) s = vs_add_withdrawal e v n s"
| "vs_exec e (Rotate v x g j i) s = and_then (vs_rotate e v x g j i s) (\<lambda>(r, s). Ok s)"
| "vs_exec e (RecordFeesPaid v n) s = vs_record_fees_paid e v n s"
| "vs_exec e (SetAdmin a b) s = vs_set_admin e a b s"

definition fresh_vault_strategy :: vault_strategy where
  "fresh_vault_strategy = \<lparr>vs_admin_slot = None, vs_count = None, strategies = Map.empty,
     approved_flags = Map.empty, vs_vaults = Map.empty, vs_fees = Map.empty\<rparr>"

text \<open>Histories: accepted calls in a build that checks its arithmetic.\<close>

definition vs_reach :: "vault_strategy \<Rightarrow> bool" where
  "vs_reach = reach (\<lambda>s. s = fresh_vault_strategy)
     (\<lambda>s s'. \<exists>e c. overflow_checks e \<and> vs_exec e c s = Ok s')"

interpretation vs_gate: admin_gate vs_require_admin vs_admin_slot
  by unfold_locales (auto simp: vs_require_admin_def split: if_splits)

lemma mul_bps_ok:
  assumes "mul_bps_floor n bps = Ok p" and "0 \<le> n"
  shows "p = n * uint bps div 10000"
proof (cases "bps = 0")
  case False
  then have "p = (n * uint bps) sdiv 10000"
    using assms(1) by (auto simp: mul_bps_floor_def vs_BPS_DENOMINATOR_def div_i128_def ok_iff)
  then show ?thesis using assms(2) by (simp add: sdiv_nonneg)
qed (use assms in \<open>simp add: mul_bps_floor_def\<close>)

interpretation registry_split: fee_split vs_split_fee
proof
  fix fee bps v p
  assume "vs_split_fee fee bps = Ok (v, p)"
  then have "mul_bps_floor fee bps = Ok p" and "v = fee - p"
    by (auto simp: vs_split_fee_def)
  then show "v = fee - p \<and> (0 \<le> fee \<longrightarrow> p = fee * uint bps div 10000)"
    using mul_bps_ok by blast
qed

section \<open>The registry invariant\<close>

definition vs_inv :: "vault_strategy \<Rightarrow> bool" where
  "vs_inv s \<longleftrightarrow> finite (dom (strategies s)) \<and> unat (vs_strategy_count s) = card (dom (strategies s))
     \<and> (vs_admin_slot s = None \<longrightarrow> strategies s = Map.empty)
     \<and> (\<forall>a r. strategies s a = Some r \<longrightarrow> sr_address r = a \<and> sr_version r = SUPPORTED_STRATEGY_VERSION
          \<and> is_approved s a = sr_approved r)
     \<and> (\<forall>a. approved_flags s a \<noteq> None \<longrightarrow> strategies s a \<noteq> None)
     \<and> (\<forall>v st. vs_vaults s v = Some st \<longrightarrow> vs_vault st = v \<and> strategies s (active st) \<noteq> None)
     \<and> (\<forall>v c. vs_fees s v = Some c \<longrightarrow> vs_management_fee_bps c \<le> vs_MAX_FEE_BPS
          \<and> vs_performance_fee_bps c \<le> vs_MAX_FEE_BPS \<and> vs_protocol_share_bps c \<le> 10000)"

lemma is_approved_registered: "vs_inv s \<Longrightarrow> is_approved s a \<Longrightarrow> strategies s a \<noteq> None"
  unfolding vs_inv_def is_approved_def by blast

lemma vs_inv_store:
  assumes "vs_inv s" and "vs_vault st = v" and "strategies s (active st) \<noteq> None"
  shows "vs_inv (store_vault v st s)"
  using assms by (auto simp: vs_inv_def store_vault_def is_approved_def vs_strategy_count_def)

lemma vs_vault_ok:
  "vs_inv s \<Longrightarrow> load_vault_state s v = Ok st \<Longrightarrow> vs_vault st = v \<and> strategies s (active st) \<noteq> None"
  by (simp add: vs_inv_def load_vault_state_def)

lemma vs_register_inv:
  assumes "vs_inv s" and "vs_register_strategy e a x n l s = Ok s'" and "overflow_checks e"
  shows "vs_inv s'"
proof -
  let ?r = "\<lparr>sr_address = x, sr_version = n, sr_label = l, sr_approved = False, sr_registered_at = sequence e\<rparr>"
  have g: "vs_admin_slot s = Some a" "n = SUPPORTED_STRATEGY_VERSION" "strategies s x = None"
    "unat (vs_strategy_count s) + 1 < 2 ^ 32"
    "s' = s\<lparr>strategies := (strategies s)(x \<mapsto> ?r), vs_count := Some (vs_strategy_count s + 1)\<rparr>"
    using assms(2,3) by (auto simp: vs_register_strategy_def vs_gate.gate_ok add_u32_def ok_iff)
  have "unat (vs_strategy_count s + 1) = card (dom (strategies s)) + 1"
    using assms(1) g(4) by (simp add: vs_inv_def unat_word_ariths)
  moreover have "card (insert x (dom (strategies s))) = card (dom (strategies s)) + 1"
    using assms(1) g(3) by (simp add: vs_inv_def card_insert_if domIff)
  moreover have "approved_flags s x = None" using assms(1) g(3) by (auto simp: vs_inv_def)
  ultimately show ?thesis
    using assms(1) g by (auto simp: vs_inv_def vs_strategy_count_def is_approved_def)
qed

lemma vs_approve_inv:
  assumes "vs_inv s" and "vs_approve_strategy e a x b s = Ok s'"
  shows "vs_inv s'"
proof -
  obtain r where r: "strategies s x = Some r" "vs_admin_slot s = Some a"
    "s' = s\<lparr>strategies := (strategies s)(x \<mapsto> r\<lparr>sr_approved := b\<rparr>), approved_flags := (approved_flags s)(x \<mapsto> b)\<rparr>"
    using assms(2) by (auto simp: vs_approve_strategy_def vs_gate.gate_ok)
  have "insert x (dom (strategies s)) = dom (strategies s)" using r(1) by auto
  then show ?thesis
    using assms(1) r by (auto simp: vs_inv_def vs_strategy_count_def is_approved_def)
qed

lemma vs_exec_inv:
  assumes "vs_inv s" and "vs_exec e c s = Ok s'" and "overflow_checks e"
  shows "vs_inv s'"
proof (cases c)
  case (Initialize a k)
  then have "vs_admin_slot s = None" "s' = s\<lparr>vs_admin_slot := Some a, vs_count := Some 0\<rparr>"
    using assms(2) by (auto simp: vs_initialize_def ok_iff)
  then show ?thesis using assms(1) by (auto simp: vs_inv_def vs_strategy_count_def is_approved_def)
next
  case (SetFeeConfig a v k)
  then have "vs_management_fee_bps k \<le> vs_MAX_FEE_BPS" "vs_performance_fee_bps k \<le> vs_MAX_FEE_BPS"
    "vs_protocol_share_bps k \<le> 10000" "s' = s\<lparr>vs_fees := (vs_fees s)(v \<mapsto> k)\<rparr>"
    using assms(2) by (auto simp: vs_set_fee_config_def ok_iff not_less)
  then show ?thesis using assms(1) by (auto simp: vs_inv_def vs_strategy_count_def is_approved_def)
next
  case (InitializeVault a v x p)
  then show ?thesis using assms(1,2) is_approved_registered
    by (auto simp: vs_initialize_vault_def ok_iff intro!: vs_inv_store)
next
  case (AddDeposit v n)
  then show ?thesis using assms(1,2) by (auto simp: vs_add_deposit_def dest: vs_vault_ok intro!: vs_inv_store)
next
  case (AddWithdrawal v n)
  then show ?thesis using assms(1,2)
    by (auto simp: vs_add_withdrawal_def ok_iff dest: vs_vault_ok intro!: vs_inv_store)
next
  case (Rotate v x g j i)
  then show ?thesis using assms(1,2) is_approved_registered
    by (auto simp: vs_rotate_def ok_iff dest: vs_vault_ok intro!: vs_inv_store)
next
  case (RecordFeesPaid v n)
  then show ?thesis using assms(1,2) by (auto simp: vs_record_fees_paid_def dest: vs_vault_ok intro!: vs_inv_store)
next
  case (SetAdmin a b)
  then show ?thesis using assms(1,2)
    by (auto simp: vs_set_admin_def vs_gate.gate_ok vs_inv_def vs_strategy_count_def is_approved_def)
next
  case (RegisterStrategy a x n l)
  then show ?thesis using vs_register_inv [OF assms(1) _ assms(3)] assms(2) by simp
next
  case (ApproveStrategy a x b)
  then show ?thesis using vs_approve_inv [OF assms(1)] assms(2) by simp
qed

lemma vs_reach_inv: "vs_reach s \<Longrightarrow> vs_inv s"
  unfolding vs_reach_def
proof (induction rule: reach_invariant)
  case (init s)
  then show ?case by (simp add: vs_inv_def fresh_vault_strategy_def vs_strategy_count_def)
next
  case (step s t)
  then show ?case using vs_exec_inv by blast
qed

text \<open>The strategy of a vault, and who may change it.\<close>

definition strategy_of :: "vault_strategy \<Rightarrow> address \<Rightarrow> address option" where
  "strategy_of s v = map_option active (vs_vaults s v)"

lemma strategy_of_store [simp]: "strategy_of (store_vault v st s) w = (if w = v then Some (active st) else strategy_of s w)"
  by (simp add: strategy_of_def store_vault_def)

lemma strategy_of_frame [simp]:
  "strategy_of (vs_admin_slot_update f s) = strategy_of s" "strategy_of (vs_count_update g s) = strategy_of s"
  "strategy_of (strategies_update h s) = strategy_of s" "strategy_of (approved_flags_update i s) = strategy_of s"
  "strategy_of (vs_fees_update j s) = strategy_of s"
  by (simp_all add: fun_eq_iff strategy_of_def)

lemma strategy_of_load: "load_vault_state s v = Ok st \<Longrightarrow> strategy_of s v = Some (active st)"
  by (simp add: strategy_of_def load_vault_state_def)

lemma vs_exec_strategy:
  assumes "vs_exec e c s = Ok s'" and "strategy_of s' v \<noteq> strategy_of s v"
  shows "\<exists>x. strategy_of s' v = Some x \<and> is_approved s x
    \<and> (strategy_of s v = None \<and> (\<exists>a. vs_admin_slot s = Some a \<and> authorized e a) \<or> authorized e v)"
proof (cases c)
  case (InitializeVault a w x p)
  then show ?thesis using assms
    by (auto simp: vs_initialize_vault_def vs_gate.gate_ok strategy_of_def [of s] ok_iff split: if_splits)
next
  case (Rotate w x g j i)
  then show ?thesis using assms by (auto simp: vs_rotate_def ok_iff split: if_splits)
qed (use assms in \<open>auto simp: vs_initialize_def vs_register_strategy_def vs_approve_strategy_def vs_set_fee_config_def
    vs_add_deposit_def vs_add_withdrawal_def vs_record_fees_paid_def vs_set_admin_def ok_iff
    dest: strategy_of_load split: if_splits\<close>)

section \<open>Properties\<close>

definition vs_env :: env where
  "vs_env = \<lparr>sequence = 100, timestamp = 1000, authorized = (\<lambda>a. a < 3), self = 50, overflow_checks = True\<rparr>"

fun vs_play :: "vs_call list \<Rightarrow> vault_strategy \<Rightarrow> (vault_strategy, vs_error) result" where
  "vs_play [] s = Ok s"
| "vs_play (c # cs) s = and_then (vs_exec vs_env c s) (vs_play cs)"

lemma vs_reach_step: "vs_reach s \<Longrightarrow> vs_exec e c s = Ok s' \<Longrightarrow> overflow_checks e \<Longrightarrow> vs_reach s'"
  unfolding vs_reach_def by (erule reach_step) blast

lemma vs_play_reach: "vs_play cs s = Ok s' \<Longrightarrow> vs_reach s \<Longrightarrow> vs_reach s'"
proof (induction cs arbitrary: s)
  case (Cons c cs)
  then obtain s1 where s1: "vs_exec vs_env c s = Ok s1" "vs_play cs s1 = Ok s'" by auto
  have "overflow_checks vs_env" by (simp add: vs_env_def)
  then show ?case using Cons.IH [OF s1(2) vs_reach_step [OF Cons.prems(2) s1(1)]] by simp
qed simp

definition vs_example :: "vs_call list" where
  "vs_example = [Initialize 1 6, RegisterStrategy 1 20 1 ''lend'', RegisterStrategy 1 21 1 ''lp'',
     ApproveStrategy 1 20 True, ApproveStrategy 1 21 True, InitializeVault 1 2 20 1000000,
     SetFeeConfig 1 2 \<lparr>vs_management_fee_bps = 200, vs_performance_fee_bps = 1000, vs_protocol_share_bps = 3000,
       vs_vault_fee_recipient = 4, vs_treasury = 6\<rparr>]"

lemma vs_example_state:
  obtains s where "vs_reach s" "strategy_of s 2 = Some 20" "vs_compute_fees 2 1500000 s = Ok (60000, 42000, 18000)"
    "map_option vs_principal (vs_vaults s 2) = Some 1000000"
    "vs_fees s 2 = Some \<lparr>vs_management_fee_bps = 200, vs_performance_fee_bps = 1000, vs_protocol_share_bps = 3000,
       vs_vault_fee_recipient = 4, vs_treasury = 6\<rparr>"
    "(case vs_exec vs_env (Rotate 2 21 0 0 0) s of Ok s' \<Rightarrow> strategy_of s' 2 = Some 21 | _ \<Rightarrow> False)"
proof -
  have "(case vs_play vs_example fresh_vault_strategy of Ok s \<Rightarrow>
      strategy_of s 2 = Some 20 \<and> vs_compute_fees 2 1500000 s = Ok (60000, 42000, 18000)
      \<and> map_option vs_principal (vs_vaults s 2) = Some 1000000
      \<and> vs_fees s 2 = Some \<lparr>vs_management_fee_bps = 200, vs_performance_fee_bps = 1000, vs_protocol_share_bps = 3000,
          vs_vault_fee_recipient = 4, vs_treasury = 6\<rparr>
      \<and> (case vs_exec vs_env (Rotate 2 21 0 0 0) s of Ok s' \<Rightarrow> strategy_of s' 2 = Some 21 | _ \<Rightarrow> False)
    | _ \<Rightarrow> False)" by code_simp
  moreover have "vs_reach fresh_vault_strategy" unfolding vs_reach_def by (rule reach_init) simp
  ultimately show thesis
    by (cases "vs_play vs_example fresh_vault_strategy") (auto intro: that dest: vs_play_reach)
qed

text \<open>
  C30. A vault only ever uses a vetted strategy: after any accepted calls the active strategy of a
  vault is registered under its own address with the supported interface version, the count of
  strategies is exact, and the approval flag agrees with the record. A call that changes the
  strategy of a vault sets an approved one, and was authorized by the vault itself or, for a vault
  that had none, by the administrator.
\<close>

theorem vs_active_strategy_vetted:
  assumes "vs_reach s"
  shows "(strategy_of s v = Some x \<longrightarrow> (\<exists>r. vs_get_strategy s x = Ok r \<and> sr_address r = x
        \<and> sr_version r = SUPPORTED_STRATEGY_VERSION \<and> sr_approved r = is_approved s x))
    \<and> unat (vs_strategy_count s) = card (dom (strategies s))
    \<and> (vs_exec e c s = Ok s' \<and> strategy_of s' v \<noteq> strategy_of s v \<longrightarrow>
        (\<exists>y. strategy_of s' v = Some y \<and> is_approved s y)
        \<and> (authorized e v \<or> strategy_of s v = None \<and> (\<exists>a. vs_admin s = Ok a \<and> authorized e a)))"
proof -
  have i: "vs_inv s" using assms by (rule vs_reach_inv)
  then have "\<exists>r. vs_get_strategy s x = Ok r \<and> sr_address r = x
        \<and> sr_version r = SUPPORTED_STRATEGY_VERSION \<and> sr_approved r = is_approved s x" if "strategy_of s v = Some x"
    using that by (fastforce simp: vs_inv_def strategy_of_def vs_get_strategy_def)
  moreover have "unat (vs_strategy_count s) = card (dom (strategies s))" using i by (simp add: vs_inv_def)
  moreover have "(\<exists>y. strategy_of s' v = Some y \<and> is_approved s y)
        \<and> (authorized e v \<or> strategy_of s v = None \<and> (\<exists>a. vs_admin s = Ok a \<and> authorized e a))"
    if "vs_exec e c s = Ok s'" "strategy_of s' v \<noteq> strategy_of s v"
    using vs_exec_strategy [OF that] by (auto simp: vs_admin_def)
  ultimately show ?thesis by blast
qed

theorem vs_active_strategy_vetted_witness:
  "\<exists>s s' y. vs_reach s \<and> vs_exec vs_env (Rotate 2 21 0 0 0) s = Ok s' \<and> strategy_of s 2 = Some 20
     \<and> strategy_of s' 2 = Some y \<and> is_approved s y"
proof -
  obtain s where s: "vs_reach s" "strategy_of s 2 = Some 20"
    and "(case vs_exec vs_env (Rotate 2 21 0 0 0) s of Ok s' \<Rightarrow> strategy_of s' 2 = Some 21 | _ \<Rightarrow> False)"
    by (rule vs_example_state)
  then obtain s' where r: "vs_exec vs_env (Rotate 2 21 0 0 0) s = Ok s'" "strategy_of s' 2 = Some 21"
    by (auto split: result.splits)
  then have "strategy_of s' 2 \<noteq> strategy_of s 2" using s(2) by simp
  with s r vs_active_strategy_vetted [OF s(1), of 2 20 vs_env "Rotate 2 21 0 0 0" s'] show ?thesis by blast
qed

lemma gain_part:
  assumes "(if g \<le> 0 then Ok 0 else mul_bps_floor g bps) = Ok m"
  shows "m = max 0 g * uint bps div 10000"
  using assms mul_bps_ok [of g bps m] by (cases "g \<le> 0") (simp_all add: max_def)

text \<open>
  Fees are charged on profit and never on principal: when the assets of a vault are at or below
  its principal the fee is zero; above, it is the floor of each rate applied to the profit alone,
  at most two fifths of the profit, and the two shares divide it without loss. The management fee,
  which the documentation charges on the assets under management, is charged on the profit too.
\<close>

lemma vs_fees_on_profit_only:
  assumes "vs_reach s" "vs_vaults s v = Some st" "vs_fees s v = Some c"
    "vs_compute_fees v aum s = Ok (fee, x, y)" "gain = max 0 (aum - vs_principal st)"
  shows "fee = gain * uint (vs_management_fee_bps c) div 10000 + gain * uint (vs_performance_fee_bps c) div 10000
    \<and> 0 \<le> fee \<and> 5 * fee \<le> 2 * gain \<and> 0 \<le> x \<and> 0 \<le> y \<and> x + y = fee"
proof -
  have i: "vs_inv s" using assms(1) by (rule vs_reach_inv)
  have bps: "uint (vs_management_fee_bps c) \<le> 2000" "uint (vs_performance_fee_bps c) \<le> 2000"
    "vs_protocol_share_bps c \<le> 10000"
    using i assms(3) by (auto simp: vs_inv_def vs_MAX_FEE_BPS_def word_le_def)
  obtain m p where mp: "fee = m + p" "vs_split_fee fee (vs_protocol_share_bps c) = Ok (x, y)"
    "(if aum - vs_principal st \<le> 0 then Ok 0 else mul_bps_floor (aum - vs_principal st) (vs_management_fee_bps c)) = Ok m"
    "(if aum - vs_principal st \<le> 0 then Ok 0 else mul_bps_floor (aum - vs_principal st) (vs_performance_fee_bps c)) = Ok p"
    using assms(2-4) unfolding vs_compute_fees_def load_vault_state_def load_fee_config_def by auto
  have m: "m = gain * uint (vs_management_fee_bps c) div 10000" "p = gain * uint (vs_performance_fee_bps c) div 10000"
    using gain_part [OF mp(3)] gain_part [OF mp(4)] by (simp_all add: assms(5))
  have g: "0 \<le> gain" by (simp add: assms(5))
  have part: "0 \<le> gain * r div 10000 \<and> 5 * (gain * r div 10000) \<le> gain" if "0 \<le> r" "r \<le> 2000" for r
  proof -
    have "gain * r \<le> gain * 2000" using g that(2) by (rule mult_left_mono [rotated])
    moreover have "0 \<le> gain * r" using g that(1) by simp
    ultimately show ?thesis by linarith
  qed
  have t: "0 \<le> fee" "5 * fee \<le> 2 * gain"
    using part [OF _ bps(1)] part [OF _ bps(2)] by (simp_all add: mp(1) m)
  show ?thesis
    using t m mp(1) registry_split.split_bounds [OF mp(2) t(1) bps(3)] registry_split.split_sum [OF mp(2)] by simp
qed

end
