(* ===== verification/Access_Control.thy ===== *)
theory Access_Control
  imports Prelude
begin

text \<open>
  The access control lists, \<open>contracts/access_control/src/lib.rs\<close> and \<open>selector.rs\<close>: a root
  administrator, roles with their own administrators, direct grants, registered namespace wildcards
  with usage counters, batch updates and lockdown. A Soroban string is a list of bytes. The host
  bounds the length of a vector by \<open>2 ^ 32\<close>, so lengths are compared as natural numbers. Events are
  not state.
\<close>

section \<open>Selectors\<close>

type_synonym selector = string
type_synonym role = string

datatype acl_error =
    NotInitialized | AlreadyInitialized | Unauthorized | Locked | LimitExceeded | BatchTooLarge
  | EmptyBatch | InvalidSelector | SelectorTooLong | InvalidRole | RoleExists | RoleNotFound
  | UnregisteredWildcard | WildcardInUse | WildcardNotFound | ProtocolRolesAlreadyConfigured

definition MAX_SELECTOR_LEN :: u32 where "MAX_SELECTOR_LEN = 64"
definition WILDCARD :: selector where "WILDCARD = ''*''"
definition STAR :: char where "STAR = CHR ''*''"
definition MAX_BYTES :: nat where "MAX_BYTES = unat MAX_SELECTOR_LEN"

datatype selector_kind = Exact | Any | Namespace selector

text \<open>\<open>Iterator::position\<close>: the index of the first element that satisfies the predicate.\<close>

fun position :: "('a \<Rightarrow> bool) \<Rightarrow> 'a list \<Rightarrow> nat option" where
  "position P [] = None"
| "position P (x # xs) = (if P x then Some 0 else map_option Suc (position P xs))"

definition classify :: "selector \<Rightarrow> (selector_kind, acl_error) result" where
  "classify sel =
     (let n = length sel
      in if n = 0 then Err InvalidSelector
         else if MAX_BYTES < n then Err SelectorTooLong
         else if n = 1 \<and> hd sel = STAR then Ok Any
         else case position (\<lambda>b. b = STAR) sel of
                None \<Rightarrow> Ok Exact
              | Some i \<Rightarrow> if i = n - 1 then Ok (Namespace (take i sel)) else Err InvalidSelector)"

definition is_prefix :: "selector \<Rightarrow> selector \<Rightarrow> bool" where
  "is_prefix prfx val =
     (let p = length prfx; v = length val
      in if p = 0 \<or> v < p \<or> MAX_BYTES < p \<or> MAX_BYTES < v then False else take p val = prfx)"

definition pattern :: "selector \<Rightarrow> selector" where
  "pattern prfx = prfx @ [STAR]"

section \<open>State\<close>

record acl_config =
  max_batch_size :: u32
  max_grants_per_address :: u32
  max_roles :: u32
  max_permissions_per_role :: u32
  max_members_per_role :: u32
  max_roles_per_address :: u32
  max_wildcards :: u32

definition default_config :: acl_config where
  "default_config = \<lparr>max_batch_size = 32, max_grants_per_address = 64, max_roles = 32,
     max_permissions_per_role = 32, max_members_per_role = 64, max_roles_per_address = 8, max_wildcards = 8\<rparr>"

record role_info =
  ri_role :: role
  ri_admin :: address
  permission_count :: u32
  member_count :: u32

datatype protocol_role = Owner | Admin | Strategist | Keeper | Emergency

primrec protocol_role_name :: "protocol_role \<Rightarrow> role" where
  "protocol_role_name Owner = ''owner''"
| "protocol_role_name Admin = ''admin''"
| "protocol_role_name Strategist = ''strategist''"
| "protocol_role_name Keeper = ''keeper''"
| "protocol_role_name Emergency = ''emergency''"

record acl =
  acl_admin_slot :: "address option"
  acl_config_slot :: "acl_config option"
  lockdown :: "bool option"
  grant_flag :: "address \<times> selector \<rightharpoonup> bool"
  grants_index :: "address \<rightharpoonup> selector list"
  member_flag :: "role \<times> address \<rightharpoonup> bool"
  members_index :: "role \<rightharpoonup> address list"
  roles_index :: "address \<rightharpoonup> role list"
  perm_flag :: "role \<times> selector \<rightharpoonup> bool"
  perms_index :: "role \<rightharpoonup> selector list"
  role_admins :: "role \<rightharpoonup> address"
  role_list :: "role list option"
  protocol_configured :: "bool option"
  wildcards :: "selector list option"
  wildcard_counts :: "selector \<rightharpoonup> u32"

section \<open>Storage helpers\<close>

definition acl_read_admin :: "acl \<Rightarrow> (address, acl_error) result" where
  "acl_read_admin s = ok_or (acl_admin_slot s) NotInitialized"

definition is_root :: "acl \<Rightarrow> address \<Rightarrow> bool" where
  "is_root s who = (acl_admin_slot s = Some who)"

definition require_root :: "env \<Rightarrow> address \<Rightarrow> acl \<Rightarrow> (unit, acl_error) result" where
  "require_root e who s = (if \<not> is_root s who then Err Unauthorized else require_auth e who)"

definition require_role_admin :: "env \<Rightarrow> address \<Rightarrow> role \<Rightarrow> acl \<Rightarrow> (unit, acl_error) result" where
  "require_role_admin e who role s =
     (if is_root s who then require_auth e who
      else case role_admins s role of
             Some a \<Rightarrow> if a = who then require_auth e who else Err Unauthorized
           | None \<Rightarrow> Err Unauthorized)"

definition acl_read_config :: "acl \<Rightarrow> (acl_config, acl_error) result" where
  "acl_read_config s = ok_or (acl_config_slot s) NotInitialized"

definition is_locked :: "acl \<Rightarrow> bool" where
  "is_locked s = (lockdown s = Some True)"

definition require_writable :: "acl \<Rightarrow> (unit, acl_error) result" where
  "require_writable s = (if is_locked s then Err Locked else Ok ())"

text \<open>The lists stored under a key: absent means empty, and an empty list is removed.\<close>

definition read_list :: "('k \<rightharpoonup> 'a list) \<Rightarrow> 'k \<Rightarrow> 'a list" where
  "read_list m k = (case m k of None \<Rightarrow> [] | Some xs \<Rightarrow> xs)"

definition write_list :: "'k \<Rightarrow> 'a list \<Rightarrow> ('k \<rightharpoonup> 'a list) \<Rightarrow> ('k \<rightharpoonup> 'a list)" where
  "write_list k xs m = m(k := (if xs = [] then None else Some xs))"

definition keep_except :: "'a \<Rightarrow> 'a list \<Rightarrow> 'a list" where
  "keep_except x xs = filter (\<lambda>y. y \<noteq> x) xs"

definition read_one :: "'a list option \<Rightarrow> 'a list" where
  "read_one m = (case m of None \<Rightarrow> [] | Some xs \<Rightarrow> xs)"

definition write_one :: "'a list \<Rightarrow> 'a list option" where
  "write_one xs = (if xs = [] then None else Some xs)"

definition wildcard_use :: "acl \<Rightarrow> selector \<Rightarrow> u32" where
  "wildcard_use s prfx = (case wildcard_counts s prfx of None \<Rightarrow> 0 | Some n \<Rightarrow> n)"

definition bump_wildcard_use :: "selector \<Rightarrow> int \<Rightarrow> acl \<Rightarrow> acl" where
  "bump_wildcard_use prfx delta s =
     (let nxt = word_of_int (max (uint (wildcard_use s prfx) + delta) 0) :: u32
      in s\<lparr>wildcard_counts := (wildcard_counts s)(prfx := (if nxt = 0 then None else Some nxt))\<rparr>)"

definition wildcard_prefixes :: "acl \<Rightarrow> selector list" where
  "wildcard_prefixes s = read_one (wildcards s)"

definition role_exists :: "acl \<Rightarrow> role \<Rightarrow> bool" where
  "role_exists s role = (role_admins s role \<noteq> None)"

section \<open>Validation\<close>

definition check_batch_size :: "acl \<Rightarrow> nat \<Rightarrow> (unit, acl_error) result" where
  "check_batch_size s len =
     (if len = 0 then Err EmptyBatch
      else and_then (acl_read_config s) (\<lambda>cfg.
        if unat (max_batch_size cfg) < len then Err BatchTooLarge else Ok ()))"

definition validate_role :: "role \<Rightarrow> (unit, acl_error) result" where
  "validate_role role =
     (if role = [] \<or> unat MAX_SELECTOR_LEN < length role then Err InvalidRole
      else if STAR \<in> set role then Err InvalidRole else Ok ())"

definition validate_grantable :: "acl \<Rightarrow> selector \<Rightarrow> (selector_kind, acl_error) result" where
  "validate_grantable s sel =
     and_then (classify sel) (\<lambda>kind.
       case kind of
         Namespace prfx \<Rightarrow> if prfx \<notin> set (wildcard_prefixes s) then Err UnregisteredWildcard else Ok kind
       | _ \<Rightarrow> Ok kind)"

definition track_wildcard_use :: "selector \<Rightarrow> int \<Rightarrow> acl \<Rightarrow> acl" where
  "track_wildcard_use sel delta s =
     (case classify sel of Ok (Namespace prfx) \<Rightarrow> bump_wildcard_use prfx delta s | _ \<Rightarrow> s)"

section \<open>Permission matching\<close>

definition direct_matches :: "acl \<Rightarrow> address \<Rightarrow> selector \<Rightarrow> bool" where
  "direct_matches s who sel =
     (if grant_flag s (who, sel) \<noteq> None then True
      else if grant_flag s (who, WILDCARD) \<noteq> None then True
      else list_ex (\<lambda>prfx. is_prefix prfx sel \<and> grant_flag s (who, pattern prfx) \<noteq> None) (wildcard_prefixes s))"

definition role_matches :: "acl \<Rightarrow> role \<Rightarrow> selector \<Rightarrow> bool" where
  "role_matches s role sel =
     (if perm_flag s (role, sel) \<noteq> None then True
      else if perm_flag s (role, WILDCARD) \<noteq> None then True
      else list_ex (\<lambda>prfx. is_prefix prfx sel \<and> perm_flag s (role, pattern prfx) \<noteq> None) (wildcard_prefixes s))"

definition permits :: "acl \<Rightarrow> address \<Rightarrow> selector \<Rightarrow> bool" where
  "permits s caller sel =
     (if is_root s caller then True
      else if \<not> is_ok (classify sel) then False
      else if direct_matches s caller sel then True
      else list_ex (\<lambda>role. role_matches s role sel) (read_list (roles_index s) caller))"

section \<open>Mutation primitives\<close>

type_synonym acl_result = "(bool \<times> acl, acl_error) result"

definition apply_grant :: "address \<Rightarrow> selector \<Rightarrow> acl \<Rightarrow> acl_result" where
  "apply_grant target sel s =
     (if grant_flag s (target, sel) \<noteq> None then Ok (False, s)
      else
        and_then (validate_grantable s sel) (\<lambda>_.
        and_then (acl_read_config s) (\<lambda>cfg.
        let index = read_list (grants_index s) target
        in if unat (max_grants_per_address cfg) \<le> length index then Err LimitExceeded
           else Ok (True, track_wildcard_use sel 1
             (s\<lparr>grant_flag := (grant_flag s)((target, sel) \<mapsto> True),
                grants_index := write_list target (index @ [sel]) (grants_index s)\<rparr>)))))"

definition apply_revoke :: "address \<Rightarrow> selector \<Rightarrow> acl \<Rightarrow> bool \<times> acl" where
  "apply_revoke target sel s =
     (if grant_flag s (target, sel) = None then (False, s)
      else
        (True, track_wildcard_use sel (- 1)
          (s\<lparr>grant_flag := (grant_flag s)((target, sel) := None),
             grants_index := write_list target (keep_except sel (read_list (grants_index s) target))
               (grants_index s)\<rparr>)))"

definition apply_role_permission :: "role \<Rightarrow> selector \<Rightarrow> acl \<Rightarrow> acl_result" where
  "apply_role_permission role sel s =
     (if perm_flag s (role, sel) \<noteq> None then Ok (False, s)
      else
        and_then (validate_grantable s sel) (\<lambda>_.
        and_then (acl_read_config s) (\<lambda>cfg.
        let index = read_list (perms_index s) role
        in if unat (max_permissions_per_role cfg) \<le> length index then Err LimitExceeded
           else Ok (True, track_wildcard_use sel 1
             (s\<lparr>perm_flag := (perm_flag s)((role, sel) \<mapsto> True),
                perms_index := write_list role (index @ [sel]) (perms_index s)\<rparr>)))))"

definition apply_role_revoke :: "role \<Rightarrow> selector \<Rightarrow> acl \<Rightarrow> bool \<times> acl" where
  "apply_role_revoke role sel s =
     (if perm_flag s (role, sel) = None then (False, s)
      else
        (True, track_wildcard_use sel (- 1)
          (s\<lparr>perm_flag := (perm_flag s)((role, sel) := None),
             perms_index := write_list role (keep_except sel (read_list (perms_index s) role))
               (perms_index s)\<rparr>)))"

definition apply_role_member :: "role \<Rightarrow> address \<Rightarrow> acl \<Rightarrow> acl_result" where
  "apply_role_member role member s =
     (if member_flag s (role, member) \<noteq> None then Ok (False, s)
      else
        and_then (acl_read_config s) (\<lambda>cfg.
        let members = read_list (members_index s) role; roles = read_list (roles_index s) member
        in if unat (max_members_per_role cfg) \<le> length members then Err LimitExceeded
           else if unat (max_roles_per_address cfg) \<le> length roles then Err LimitExceeded
           else Ok (True,
             s\<lparr>member_flag := (member_flag s)((role, member) \<mapsto> True),
               members_index := write_list role (members @ [member]) (members_index s),
               roles_index := write_list member (roles @ [role]) (roles_index s)\<rparr>)))"

definition apply_role_member_revoke :: "role \<Rightarrow> address \<Rightarrow> acl \<Rightarrow> bool \<times> acl" where
  "apply_role_member_revoke role member s =
     (if member_flag s (role, member) = None then (False, s)
      else
        (True,
          s\<lparr>member_flag := (member_flag s)((role, member) := None),
            members_index := write_list role (keep_except member (read_list (members_index s) role))
              (members_index s),
            roles_index := write_list member (keep_except role (read_list (roles_index s) member))
              (roles_index s)\<rparr>))"

primrec protocol_role_permissions :: "protocol_role \<Rightarrow> selector list" where
  "protocol_role_permissions Owner =
     [''vault.deposit'', ''vault.withdraw'', ''vault.transfer'', ''vault.configure'']"
| "protocol_role_permissions Admin =
     [''roles.manage'', ''vault.pause'', ''vault.unpause'', ''strategy.configure'', ''strategy.approve'',
      ''fees.configure'', ''keeper.configure'', ''emergency.pause'']"
| "protocol_role_permissions Strategist =
     [''strategy.rebalance'', ''strategy.rotate'', ''strategy.harvest'']"
| "protocol_role_permissions Keeper =
     [''strategy.harvest'', ''strategy.rebalance'', ''oracle.update'']"
| "protocol_role_permissions Emergency =
     [''emergency.pause'', ''emergency.cancel'', ''vault.pause'', ''strategy.pause'']"

text \<open>Loops that attach selectors or members one after the other and stop at the first error.\<close>

fun perms_loop :: "role \<Rightarrow> selector list \<Rightarrow> acl \<Rightarrow> (acl, acl_error) result" where
  "perms_loop role [] s = Ok s"
| "perms_loop role (sel # sels) s =
     and_then (apply_role_permission role sel s) (\<lambda>(_, s). perms_loop role sels s)"

fun members_loop :: "role \<Rightarrow> address list \<Rightarrow> acl \<Rightarrow> (acl, acl_error) result" where
  "members_loop role [] s = Ok s"
| "members_loop role (m # ms) s =
     and_then (apply_role_member role m s) (\<lambda>(_, s). members_loop role ms s)"

definition provision_protocol_role ::
  "address \<Rightarrow> protocol_role \<Rightarrow> address \<Rightarrow> acl \<Rightarrow> (acl, acl_error) result" where
  "provision_protocol_role actor role member s =
     (let name = protocol_role_name role
      in and_then (validate_role name) (\<lambda>_.
           if role_exists s name then Err RoleExists
           else and_then (acl_read_config s) (\<lambda>cfg.
             let roles = read_one (role_list s)
             in if unat (max_roles cfg) \<le> length roles then Err LimitExceeded
                else
                  and_then
                    (perms_loop name (protocol_role_permissions role)
                      (s\<lparr>role_admins := (role_admins s)(name \<mapsto> actor),
                         role_list := write_one (roles @ [name])\<rparr>)) (\<lambda>s.
                  and_then (apply_role_member name member s) (\<lambda>(_, s). Ok s)))))"

section \<open>Initialization and root administration\<close>

definition acl_initialize :: "env \<Rightarrow> address \<Rightarrow> acl_config \<Rightarrow> acl \<Rightarrow> (acl, acl_error) result" where
  "acl_initialize e admin config s =
     (if acl_admin_slot s \<noteq> None then Err AlreadyInitialized
      else if max_batch_size config = 0 \<or> max_wildcards config = 0 then Err LimitExceeded
      else and_then (require_auth e admin) (\<lambda>_.
        Ok (s\<lparr>acl_admin_slot := Some admin, acl_config_slot := Some config, lockdown := Some False\<rparr>)))"

definition acl_setup_protocol_roles ::
  "env \<Rightarrow> address \<Rightarrow> address \<Rightarrow> address \<Rightarrow> address \<Rightarrow> address \<Rightarrow> address \<Rightarrow> acl \<Rightarrow> (acl, acl_error) result" where
  "acl_setup_protocol_roles e actor owner admin strategist keeper emergency s =
     and_then (require_root e actor s) (\<lambda>_.
     and_then (require_writable s) (\<lambda>_.
       if protocol_configured s = Some True then Err ProtocolRolesAlreadyConfigured
       else
         and_then (provision_protocol_role actor Owner owner s) (\<lambda>s.
         and_then (provision_protocol_role actor Admin admin s) (\<lambda>s.
         and_then (provision_protocol_role actor Strategist strategist s) (\<lambda>s.
         and_then (provision_protocol_role actor Keeper keeper s) (\<lambda>s.
         and_then (provision_protocol_role actor Emergency emergency s) (\<lambda>s.
           Ok (s\<lparr>protocol_configured := Some True\<rparr>))))))))"

definition acl_transfer_admin :: "env \<Rightarrow> address \<Rightarrow> address \<Rightarrow> acl \<Rightarrow> (acl, acl_error) result" where
  "acl_transfer_admin e actor new_admin s =
     and_then (acl_read_admin s) (\<lambda>_.
     and_then (require_root e actor s) (\<lambda>_.
       Ok (s\<lparr>acl_admin_slot := Some new_admin\<rparr>)))"

definition acl_set_config :: "env \<Rightarrow> address \<Rightarrow> acl_config \<Rightarrow> acl \<Rightarrow> (acl, acl_error) result" where
  "acl_set_config e actor config s =
     and_then (require_root e actor s) (\<lambda>_.
     and_then (require_writable s) (\<lambda>_.
       if max_batch_size config = 0 \<or> max_wildcards config = 0 then Err LimitExceeded
       else Ok (s\<lparr>acl_config_slot := Some config\<rparr>)))"

definition acl_set_lockdown :: "env \<Rightarrow> address \<Rightarrow> bool \<Rightarrow> acl \<Rightarrow> (acl, acl_error) result" where
  "acl_set_lockdown e actor act s =
     and_then (require_root e actor s) (\<lambda>_. Ok (s\<lparr>lockdown := Some act\<rparr>))"

section \<open>Queries\<close>

definition acl_admin :: "acl \<Rightarrow> (address, acl_error) result" where
  "acl_admin s = acl_read_admin s"

definition acl_config_of :: "acl \<Rightarrow> (acl_config, acl_error) result" where
  "acl_config_of s = acl_read_config s"

definition acl_is_lockdown :: "acl \<Rightarrow> bool" where
  "acl_is_lockdown s = is_locked s"

definition acl_has_permission :: "acl \<Rightarrow> address \<Rightarrow> selector \<Rightarrow> bool" where
  "acl_has_permission s caller sel = permits s caller sel"

definition acl_require_permission :: "acl \<Rightarrow> address \<Rightarrow> selector \<Rightarrow> (unit, acl_error) result" where
  "acl_require_permission s caller sel = (if permits s caller sel then Ok () else Err Unauthorized)"

definition acl_grants_of :: "acl \<Rightarrow> address \<Rightarrow> selector list" where
  "acl_grants_of s caller = read_list (grants_index s) caller"

definition acl_is_granted :: "acl \<Rightarrow> address \<Rightarrow> selector \<Rightarrow> bool" where
  "acl_is_granted s caller sel = (grant_flag s (caller, sel) \<noteq> None)"

definition acl_roles_of :: "acl \<Rightarrow> address \<Rightarrow> role list" where
  "acl_roles_of s caller = read_list (roles_index s) caller"

definition acl_has_role :: "acl \<Rightarrow> address \<Rightarrow> role \<Rightarrow> bool" where
  "acl_has_role s caller role = (member_flag s (role, caller) \<noteq> None)"

definition acl_has_protocol_role :: "acl \<Rightarrow> address \<Rightarrow> protocol_role \<Rightarrow> bool" where
  "acl_has_protocol_role s caller role = (member_flag s (protocol_role_name role, caller) \<noteq> None)"

definition acl_protocol_roles_configured :: "acl \<Rightarrow> bool" where
  "acl_protocol_roles_configured s = (protocol_configured s = Some True)"

definition acl_members_of :: "acl \<Rightarrow> role \<Rightarrow> address list" where
  "acl_members_of s role = read_list (members_index s) role"

definition acl_permissions_of :: "acl \<Rightarrow> role \<Rightarrow> selector list" where
  "acl_permissions_of s role = read_list (perms_index s) role"

definition acl_role_info :: "acl \<Rightarrow> role \<Rightarrow> (role_info, acl_error) result" where
  "acl_role_info s role =
     and_then (ok_or (role_admins s role) RoleNotFound) (\<lambda>admin.
       Ok \<lparr>ri_role = role, ri_admin = admin,
           permission_count = of_nat (length (read_list (perms_index s) role)),
           member_count = of_nat (length (read_list (members_index s) role))\<rparr>)"

definition acl_role_exists :: "acl \<Rightarrow> role \<Rightarrow> bool" where
  "acl_role_exists s role = role_exists s role"

definition acl_list_roles :: "acl \<Rightarrow> role list" where
  "acl_list_roles s = read_one (role_list s)"

definition acl_list_wildcards :: "acl \<Rightarrow> selector list" where
  "acl_list_wildcards s = map pattern (wildcard_prefixes s)"

definition acl_is_wildcard_registered :: "acl \<Rightarrow> selector \<Rightarrow> bool" where
  "acl_is_wildcard_registered s pat =
     (case classify pat of Ok (Namespace prfx) \<Rightarrow> prfx \<in> set (wildcard_prefixes s) | _ \<Rightarrow> False)"

definition acl_wildcard_usage :: "acl \<Rightarrow> selector \<Rightarrow> u32" where
  "acl_wildcard_usage s pat =
     (case classify pat of Ok (Namespace prfx) \<Rightarrow> wildcard_use s prfx | _ \<Rightarrow> 0)"

section \<open>Direct grants\<close>

definition acl_grant :: "env \<Rightarrow> address \<Rightarrow> address \<Rightarrow> selector \<Rightarrow> acl \<Rightarrow> acl_result" where
  "acl_grant e actor caller sel s =
     and_then (require_root e actor s) (\<lambda>_.
     and_then (require_writable s) (\<lambda>_. apply_grant caller sel s))"

definition acl_revoke :: "env \<Rightarrow> address \<Rightarrow> address \<Rightarrow> selector \<Rightarrow> acl \<Rightarrow> acl_result" where
  "acl_revoke e actor caller sel s =
     and_then (require_root e actor s) (\<lambda>_.
     and_then (require_writable s) (\<lambda>_. Ok (apply_revoke caller sel s)))"

text \<open>The counters of the batches are plain \<open>u32\<close> additions.\<close>

definition count_if :: "env \<Rightarrow> bool \<Rightarrow> u32 \<Rightarrow> (u32, acl_error) result" where
  "count_if e b n = (if b then add_u32 e n 1 else Ok n)"

fun grant_loop :: "env \<Rightarrow> (address \<times> selector) list \<Rightarrow> u32 \<Rightarrow> acl \<Rightarrow> (u32 \<times> acl, acl_error) result" where
  "grant_loop e [] n s = Ok (n, s)"
| "grant_loop e ((t, sel) # es) n s =
     and_then (apply_grant t sel s) (\<lambda>(b, s).
     and_then (count_if e b n) (\<lambda>n. grant_loop e es n s))"

definition acl_batch_grant ::
  "env \<Rightarrow> address \<Rightarrow> (address \<times> selector) list \<Rightarrow> acl \<Rightarrow> (u32 \<times> acl, acl_error) result" where
  "acl_batch_grant e actor entries s =
     and_then (require_root e actor s) (\<lambda>_.
     and_then (require_writable s) (\<lambda>_.
     and_then (check_batch_size s (length entries)) (\<lambda>_. grant_loop e entries 0 s)))"

fun revoke_loop :: "env \<Rightarrow> (address \<times> selector) list \<Rightarrow> u32 \<Rightarrow> acl \<Rightarrow> (u32 \<times> acl, acl_error) result" where
  "revoke_loop e [] n s = Ok (n, s)"
| "revoke_loop e ((t, sel) # es) n s =
     (let (b, s) = apply_revoke t sel s in and_then (count_if e b n) (\<lambda>n. revoke_loop e es n s))"

definition acl_batch_revoke ::
  "env \<Rightarrow> address \<Rightarrow> (address \<times> selector) list \<Rightarrow> acl \<Rightarrow> (u32 \<times> acl, acl_error) result" where
  "acl_batch_revoke e actor entries s =
     and_then (require_root e actor s) (\<lambda>_.
     and_then (require_writable s) (\<lambda>_.
     and_then (check_batch_size s (length entries)) (\<lambda>_. revoke_loop e entries 0 s)))"

definition acl_renounce :: "env \<Rightarrow> address \<Rightarrow> selector \<Rightarrow> acl \<Rightarrow> acl_result" where
  "acl_renounce e caller sel s = and_then (require_auth e caller) (\<lambda>_. Ok (apply_revoke caller sel s))"

fun leave_loop :: "env \<Rightarrow> address \<Rightarrow> role list \<Rightarrow> u32 \<Rightarrow> acl \<Rightarrow> (u32 \<times> acl, acl_error) result" where
  "leave_loop e caller [] n s = Ok (n, s)"
| "leave_loop e caller (r # rs) n s =
     (let (b, s) = apply_role_member_revoke r caller s
      in and_then (count_if e b n) (\<lambda>n. leave_loop e caller rs n s))"

definition acl_renounce_all :: "env \<Rightarrow> address \<Rightarrow> acl \<Rightarrow> (u32 \<times> acl, acl_error) result" where
  "acl_renounce_all e caller s =
     and_then (require_auth e caller) (\<lambda>_.
     and_then (revoke_loop e (map (Pair caller) (read_list (grants_index s) caller)) 0 s) (\<lambda>(n, s).
       leave_loop e caller (read_list (roles_index s) caller) n s))"

section \<open>Roles\<close>

definition acl_create_role :: "env \<Rightarrow> address \<Rightarrow> role \<Rightarrow> address \<Rightarrow> acl \<Rightarrow> (acl, acl_error) result" where
  "acl_create_role e actor role admin s =
     and_then (require_root e actor s) (\<lambda>_.
     and_then (require_writable s) (\<lambda>_.
     and_then (validate_role role) (\<lambda>_.
       if role_exists s role then Err RoleExists
       else and_then (acl_read_config s) (\<lambda>cfg.
         let roles = read_one (role_list s)
         in if unat (max_roles cfg) \<le> length roles then Err LimitExceeded
            else Ok (s\<lparr>role_admins := (role_admins s)(role \<mapsto> admin),
                       role_list := write_one (roles @ [role])\<rparr>)))))"

definition acl_set_role_admin :: "env \<Rightarrow> address \<Rightarrow> role \<Rightarrow> address \<Rightarrow> acl \<Rightarrow> (acl, acl_error) result" where
  "acl_set_role_admin e actor role new_admin s =
     and_then (require_root e actor s) (\<lambda>_.
     and_then (require_writable s) (\<lambda>_.
       if \<not> role_exists s role then Err RoleNotFound
       else Ok (s\<lparr>role_admins := (role_admins s)(role \<mapsto> new_admin)\<rparr>)))"

text \<open>The guards shared by the entry points a role's own administrator may call.\<close>

definition role_guard :: "env \<Rightarrow> address \<Rightarrow> role \<Rightarrow> acl \<Rightarrow> (unit, acl_error) result" where
  "role_guard e actor role s =
     (if \<not> role_exists s role then Err RoleNotFound
      else and_then (require_role_admin e actor role s) (\<lambda>_. require_writable s))"

definition acl_grant_role_permission :: "env \<Rightarrow> address \<Rightarrow> role \<Rightarrow> selector \<Rightarrow> acl \<Rightarrow> acl_result" where
  "acl_grant_role_permission e actor role sel s =
     and_then (role_guard e actor role s) (\<lambda>_. apply_role_permission role sel s)"

definition acl_revoke_role_permission :: "env \<Rightarrow> address \<Rightarrow> role \<Rightarrow> selector \<Rightarrow> acl \<Rightarrow> acl_result" where
  "acl_revoke_role_permission e actor role sel s =
     and_then (role_guard e actor role s) (\<lambda>_. Ok (apply_role_revoke role sel s))"

definition acl_grant_role :: "env \<Rightarrow> address \<Rightarrow> role \<Rightarrow> address \<Rightarrow> acl \<Rightarrow> acl_result" where
  "acl_grant_role e actor role member s =
     and_then (role_guard e actor role s) (\<lambda>_. apply_role_member role member s)"

definition acl_revoke_role :: "env \<Rightarrow> address \<Rightarrow> role \<Rightarrow> address \<Rightarrow> acl \<Rightarrow> acl_result" where
  "acl_revoke_role e actor role member s =
     and_then (role_guard e actor role s) (\<lambda>_. Ok (apply_role_member_revoke role member s))"

definition acl_renounce_role :: "env \<Rightarrow> address \<Rightarrow> role \<Rightarrow> acl \<Rightarrow> acl_result" where
  "acl_renounce_role e caller role s =
     and_then (require_auth e caller) (\<lambda>_. Ok (apply_role_member_revoke role caller s))"

text \<open>Loops that detach every selector or member of a list that satisfies a predicate.\<close>

fun drop_perms :: "role \<Rightarrow> (selector \<Rightarrow> bool) \<Rightarrow> selector list \<Rightarrow> acl \<Rightarrow> acl" where
  "drop_perms role P [] s = s"
| "drop_perms role P (sel # sels) s =
     drop_perms role P sels (if P sel then snd (apply_role_revoke role sel s) else s)"

fun drop_members :: "role \<Rightarrow> (address \<Rightarrow> bool) \<Rightarrow> address list \<Rightarrow> acl \<Rightarrow> acl" where
  "drop_members role P [] s = s"
| "drop_members role P (m # ms) s =
     drop_members role P ms (if P m then snd (apply_role_member_revoke role m s) else s)"

definition acl_destroy_role :: "env \<Rightarrow> address \<Rightarrow> role \<Rightarrow> acl \<Rightarrow> (u32 \<times> acl, acl_error) result" where
  "acl_destroy_role e actor role s =
     and_then (require_root e actor s) (\<lambda>_.
     and_then (require_writable s) (\<lambda>_.
       if \<not> role_exists s role then Err RoleNotFound
       else
         (let perms = read_list (perms_index s) role; members = read_list (members_index s) role;
              s = drop_perms role (\<lambda>_. True) perms s;
              s = drop_members role (\<lambda>_. True) members s;
              s = s\<lparr>role_admins := (role_admins s)(role := None),
                    role_list := write_one (keep_except role (read_one (role_list s)))\<rparr>
          in and_then (add_u32 e (of_nat (length members)) (of_nat (length perms))) (\<lambda>n. Ok (n, s)))))"

definition acl_batch_set_members ::
  "env \<Rightarrow> address \<Rightarrow> role \<Rightarrow> address list \<Rightarrow> acl \<Rightarrow> (u32 \<times> acl, acl_error) result" where
  "acl_batch_set_members e actor role members s =
     and_then (role_guard e actor role s) (\<lambda>_.
     and_then (check_batch_size s (length members)) (\<lambda>_.
     and_then
       (members_loop role members
         (drop_members role (\<lambda>m. m \<notin> set members) (read_list (members_index s) role) s)) (\<lambda>s.
       Ok (of_nat (length members), s))))"

definition acl_batch_set_permissions ::
  "env \<Rightarrow> address \<Rightarrow> role \<Rightarrow> selector list \<Rightarrow> acl \<Rightarrow> (u32 \<times> acl, acl_error) result" where
  "acl_batch_set_permissions e actor role sels s =
     and_then (role_guard e actor role s) (\<lambda>_.
     and_then (check_batch_size s (length sels)) (\<lambda>_.
     and_then
       (perms_loop role sels
         (drop_perms role (\<lambda>x. x \<notin> set sels) (read_list (perms_index s) role) s)) (\<lambda>s.
       Ok (of_nat (length sels), s))))"

section \<open>Namespace wildcards\<close>

definition namespace_of :: "selector \<Rightarrow> (selector, acl_error) result" where
  "namespace_of pat =
     and_then (classify pat) (\<lambda>kind. case kind of Namespace prfx \<Rightarrow> Ok prfx | _ \<Rightarrow> Err InvalidSelector)"

definition acl_register_wildcard :: "env \<Rightarrow> address \<Rightarrow> selector \<Rightarrow> acl \<Rightarrow> acl_result" where
  "acl_register_wildcard e actor pat s =
     and_then (require_root e actor s) (\<lambda>_.
     and_then (require_writable s) (\<lambda>_.
     and_then (namespace_of pat) (\<lambda>prfx.
       let registered = wildcard_prefixes s
       in if prfx \<in> set registered then Ok (False, s)
          else and_then (acl_read_config s) (\<lambda>cfg.
            if unat (max_wildcards cfg) \<le> length registered then Err LimitExceeded
            else Ok (True, s\<lparr>wildcards := write_one (registered @ [prfx])\<rparr>)))))"

definition acl_unregister_wildcard :: "env \<Rightarrow> address \<Rightarrow> selector \<Rightarrow> acl \<Rightarrow> acl_result" where
  "acl_unregister_wildcard e actor pat s =
     and_then (require_root e actor s) (\<lambda>_.
     and_then (require_writable s) (\<lambda>_.
     and_then (namespace_of pat) (\<lambda>prfx.
       let registered = wildcard_prefixes s
       in if prfx \<notin> set registered then Err WildcardNotFound
          else if 0 < wildcard_use s prfx then Err WildcardInUse
          else Ok (True, s\<lparr>wildcards := write_one (keep_except prfx registered)\<rparr>))))"

section \<open>Calls\<close>

datatype acl_call =
    Initialize address acl_config
  | SetupProtocolRoles address address address address address address
  | TransferAdmin address address
  | SetConfig address acl_config
  | SetLockdown address bool
  | Grant address address selector
  | Revoke address address selector
  | BatchGrant address "(address \<times> selector) list"
  | BatchRevoke address "(address \<times> selector) list"
  | Renounce address selector
  | RenounceAll address
  | CreateRole address role address
  | SetRoleAdmin address role address
  | GrantRolePermission address role selector
  | RevokeRolePermission address role selector
  | GrantRole address role address
  | RevokeRole address role address
  | RenounceRole address role
  | DestroyRole address role
  | BatchSetMembers address role "address list"
  | BatchSetPermissions address role "selector list"
  | RegisterWildcard address selector
  | UnregisterWildcard address selector

definition acl_drop :: "('r \<times> acl, acl_error) result \<Rightarrow> (acl, acl_error) result" where
  "acl_drop m = and_then m (\<lambda>(r, s). Ok s)"

fun acl_exec :: "env \<Rightarrow> acl_call \<Rightarrow> acl \<Rightarrow> (acl, acl_error) result" where
  "acl_exec e (Initialize a c) s = acl_initialize e a c s"
| "acl_exec e (SetupProtocolRoles a o1 o2 o3 o4 o5) s = acl_setup_protocol_roles e a o1 o2 o3 o4 o5 s"
| "acl_exec e (TransferAdmin a b) s = acl_transfer_admin e a b s"
| "acl_exec e (SetConfig a c) s = acl_set_config e a c s"
| "acl_exec e (SetLockdown a b) s = acl_set_lockdown e a b s"
| "acl_exec e (Grant a t x) s = acl_drop (acl_grant e a t x s)"
| "acl_exec e (Revoke a t x) s = acl_drop (acl_revoke e a t x s)"
| "acl_exec e (BatchGrant a es) s = acl_drop (acl_batch_grant e a es s)"
| "acl_exec e (BatchRevoke a es) s = acl_drop (acl_batch_revoke e a es s)"
| "acl_exec e (Renounce a x) s = acl_drop (acl_renounce e a x s)"
| "acl_exec e (RenounceAll a) s = acl_drop (acl_renounce_all e a s)"
| "acl_exec e (CreateRole a r b) s = acl_create_role e a r b s"
| "acl_exec e (SetRoleAdmin a r b) s = acl_set_role_admin e a r b s"
| "acl_exec e (GrantRolePermission a r x) s = acl_drop (acl_grant_role_permission e a r x s)"
| "acl_exec e (RevokeRolePermission a r x) s = acl_drop (acl_revoke_role_permission e a r x s)"
| "acl_exec e (GrantRole a r m) s = acl_drop (acl_grant_role e a r m s)"
| "acl_exec e (RevokeRole a r m) s = acl_drop (acl_revoke_role e a r m s)"
| "acl_exec e (RenounceRole a r) s = acl_drop (acl_renounce_role e a r s)"
| "acl_exec e (DestroyRole a r) s = acl_drop (acl_destroy_role e a r s)"
| "acl_exec e (BatchSetMembers a r ms) s = acl_drop (acl_batch_set_members e a r ms s)"
| "acl_exec e (BatchSetPermissions a r xs) s = acl_drop (acl_batch_set_permissions e a r xs s)"
| "acl_exec e (RegisterWildcard a p) s = acl_drop (acl_register_wildcard e a p s)"
| "acl_exec e (UnregisterWildcard a p) s = acl_drop (acl_unregister_wildcard e a p s)"

definition fresh_acl :: acl where
  "fresh_acl = \<lparr>acl_admin_slot = None, acl_config_slot = None, lockdown = None, grant_flag = Map.empty,
     grants_index = Map.empty, member_flag = Map.empty, members_index = Map.empty, roles_index = Map.empty,
     perm_flag = Map.empty, perms_index = Map.empty, role_admins = Map.empty, role_list = None,
     protocol_configured = None, wildcards = None, wildcard_counts = Map.empty\<rparr>"

interpretation acl_root: admin_gate require_root acl_admin_slot
  by unfold_locales (auto simp: require_root_def is_root_def)

end
