(* ===== verification/Acl_Policy.thy ===== *)
theory Acl_Policy
  imports Access_Control "HOL-Library.Sublist"
begin

text \<open>
  The abstract policy behind the access control lists, and the proof that the contract implements
  it. The policy is a role-based access control state of plain sets; every accepted call of the
  contract is one update of these sets, and the contract's decision procedure, with its flags,
  indexes, wildcard registry and usage counters, decides exactly what the policy allows.
\<close>

section \<open>Selectors\<close>

lemma position_None: "position P xs = None \<longleftrightarrow> (\<forall>x\<in>set xs. \<not> P x)"
  by (induction xs) auto

lemma position_Some:
  "position P xs = Some i \<longleftrightarrow> i < length xs \<and> P (xs ! i) \<and> (\<forall>j<i. \<not> P (xs ! j))"
proof (induction xs arbitrary: i)
  case (Cons x xs)
  show ?case by (cases i) (auto simp: Cons.IH less_Suc_eq_0_disj)
qed simp

text \<open>The patterns of a namespace are the prefix followed by the only star.\<close>

lemma classify_namespace:
  "classify sel = Ok (Namespace p) \<longleftrightarrow> sel = pattern p \<and> p \<noteq> [] \<and> STAR \<notin> set p \<and> length p < 64"
  (is "?l = ?r")
proof
  assume ?l
  then obtain i where i: "position (\<lambda>b. b = STAR) sel = Some i" "i = length sel - 1" "p = take i sel"
    and n: "length sel \<noteq> 0" "length sel \<le> 64" "\<not> (length sel = 1 \<and> hd sel = STAR)"
    by (auto simp: classify_def Let_def MAX_BYTES_def MAX_SELECTOR_LEN_def not_less
        split: if_splits option.splits)
  have at: "i < length sel" "sel ! i = STAR" and before: "\<forall>j<i. sel ! j \<noteq> STAR"
    using i(1) by (simp_all add: position_Some)
  have "length sel \<noteq> 1" using at i(2) n(3) by (cases sel) auto
  then have ne: "p \<noteq> []" using i(2,3) n(1) by (cases sel) auto
  have "last sel = STAR" using at i(2) n(1) by (auto simp: last_conv_nth)
  moreover have "p = butlast sel" using i(2,3) by (simp add: butlast_conv_take)
  moreover have "sel \<noteq> []" using n(1) by auto
  ultimately have "sel = p @ [STAR]" by (metis append_butlast_last_id)
  moreover have "STAR \<notin> set p"
    using before at(1) by (auto simp: i(3) in_set_conv_nth)
  ultimately show ?r using ne n(2) by (auto simp: pattern_def)
next
  assume r: ?r
  then have "position (\<lambda>b. b = STAR) sel = Some (length p)"
    by (auto simp: position_Some pattern_def nth_append dest: nth_mem)
  then show ?l using r
    by (auto simp: classify_def Let_def MAX_BYTES_def MAX_SELECTOR_LEN_def pattern_def hd_append)
qed

lemma classify_any: "classify sel = Ok Any \<longleftrightarrow> sel = WILDCARD"
  by (cases sel) (auto simp: classify_def Let_def MAX_BYTES_def MAX_SELECTOR_LEN_def WILDCARD_def STAR_def
      split: option.splits)

lemma classify_pattern: "classify (pattern p) = Ok (Namespace p) \<longleftrightarrow> p \<noteq> [] \<and> STAR \<notin> set p \<and> length p < 64"
  by (simp add: classify_namespace)

lemma pattern_inj [simp]: "pattern p = pattern q \<longleftrightarrow> p = q"
  by (simp add: pattern_def)

lemma classify_length: "classify sel = Ok k \<Longrightarrow> sel \<noteq> [] \<and> length sel \<le> 64"
  by (auto simp: classify_def Let_def MAX_BYTES_def MAX_SELECTOR_LEN_def split: if_splits)

lemma classify_not_Panic [simp]: "classify sel \<noteq> Panic"
  by (auto simp: classify_def Let_def split: option.splits)

text \<open>What a stored selector covers, by its kind.\<close>

definition covers :: "selector \<Rightarrow> selector \<Rightarrow> bool" where
  "covers p sel = (case classify p of
     Ok Exact \<Rightarrow> p = sel | Ok Any \<Rightarrow> True | Ok (Namespace q) \<Rightarrow> prefix q sel | _ \<Rightarrow> False)"

lemma is_prefix_prefix:
  "p \<noteq> [] \<Longrightarrow> length p < 64 \<Longrightarrow> length sel \<le> 64 \<Longrightarrow> is_prefix p sel \<longleftrightarrow> prefix p sel"
  by (auto simp: is_prefix_def Let_def MAX_BYTES_def MAX_SELECTOR_LEN_def prefix_def take_is_prefix
      dest: prefix_length_le) (metis append_take_drop_id)+

text \<open>
  A probe finds a stored selector that covers the wanted one, when every stored selector is well
  formed and the namespaces among them are registered.
\<close>

definition sel_ok :: "selector set \<Rightarrow> selector \<Rightarrow> bool" where
  "sel_ok wild p \<longleftrightarrow> is_ok (classify p) \<and> (\<forall>q. classify p = Ok (Namespace q) \<longrightarrow> q \<in> wild)"

definition stored_ok :: "selector set \<Rightarrow> selector set \<Rightarrow> bool" where
  "stored_ok wild stored \<longleftrightarrow> (\<forall>p\<in>stored. sel_ok wild p)"

lemma probe_iff:
  assumes "stored_ok (set ws) stored" and "classify sel = Ok k"
    and "\<forall>q\<in>set ws. classify (pattern q) = Ok (Namespace q)"
  shows "sel \<in> stored \<or> WILDCARD \<in> stored \<or> (\<exists>q\<in>set ws. is_prefix q sel \<and> pattern q \<in> stored)
    \<longleftrightarrow> (\<exists>p\<in>stored. covers p sel)" (is "?l = ?r")
proof
  assume ?l
  then consider "sel \<in> stored" | "WILDCARD \<in> stored" | q where "q \<in> set ws" "is_prefix q sel" "pattern q \<in> stored"
    by blast
  then show ?r
  proof cases
    case 1
    have "covers sel sel" using assms(2)
    proof (cases k)
      case (Namespace q)
      then have "prefix q sel" using assms(2) by (simp add: classify_namespace pattern_def)
      then show ?thesis using assms(2) Namespace by (simp add: covers_def)
    qed (simp_all add: covers_def)
    then show ?thesis using 1 by blast
  next
    case 2
    have "covers WILDCARD sel" using classify_any [of WILDCARD] by (simp add: covers_def)
    then show ?thesis using 2 by blast
  next
    case 3
    then have "classify (pattern q) = Ok (Namespace q)" "prefix q sel"
      using assms(2,3) by (auto simp: classify_pattern is_prefix_prefix dest: classify_length)
    then show ?thesis using 3(3) by (auto simp: covers_def intro!: bexI [of _ "pattern q"])
  qed
next
  assume ?r
  then obtain p where p: "p \<in> stored" "covers p sel" by blast
  then consider "classify p = Ok Exact" | "classify p = Ok Any" | q where "classify p = Ok (Namespace q)"
    by (auto simp: covers_def split: result.splits selector_kind.splits)
  then show ?l
  proof cases
    case 3
    then have "q \<in> set ws" using assms(1) p(1) by (auto simp: stored_ok_def sel_ok_def)
    moreover have "prefix q sel" using 3 p(2) by (simp add: covers_def)
    moreover have "p = pattern q" "q \<noteq> []" "length q < 64" using 3 by (simp_all add: classify_namespace)
    ultimately show ?thesis using p(1) classify_length [OF assms(2)] is_prefix_prefix by blast
  qed (use p in \<open>auto simp: covers_def classify_any\<close>)
qed

section \<open>Indexed sets\<close>

text \<open>
  The contract stores a relation twice: as a flag per pair, and as a list per key. The lists hold
  exactly the flagged pairs, without repetition.
\<close>

definition indexed :: "('k \<times> 'a) set \<Rightarrow> ('k \<rightharpoonup> 'a list) \<Rightarrow> bool" where
  "indexed R index \<longleftrightarrow> (\<forall>k. distinct (read_list index k) \<and> set (read_list index k) = {x. (k, x) \<in> R})"

lemma read_write [simp]: "read_list (write_list k xs m) k' = (if k' = k then xs else read_list m k')"
  by (simp add: read_list_def write_list_def)

lemma keep_except_set [simp]: "set (keep_except x xs) = set xs - {x}" "distinct xs \<Longrightarrow> distinct (keep_except x xs)"
  by (auto simp: keep_except_def)

lemma read_write_one [simp]: "read_one (write_one xs) = xs"
  by (simp add: read_one_def write_one_def)

lemma indexed_insert:
  "indexed R m \<Longrightarrow> (k, x) \<notin> R \<Longrightarrow> indexed (insert (k, x) R) (write_list k (read_list m k @ [x]) m)"
  by (auto simp: indexed_def)

lemma indexed_remove:
  "indexed R m \<Longrightarrow> indexed (R - {(k, x)}) (write_list k (keep_except x (read_list m k)) m)"
  by (auto simp: indexed_def)

lemma indexed_mem: "indexed R m \<Longrightarrow> x \<in> set (read_list m k) \<longleftrightarrow> (k, x) \<in> R"
  by (simp add: indexed_def)

section \<open>The policy\<close>

record rbac =
  root :: "address option"
  frozen :: bool
  held :: "(address \<times> selector) set"
  perms :: "(role \<times> selector) set"
  memb :: "(role \<times> address) set"
  admins :: "role \<rightharpoonup> address"
  wild :: "selector set"

definition rbac_allows :: "rbac \<Rightarrow> address \<Rightarrow> selector \<Rightarrow> bool" where
  "rbac_allows A c sel \<longleftrightarrow> root A = Some c \<or>
     is_ok (classify sel) \<and> (\<exists>p. covers p sel \<and> ((c, p) \<in> held A \<or> (\<exists>r. (r, c) \<in> memb A \<and> (r, p) \<in> perms A)))"

definition acl_abs :: "acl \<Rightarrow> rbac" where
  "acl_abs s = \<lparr>root = acl_admin_slot s, frozen = is_locked s, held = dom (grant_flag s), perms = dom (perm_flag s),
     memb = dom (member_flag s), admins = role_admins s, wild = set (wildcard_prefixes s)\<rparr>"

text \<open>What each accepted call does to the policy.\<close>

definition protocol_roles :: "protocol_role list" where
  "protocol_roles = [Owner, Admin, Strategist, Keeper, Emergency]"

fun rbac_apply :: "acl_call \<Rightarrow> rbac \<Rightarrow> rbac" where
  "rbac_apply (Initialize a c) A = A\<lparr>root := Some a, frozen := False\<rparr>"
| "rbac_apply (SetupProtocolRoles a o1 o2 o3 o4 o5) A =
     A\<lparr>admins := admins A ++ map_of (map (\<lambda>r. (protocol_role_name r, a)) protocol_roles),
       perms := perms A \<union> {(protocol_role_name r, x) | r x. x \<in> set (protocol_role_permissions r)},
       memb := memb A \<union> set (zip (map protocol_role_name protocol_roles) [o1, o2, o3, o4, o5])\<rparr>"
| "rbac_apply (TransferAdmin a b) A = A\<lparr>root := Some b\<rparr>"
| "rbac_apply (SetConfig a c) A = A"
| "rbac_apply (SetLockdown a b) A = A\<lparr>frozen := b\<rparr>"
| "rbac_apply (Grant a t x) A = A\<lparr>held := insert (t, x) (held A)\<rparr>"
| "rbac_apply (Revoke a t x) A = A\<lparr>held := held A - {(t, x)}\<rparr>"
| "rbac_apply (BatchGrant a es) A = A\<lparr>held := held A \<union> set es\<rparr>"
| "rbac_apply (BatchRevoke a es) A = A\<lparr>held := held A - set es\<rparr>"
| "rbac_apply (Renounce a x) A = A\<lparr>held := held A - {(a, x)}\<rparr>"
| "rbac_apply (RenounceAll a) A = A\<lparr>held := held A - {a} \<times> UNIV, memb := memb A - UNIV \<times> {a}\<rparr>"
| "rbac_apply (CreateRole a r b) A = A\<lparr>admins := (admins A)(r \<mapsto> b)\<rparr>"
| "rbac_apply (SetRoleAdmin a r b) A = A\<lparr>admins := (admins A)(r \<mapsto> b)\<rparr>"
| "rbac_apply (GrantRolePermission a r x) A = A\<lparr>perms := insert (r, x) (perms A)\<rparr>"
| "rbac_apply (RevokeRolePermission a r x) A = A\<lparr>perms := perms A - {(r, x)}\<rparr>"
| "rbac_apply (GrantRole a r m) A = A\<lparr>memb := insert (r, m) (memb A)\<rparr>"
| "rbac_apply (RevokeRole a r m) A = A\<lparr>memb := memb A - {(r, m)}\<rparr>"
| "rbac_apply (RenounceRole a r) A = A\<lparr>memb := memb A - {(r, a)}\<rparr>"
| "rbac_apply (DestroyRole a r) A =
     A\<lparr>perms := perms A - {r} \<times> UNIV, memb := memb A - {r} \<times> UNIV, admins := (admins A)(r := None)\<rparr>"
| "rbac_apply (BatchSetMembers a r ms) A = A\<lparr>memb := (memb A - {r} \<times> UNIV) \<union> {r} \<times> set ms\<rparr>"
| "rbac_apply (BatchSetPermissions a r xs) A = A\<lparr>perms := (perms A - {r} \<times> UNIV) \<union> {r} \<times> set xs\<rparr>"
| "rbac_apply (RegisterWildcard a p) A = A\<lparr>wild := insert (butlast p) (wild A)\<rparr>"
| "rbac_apply (UnregisterWildcard a p) A = A\<lparr>wild := wild A - {butlast p}\<rparr>"

section \<open>Counting references\<close>

definition ns :: "selector \<Rightarrow> selector option" where
  "ns sel = (case classify sel of Ok (Namespace p) \<Rightarrow> Some p | _ \<Rightarrow> None)"

lemma ns_Some: "ns sel = Some p \<longleftrightarrow> classify sel = Ok (Namespace p)"
  by (auto simp: ns_def split: result.splits selector_kind.splits)

definition refs :: "('k \<times> selector) set \<Rightarrow> selector \<Rightarrow> nat" where
  "refs R p = card {k \<in> R. ns (snd k) = Some p}"

lemma refs_insert:
  assumes "finite R" and "(a, x) \<notin> R"
  shows "refs (insert (a, x) R) p = refs R p + (if ns x = Some p then 1 else 0)"
proof -
  have "{k \<in> insert (a, x) R. ns (snd k) = Some p} =
      (if ns x = Some p then insert (a, x) {k \<in> R. ns (snd k) = Some p} else {k \<in> R. ns (snd k) = Some p})"
    by auto
  then show ?thesis using assms by (simp add: refs_def)
qed

lemma refs_remove:
  assumes "finite R" and "(a, x) \<in> R"
  shows "refs R p = refs (R - {(a, x)}) p + (if ns x = Some p then 1 else 0)"
  using refs_insert [of "R - {(a, x)}" a x p] assms by (simp add: insert_absorb)

lemma refs_le: "finite R \<Longrightarrow> refs R p \<le> card R"
  by (simp add: refs_def card_mono)

lemma track_simps [simp]:
  "acl_admin_slot (track_wildcard_use x d s) = acl_admin_slot s"
  "acl_config_slot (track_wildcard_use x d s) = acl_config_slot s"
  "lockdown (track_wildcard_use x d s) = lockdown s"
  "grant_flag (track_wildcard_use x d s) = grant_flag s"
  "grants_index (track_wildcard_use x d s) = grants_index s"
  "member_flag (track_wildcard_use x d s) = member_flag s"
  "members_index (track_wildcard_use x d s) = members_index s"
  "roles_index (track_wildcard_use x d s) = roles_index s"
  "perm_flag (track_wildcard_use x d s) = perm_flag s"
  "perms_index (track_wildcard_use x d s) = perms_index s"
  "role_admins (track_wildcard_use x d s) = role_admins s"
  "role_list (track_wildcard_use x d s) = role_list s"
  "wildcards (track_wildcard_use x d s) = wildcards s"
  by (simp_all add: track_wildcard_use_def bump_wildcard_use_def Let_def split: result.split selector_kind.split)

lemma use_track:
  "wildcard_use (track_wildcard_use x d s) p =
     (if ns x = Some p then word_of_int (max (uint (wildcard_use s p) + d) 0) else wildcard_use s p)"
  by (auto simp: track_wildcard_use_def bump_wildcard_use_def wildcard_use_def ns_def Let_def
      split: result.split selector_kind.split)

definition bumped :: "selector \<Rightarrow> int \<Rightarrow> (selector \<Rightarrow> u32) \<Rightarrow> selector \<Rightarrow> u32" where
  "bumped x d u p = (if ns x = Some p then word_of_int (max (uint (u p) + d) 0) else u p)"

lemma unat_bump_up: "unat (w :: u32) + 1 < 2 ^ 32 \<Longrightarrow> unat (word_of_int (max (uint w + 1) 0) :: u32) = unat w + 1"
proof -
  assume a: "unat w + 1 < 2 ^ 32"
  have "max (uint w + 1) 0 = uint w + 1" by (rule max_absorb1) (simp add: add_nonneg_nonneg)
  then have "word_of_int (max (uint w + 1) 0) = w + 1" by simp
  then show ?thesis using a by (simp add: unat_word_ariths)
qed

lemma unat_bump_down: "0 < unat (w :: u32) \<Longrightarrow> unat (word_of_int (max (uint w + - 1) 0) :: u32) + 1 = unat w"
proof -
  assume a: "0 < unat w"
  then have pos: "1 \<le> w" by (simp add: word_le_nat_alt)
  then have "max (uint w + - 1) 0 = uint w - 1" by (simp add: word_le_def)
  then have "word_of_int (max (uint w + - 1) 0) = w - 1" by simp
  then show ?thesis using a pos by (simp add: unat_sub)
qed

definition counted :: "(selector \<Rightarrow> u32) \<Rightarrow> (address \<times> selector) set \<Rightarrow> (role \<times> selector) set \<Rightarrow> bool" where
  "counted u G P \<longleftrightarrow> finite G \<and> finite P \<and> (\<forall>p. unat (u p) = refs G p + refs P p)"

lemma counted_up:
  assumes "counted u G P" and "card G + card P + 1 < 2 ^ 32"
  shows "(a, x) \<notin> G \<Longrightarrow> counted (bumped x 1 u) (insert (a, x) G) P"
    and "(r, x) \<notin> P \<Longrightarrow> counted (bumped x 1 u) G (insert (r, x) P)"
proof -
  have fin: "finite G" "finite P" and u: "\<And>p. unat (u p) = refs G p + refs P p"
    using assms(1) by (auto simp: counted_def)
  have small: "unat (u p) + 1 < 2 ^ 32" for p
    using refs_le [OF fin(1), of p] refs_le [OF fin(2), of p] assms(2) u [of p] by linarith
  have "unat (bumped x 1 u p) = unat (u p) + (if ns x = Some p then 1 else 0)" for p
    using unat_bump_up [OF small [of p]] by (simp add: bumped_def)
  then show "(a, x) \<notin> G \<Longrightarrow> counted (bumped x 1 u) (insert (a, x) G) P"
    and "(r, x) \<notin> P \<Longrightarrow> counted (bumped x 1 u) G (insert (r, x) P)"
    using fin u by (simp_all add: counted_def refs_insert)
qed

lemma counted_down:
  assumes "counted u G P"
  shows "(a, x) \<in> G \<Longrightarrow> counted (bumped x (- 1) u) (G - {(a, x)}) P"
    and "(r, x) \<in> P \<Longrightarrow> counted (bumped x (- 1) u) G (P - {(r, x)})"
proof -
  have fin: "finite G" "finite P" and u: "\<And>p. unat (u p) = refs G p + refs P p"
    using assms(1) by (auto simp: counted_def)
  have d: "unat (bumped x (- 1) u p) = n" if "unat (u p) = n + (if ns x = Some p then 1 else 0)" for p n
  proof (cases "ns x = Some p")
    case True
    then show ?thesis using that unat_bump_down [of "u p"] by (simp add: bumped_def)
  qed (use that in \<open>simp add: bumped_def\<close>)
  show "counted (bumped x (- 1) u) (G - {(a, x)}) P" if "(a, x) \<in> G"
    unfolding counted_def using fin d u refs_remove [OF fin(1) that] by simp
  show "counted (bumped x (- 1) u) G (P - {(r, x)})" if "(r, x) \<in> P"
    unfolding counted_def using fin d u refs_remove [OF fin(2) that] by simp
qed

lemma use_bumped: "wildcard_use (track_wildcard_use x d s) = bumped x d (wildcard_use s)"
  by (simp add: fun_eq_iff bumped_def use_track)

section \<open>The invariant\<close>

definition acl_size :: "acl \<Rightarrow> nat" where
  "acl_size s = card (dom (grant_flag s)) + card (dom (perm_flag s))"

definition acl_indexes :: "acl \<Rightarrow> bool" where
  "acl_indexes s \<longleftrightarrow> indexed (dom (grant_flag s)) (grants_index s) \<and> indexed (dom (perm_flag s)) (perms_index s)
     \<and> indexed (dom (member_flag s)) (members_index s) \<and> indexed ((dom (member_flag s))\<inverse>) (roles_index s)"

definition acl_wild :: "acl \<Rightarrow> bool" where
  "acl_wild s \<longleftrightarrow> distinct (wildcard_prefixes s)
     \<and> (\<forall>q\<in>set (wildcard_prefixes s). classify (pattern q) = Ok (Namespace q))
     \<and> stored_ok (set (wildcard_prefixes s)) (snd ` dom (grant_flag s))
     \<and> stored_ok (set (wildcard_prefixes s)) (snd ` dom (perm_flag s))"

definition acl_counts :: "acl \<Rightarrow> bool" where
  "acl_counts s \<longleftrightarrow> counted (wildcard_use s) (dom (grant_flag s)) (dom (perm_flag s))"

definition acl_roles :: "acl \<Rightarrow> bool" where
  "acl_roles s \<longleftrightarrow> distinct (acl_list_roles s) \<and> set (acl_list_roles s) = dom (role_admins s)
     \<and> fst ` dom (perm_flag s) \<subseteq> dom (role_admins s) \<and> fst ` dom (member_flag s) \<subseteq> dom (role_admins s)"

definition acl_inv :: "acl \<Rightarrow> bool" where
  "acl_inv s \<longleftrightarrow> acl_indexes s \<and> acl_wild s \<and> acl_counts s \<and> acl_roles s"

lemmas acl_inv_defs = acl_inv_def acl_indexes_def acl_wild_def acl_counts_def acl_roles_def

lemma dom_upd: "dom (m(k \<mapsto> v)) = insert k (dom m)" "dom (m(k := None)) = dom m - {k}"
  by auto

lemma track_abs [simp]: "acl_abs (track_wildcard_use x d s) = acl_abs s"
  by (simp add: acl_abs_def is_locked_def wildcard_prefixes_def)

lemma grantable_ok:
  assumes "validate_grantable s x = Ok k"
  shows "sel_ok (set (wildcard_prefixes s)) x"
proof -
  obtain k' where k: "classify x = Ok k'" and
    "(case k' of Namespace q \<Rightarrow> if q \<notin> set (wildcard_prefixes s) then Err UnregisteredWildcard else Ok k' | _ \<Rightarrow> Ok k') = Ok k"
    using assms by (auto simp: validate_grantable_def)
  then show ?thesis by (cases k') (auto simp: sel_ok_def ok_iff)
qed

lemma stored_ok_insert [simp]: "stored_ok W (insert x S) \<longleftrightarrow> sel_ok W x \<and> stored_ok W S"
  by (simp add: stored_ok_def)

lemma stored_ok_mono: "stored_ok W S \<Longrightarrow> T \<subseteq> S \<Longrightarrow> W \<subseteq> V \<Longrightarrow> stored_ok V T"
  by (fastforce simp: stored_ok_def sel_ok_def)


section \<open>The primitives\<close>

lemma wildcard_use_frame [simp]:
  "wildcard_use (grant_flag_update f s) = wildcard_use s" "wildcard_use (grants_index_update g s) = wildcard_use s"
  "wildcard_use (perm_flag_update h s) = wildcard_use s" "wildcard_use (perms_index_update i s) = wildcard_use s"
  by (simp_all add: fun_eq_iff wildcard_use_def)

lemma wildcard_prefixes_frame [simp]:
  "wildcard_prefixes (grant_flag_update f s) = wildcard_prefixes s"
  "wildcard_prefixes (grants_index_update g s) = wildcard_prefixes s"
  "wildcard_prefixes (perm_flag_update h s) = wildcard_prefixes s"
  "wildcard_prefixes (perms_index_update i s) = wildcard_prefixes s"
  "wildcard_prefixes (track_wildcard_use x d s) = wildcard_prefixes s"
  by (simp_all add: wildcard_prefixes_def)

lemma acl_list_roles_frame [simp]:
  "acl_list_roles (grant_flag_update f s) = acl_list_roles s"
  "acl_list_roles (grants_index_update g s) = acl_list_roles s"
  "acl_list_roles (perm_flag_update h s) = acl_list_roles s"
  "acl_list_roles (perms_index_update i s) = acl_list_roles s"
  "acl_list_roles (track_wildcard_use x d s) = acl_list_roles s"
  by (simp_all add: acl_list_roles_def)

text \<open>Storing or dropping selectors leaves members, roles and the registry alone.\<close>

definition same_rest :: "acl \<Rightarrow> acl \<Rightarrow> bool" where
  "same_rest s s' \<longleftrightarrow> acl_admin_slot s' = acl_admin_slot s \<and> lockdown s' = lockdown s
     \<and> member_flag s' = member_flag s \<and> members_index s' = members_index s \<and> roles_index s' = roles_index s
     \<and> role_admins s' = role_admins s \<and> role_list s' = role_list s \<and> wildcards s' = wildcards s"

lemma acl_inv_stored:
  assumes "acl_inv s" and "same_rest s s'" and "dom (grant_flag s') = G" "dom (perm_flag s') = P"
    and "indexed G (grants_index s')" "indexed P (perms_index s')" "counted (wildcard_use s') G P"
    and "stored_ok (set (wildcard_prefixes s)) (snd ` G)" "stored_ok (set (wildcard_prefixes s)) (snd ` P)"
    and "fst ` P \<subseteq> dom (role_admins s)"
  shows "acl_inv s' \<and> acl_abs s' = (acl_abs s)\<lparr>held := G, perms := P\<rparr>"
  using assms
  by (simp add: acl_inv_defs acl_abs_def same_rest_def wildcard_prefixes_def acl_list_roles_def is_locked_def)

lemma acl_inv_parts:
  assumes "acl_inv s"
  shows "indexed (dom (grant_flag s)) (grants_index s)" "indexed (dom (perm_flag s)) (perms_index s)"
    "counted (wildcard_use s) (dom (grant_flag s)) (dom (perm_flag s))"
    "stored_ok (set (wildcard_prefixes s)) (snd ` dom (grant_flag s))"
    "stored_ok (set (wildcard_prefixes s)) (snd ` dom (perm_flag s))"
    "fst ` dom (perm_flag s) \<subseteq> dom (role_admins s)" "finite (dom (grant_flag s))" "finite (dom (perm_flag s))"
  using assms by (auto simp: acl_inv_defs counted_def)

lemma stored_ok_Diff: "stored_ok W (snd ` S) \<Longrightarrow> stored_ok W (snd ` (S - T))"
  by (rule stored_ok_mono) auto

lemma apply_grant_ok:
  assumes "apply_grant t x s = Ok (b, s')" and "acl_inv s" and "acl_size s' < 2 ^ 32"
  shows "acl_inv s' \<and> acl_abs s' = (acl_abs s)\<lparr>held := insert (t, x) (held (acl_abs s))\<rparr> \<and> acl_size s \<le> acl_size s'"
proof (cases "grant_flag s (t, x)")
  case None
  then obtain k where k: "validate_grantable s x = Ok k" and s': "s' = track_wildcard_use x 1
      (s\<lparr>grant_flag := (grant_flag s)((t, x) \<mapsto> True),
         grants_index := write_list t (read_list (grants_index s) t @ [x]) (grants_index s)\<rparr>)"
    using assms(1) by (auto simp: apply_grant_def Let_def ok_iff)
  note i = acl_inv_parts [OF assms(2)]
  have new: "(t, x) \<notin> dom (grant_flag s)" using None by (simp add: domIff)
  have dom: "dom (grant_flag s') = insert (t, x) (dom (grant_flag s))" "dom (perm_flag s') = dom (perm_flag s)"
    by (auto simp: s')
  have size: "acl_size s' = acl_size s + 1" unfolding acl_size_def dom using new i(7) by simp
  have "acl_inv s' \<and> acl_abs s' = (acl_abs s)\<lparr>held := insert (t, x) (dom (grant_flag s)), perms := dom (perm_flag s)\<rparr>"
    using i new size assms(3) grantable_ok [OF k]
    by (intro acl_inv_stored [OF assms(2) _ dom])
      (simp_all add: s' same_rest_def indexed_insert use_bumped counted_up(1) acl_size_def)
  then show ?thesis using size by (simp add: acl_abs_def)
next
  case (Some v)
  then have "s' = s" "(t, x) \<in> dom (grant_flag s)" using assms(1) by (auto simp: apply_grant_def)
  then show ?thesis using assms(2) by (simp add: acl_abs_def insert_absorb)
qed

lemma apply_role_permission_ok:
  assumes "apply_role_permission r x s = Ok (b, s')" and "acl_inv s" and "acl_size s' < 2 ^ 32" and "role_exists s r"
  shows "acl_inv s' \<and> acl_abs s' = (acl_abs s)\<lparr>perms := insert (r, x) (perms (acl_abs s))\<rparr> \<and> acl_size s \<le> acl_size s'"
proof (cases "perm_flag s (r, x)")
  case None
  then obtain k where k: "validate_grantable s x = Ok k" and s': "s' = track_wildcard_use x 1
      (s\<lparr>perm_flag := (perm_flag s)((r, x) \<mapsto> True),
         perms_index := write_list r (read_list (perms_index s) r @ [x]) (perms_index s)\<rparr>)"
    using assms(1) by (auto simp: apply_role_permission_def Let_def ok_iff)
  note i = acl_inv_parts [OF assms(2)]
  have new: "(r, x) \<notin> dom (perm_flag s)" using None by (simp add: domIff)
  have dom: "dom (grant_flag s') = dom (grant_flag s)" "dom (perm_flag s') = insert (r, x) (dom (perm_flag s))"
    by (auto simp: s')
  have size: "acl_size s' = acl_size s + 1" unfolding acl_size_def dom using new i(8) by simp
  have "r \<in> dom (role_admins s)" using assms(4) by (simp add: role_exists_def domIff)
  then have "acl_inv s' \<and> acl_abs s' = (acl_abs s)\<lparr>held := dom (grant_flag s), perms := insert (r, x) (dom (perm_flag s))\<rparr>"
    using i new size assms(3) grantable_ok [OF k]
    by (intro acl_inv_stored [OF assms(2) _ dom])
      (simp_all add: s' same_rest_def indexed_insert use_bumped counted_up(2) acl_size_def)
  then show ?thesis using size by (simp add: acl_abs_def)
next
  case (Some v)
  then have "s' = s" "(r, x) \<in> dom (perm_flag s)" using assms(1) by (auto simp: apply_role_permission_def)
  then show ?thesis using assms(2) by (simp add: acl_abs_def insert_absorb)
qed

lemma apply_revoke_ok:
  assumes "acl_inv s"
  shows "acl_inv (snd (apply_revoke t x s))
    \<and> acl_abs (snd (apply_revoke t x s)) = (acl_abs s)\<lparr>held := held (acl_abs s) - {(t, x)}\<rparr>"
proof (cases "grant_flag s (t, x)")
  case None
  then have "(t, x) \<notin> dom (grant_flag s)" by (simp add: domIff)
  then show ?thesis using assms None by (simp add: apply_revoke_def acl_abs_def)
next
  case (Some v)
  let ?s = "snd (apply_revoke t x s)"
  note i = acl_inv_parts [OF assms]
  have old: "(t, x) \<in> dom (grant_flag s)" using Some by blast
  have dom: "dom (grant_flag ?s) = dom (grant_flag s) - {(t, x)}" "dom (perm_flag ?s) = dom (perm_flag s)"
    using Some by (auto simp: apply_revoke_def)
  have "acl_inv ?s \<and> acl_abs ?s = (acl_abs s)\<lparr>held := dom (grant_flag s) - {(t, x)}, perms := dom (perm_flag s)\<rparr>"
    using i old Some
    by (intro acl_inv_stored [OF assms _ dom])
      (simp_all add: apply_revoke_def same_rest_def indexed_remove use_bumped counted_down(1) stored_ok_Diff)
  then show ?thesis by (simp add: acl_abs_def)
qed

lemma apply_role_revoke_ok:
  assumes "acl_inv s"
  shows "acl_inv (snd (apply_role_revoke r x s))
    \<and> acl_abs (snd (apply_role_revoke r x s)) = (acl_abs s)\<lparr>perms := perms (acl_abs s) - {(r, x)}\<rparr>"
proof (cases "perm_flag s (r, x)")
  case None
  then have "(r, x) \<notin> dom (perm_flag s)" by (simp add: domIff)
  then show ?thesis using assms None by (simp add: apply_role_revoke_def acl_abs_def)
next
  case (Some v)
  let ?s = "snd (apply_role_revoke r x s)"
  note i = acl_inv_parts [OF assms]
  have old: "(r, x) \<in> dom (perm_flag s)" using Some by blast
  have dom: "dom (grant_flag ?s) = dom (grant_flag s)" "dom (perm_flag ?s) = dom (perm_flag s) - {(r, x)}"
    using Some by (auto simp: apply_role_revoke_def)
  have "fst ` (dom (perm_flag s) - {(r, x)}) \<subseteq> dom (role_admins s)" using i(6) by blast
  then have "acl_inv ?s \<and> acl_abs ?s = (acl_abs s)\<lparr>held := dom (grant_flag s), perms := dom (perm_flag s) - {(r, x)}\<rparr>"
    using i old Some
    by (intro acl_inv_stored [OF assms _ dom])
      (simp_all add: apply_role_revoke_def same_rest_def indexed_remove use_bumped counted_down(2) stored_ok_Diff)
  then show ?thesis by (simp add: acl_abs_def)
qed

text \<open>Attaching and detaching members.\<close>

lemma acl_inv_members:
  assumes "acl_inv s" and "s' = s\<lparr>member_flag := f, members_index := m, roles_index := n\<rparr>" and "dom f = M"
    and "indexed M m" "indexed (M\<inverse>) n" and "fst ` M \<subseteq> dom (role_admins s)"
  shows "acl_inv s' \<and> acl_abs s' = (acl_abs s)\<lparr>memb := M\<rparr>"
proof -
  have "wildcard_use s' = wildcard_use s" by (simp add: fun_eq_iff wildcard_use_def assms(2))
  then show ?thesis using assms
    by (simp add: acl_inv_defs acl_abs_def wildcard_prefixes_def acl_list_roles_def is_locked_def)
qed

lemma acl_inv_member_parts:
  assumes "acl_inv s"
  shows "indexed (dom (member_flag s)) (members_index s)" "indexed ((dom (member_flag s))\<inverse>) (roles_index s)"
    "fst ` dom (member_flag s) \<subseteq> dom (role_admins s)"
  using assms by (auto simp: acl_inv_defs)

lemma converse_insert: "(insert (a, b) R)\<inverse> = insert (b, a) (R\<inverse>)" "(R - {(a, b)})\<inverse> = R\<inverse> - {(b, a)}"
  by auto

lemma apply_role_member_ok:
  assumes "apply_role_member r m s = Ok (b, s')" and "acl_inv s" and "role_exists s r"
  shows "acl_inv s' \<and> acl_abs s' = (acl_abs s)\<lparr>memb := insert (r, m) (memb (acl_abs s))\<rparr>"
proof (cases "member_flag s (r, m)")
  case None
  then have s': "s' = s\<lparr>member_flag := (member_flag s)((r, m) \<mapsto> True),
      members_index := write_list r (read_list (members_index s) r @ [m]) (members_index s),
      roles_index := write_list m (read_list (roles_index s) m @ [r]) (roles_index s)\<rparr>"
    using assms(1) by (auto simp: apply_role_member_def Let_def ok_iff)
  note i = acl_inv_member_parts [OF assms(2)]
  have new: "(r, m) \<notin> dom (member_flag s)" "(m, r) \<notin> (dom (member_flag s))\<inverse>" using None by (auto simp: domIff)
  have "r \<in> dom (role_admins s)" using assms(3) by (simp add: role_exists_def domIff)
  then have "acl_inv s' \<and> acl_abs s' = (acl_abs s)\<lparr>memb := insert (r, m) (dom (member_flag s))\<rparr>"
    using i new by (intro acl_inv_members [OF assms(2) s']) (simp_all add: converse_insert indexed_insert)
  then show ?thesis by (simp add: acl_abs_def)
next
  case (Some v)
  then have "s' = s" "(r, m) \<in> dom (member_flag s)" using assms(1) by (auto simp: apply_role_member_def)
  then show ?thesis using assms(2) by (simp add: acl_abs_def insert_absorb)
qed

lemma apply_role_member_revoke_ok:
  assumes "acl_inv s"
  shows "acl_inv (snd (apply_role_member_revoke r m s))
    \<and> acl_abs (snd (apply_role_member_revoke r m s)) = (acl_abs s)\<lparr>memb := memb (acl_abs s) - {(r, m)}\<rparr>"
proof (cases "member_flag s (r, m)")
  case None
  then have "(r, m) \<notin> dom (member_flag s)" by (simp add: domIff)
  then show ?thesis using assms None by (simp add: apply_role_member_revoke_def acl_abs_def)
next
  case (Some v)
  let ?s = "snd (apply_role_member_revoke r m s)"
  have s': "?s = s\<lparr>member_flag := (member_flag s)((r, m) := None),
      members_index := write_list r (keep_except m (read_list (members_index s) r)) (members_index s),
      roles_index := write_list m (keep_except r (read_list (roles_index s) m)) (roles_index s)\<rparr>"
    using Some by (simp add: apply_role_member_revoke_def)
  note i = acl_inv_member_parts [OF assms]
  have "fst ` (dom (member_flag s) - {(r, m)}) \<subseteq> dom (role_admins s)" using i(3) by blast
  then have "acl_inv ?s \<and> acl_abs ?s = (acl_abs s)\<lparr>memb := dom (member_flag s) - {(r, m)}\<rparr>"
    using i by (intro acl_inv_members [OF assms s']) (simp_all add: converse_insert indexed_remove)
  then show ?thesis by (simp add: acl_abs_def)
qed

section \<open>The loops\<close>

text \<open>Grants and permissions only grow while a batch adds, so a bound on the result bounds every step.\<close>

definition grows :: "acl \<Rightarrow> acl \<Rightarrow> bool" where
  "grows s s' \<longleftrightarrow> dom (grant_flag s) \<subseteq> dom (grant_flag s') \<and> dom (perm_flag s) \<subseteq> dom (perm_flag s')
     \<and> (finite (dom (grant_flag s)) \<longrightarrow> finite (dom (grant_flag s')))
     \<and> (finite (dom (perm_flag s)) \<longrightarrow> finite (dom (perm_flag s'))) \<and> role_admins s' = role_admins s"

lemma grows_refl [simp]: "grows s s"
  by (simp add: grows_def)

lemma grows_trans: "grows s s1 \<Longrightarrow> grows s1 s2 \<Longrightarrow> grows s s2"
  by (simp add: grows_def) blast

lemma grows_size:
  assumes "acl_inv s" and "grows s s1" and "grows s1 s2"
  shows "acl_size s1 \<le> acl_size s2"
proof -
  have "finite (dom (grant_flag s2))" "finite (dom (perm_flag s2))"
    using assms acl_inv_parts(7,8) [OF assms(1)] by (simp_all add: grows_def)
  then show ?thesis using assms(3) by (auto simp: grows_def acl_size_def intro!: add_mono card_mono)
qed

lemma grows_exists: "grows s s' \<Longrightarrow> role_exists s r \<Longrightarrow> role_exists s' r"
  by (simp add: grows_def role_exists_def)

lemma apply_grows:
  "apply_grant t x s = Ok (b, s') \<Longrightarrow> grows s s'"
  "apply_role_permission r x s = Ok (b, s') \<Longrightarrow> grows s s'"
  "apply_role_member r m s = Ok (b, s') \<Longrightarrow> grows s s'"
  by (auto simp: apply_grant_def apply_role_permission_def apply_role_member_def Let_def ok_iff grows_def
      split: if_splits)

lemma grant_loop_grows: "grant_loop e es n s = Ok (k, s') \<Longrightarrow> grows s s'"
  by (induction es arbitrary: n s) (auto simp: ok_iff dest!: apply_grows, metis grows_trans)

lemma perms_loop_grows: "perms_loop r xs s = Ok s' \<Longrightarrow> grows s s'"
  by (induction xs arbitrary: s) (auto simp: ok_iff dest!: apply_grows, metis grows_trans)

lemma members_loop_grows: "members_loop r ms s = Ok s' \<Longrightarrow> grows s s'"
  by (induction ms arbitrary: s) (auto simp: ok_iff dest!: apply_grows, metis grows_trans)

lemma grant_loop_ok:
  assumes "grant_loop e es n s = Ok (k, s')" and "acl_inv s" and "acl_size s' < 2 ^ 32"
  shows "acl_inv s' \<and> acl_abs s' = (acl_abs s)\<lparr>held := held (acl_abs s) \<union> set es\<rparr>"
  using assms(1,2)
proof (induction es arbitrary: n s)
  case (Cons a es)
  obtain t x where a: "a = (t, x)" by (cases a)
  then obtain b s1 n1 where s1: "apply_grant t x s = Ok (b, s1)" and r: "grant_loop e es n1 s1 = Ok (k, s')"
    using Cons.prems(1) by (auto simp: ok_iff)
  have "acl_size s1 < 2 ^ 32"
    using grows_size [OF Cons.prems(2) apply_grows(1) [OF s1] grant_loop_grows [OF r]] assms(3) by linarith
  then show ?case using apply_grant_ok [OF s1 Cons.prems(2)] Cons.IH [OF r] by (simp add: a)
qed simp

lemma perms_loop_ok:
  assumes "perms_loop r xs s = Ok s'" and "acl_inv s" and "acl_size s' < 2 ^ 32" and "role_exists s r"
  shows "acl_inv s' \<and> acl_abs s' = (acl_abs s)\<lparr>perms := perms (acl_abs s) \<union> {r} \<times> set xs\<rparr>"
  using assms(1,2,4)
proof (induction xs arbitrary: s)
  case (Cons x xs)
  then obtain b s1 where s1: "apply_role_permission r x s = Ok (b, s1)" and r: "perms_loop r xs s1 = Ok s'"
    by (auto simp: ok_iff)
  note g = apply_grows(2) [OF s1]
  have "acl_size s1 < 2 ^ 32"
    using grows_size [OF Cons.prems(2) g perms_loop_grows [OF r]] assms(3) by linarith
  then show ?case
    using apply_role_permission_ok [OF s1 Cons.prems(2)] Cons.IH [OF r _ grows_exists [OF g Cons.prems(3)]] Cons.prems(3)
    by simp
qed simp

lemma members_loop_ok:
  assumes "members_loop r ms s = Ok s'" and "acl_inv s" and "role_exists s r"
  shows "acl_inv s' \<and> acl_abs s' = (acl_abs s)\<lparr>memb := memb (acl_abs s) \<union> {r} \<times> set ms\<rparr>"
  using assms
proof (induction ms arbitrary: s)
  case (Cons m ms)
  then obtain b s1 where s1: "apply_role_member r m s = Ok (b, s1)" and r: "members_loop r ms s1 = Ok s'"
    by (auto simp: ok_iff)
  show ?case
    using apply_role_member_ok [OF s1 Cons.prems(2,3)]
      Cons.IH [OF r _ grows_exists [OF apply_grows(3) [OF s1] Cons.prems(3)]] by simp
qed simp

lemma revoke_loop_ok:
  assumes "revoke_loop e es n s = Ok (k, s')" and "acl_inv s"
  shows "acl_inv s' \<and> acl_abs s' = (acl_abs s)\<lparr>held := held (acl_abs s) - set es\<rparr>"
  using assms
proof (induction es arbitrary: n s)
  case (Cons a es)
  obtain t x where a: "a = (t, x)" by (cases a)
  obtain n1 where r: "revoke_loop e es n1 (snd (apply_revoke t x s)) = Ok (k, s')"
    using Cons.prems(1) by (auto simp: a split_beta Let_def ok_iff)
  show ?case using apply_revoke_ok [OF Cons.prems(2), of t x] Cons.IH [OF r] by (simp add: a Diff_insert2 [symmetric])
qed simp

lemma leave_loop_ok:
  assumes "leave_loop e c rs n s = Ok (k, s')" and "acl_inv s"
  shows "acl_inv s' \<and> acl_abs s' = (acl_abs s)\<lparr>memb := memb (acl_abs s) - set rs \<times> {c}\<rparr>"
  using assms
proof (induction rs arbitrary: n s)
  case (Cons r rs)
  obtain n1 where r: "leave_loop e c rs n1 (snd (apply_role_member_revoke r c s)) = Ok (k, s')"
    using Cons.prems(1) by (auto simp: split_beta Let_def ok_iff)
  have "memb (acl_abs s) - {(r, c)} - set rs \<times> {c} = memb (acl_abs s) - set (r # rs) \<times> {c}" by auto
  then show ?case using apply_role_member_revoke_ok [OF Cons.prems(2), of r c] Cons.IH [OF r] by simp
qed simp

lemma drop_perms_ok:
  "acl_inv s \<Longrightarrow> acl_inv (drop_perms r P xs s) \<and> acl_abs (drop_perms r P xs s)
     = (acl_abs s)\<lparr>perms := perms (acl_abs s) - {r} \<times> {x \<in> set xs. P x}\<rparr>"
proof (induction xs arbitrary: s)
  case (Cons x xs)
  have "perms (acl_abs s) - {(r, x)} - {r} \<times> {x \<in> set xs. P x} = perms (acl_abs s) - {r} \<times> {y \<in> set (x # xs). P y}" if "P x"
    using that by auto
  moreover have "{y \<in> set (x # xs). P y} = {x \<in> set xs. P x}" if "\<not> P x" using that by auto
  ultimately show ?case
    using apply_role_revoke_ok [OF Cons.prems, of r x] Cons.IH Cons.prems by (cases "P x") simp_all
qed simp

lemma drop_members_ok:
  "acl_inv s \<Longrightarrow> acl_inv (drop_members r P ms s) \<and> acl_abs (drop_members r P ms s)
     = (acl_abs s)\<lparr>memb := memb (acl_abs s) - {r} \<times> {m \<in> set ms. P m}\<rparr>"
proof (induction ms arbitrary: s)
  case (Cons x xs)
  have "memb (acl_abs s) - {(r, x)} - {r} \<times> {x \<in> set xs. P x} = memb (acl_abs s) - {r} \<times> {y \<in> set (x # xs). P y}" if "P x"
    using that by auto
  moreover have "{y \<in> set (x # xs). P y} = {x \<in> set xs. P x}" if "\<not> P x" using that by auto
  ultimately show ?case
    using apply_role_member_revoke_ok [OF Cons.prems, of r x] Cons.IH Cons.prems by (cases "P x") simp_all
qed simp

section \<open>The entry points\<close>

lemma new_role_ok:
  assumes "acl_inv s" and "\<not> role_exists s r" and "s' = s\<lparr>role_admins := (role_admins s)(r \<mapsto> a),
    role_list := write_one (read_one (role_list s) @ [r])\<rparr>"
  shows "acl_inv s' \<and> acl_abs s' = (acl_abs s)\<lparr>admins := (admins (acl_abs s))(r \<mapsto> a)\<rparr>"
proof -
  have "r \<notin> dom (role_admins s)" "wildcard_use s' = wildcard_use s"
    using assms(2) by (simp_all add: role_exists_def domIff fun_eq_iff wildcard_use_def assms(3))
  then show ?thesis using assms(1)
    by (simp add: assms(3) acl_inv_defs acl_abs_def wildcard_prefixes_def acl_list_roles_def is_locked_def subset_insertI2)
qed

lemma provision_grows:
  assumes "provision_protocol_role a r m s = Ok s'"
  shows "grows (s\<lparr>role_admins := (role_admins s)(protocol_role_name r \<mapsto> a)\<rparr>) s'"
proof -
  let ?n = "protocol_role_name r"
  let ?s1 = "s\<lparr>role_admins := (role_admins s)(?n \<mapsto> a), role_list := write_one (read_one (role_list s) @ [?n])\<rparr>"
  obtain s2 b where "perms_loop ?n (protocol_role_permissions r) ?s1 = Ok s2" "apply_role_member ?n m s2 = Ok (b, s')"
    using assms by (auto simp: provision_protocol_role_def Let_def ok_iff)
  then have "grows ?s1 s'" using perms_loop_grows apply_grows(3) grows_trans by blast
  then show ?thesis by (simp add: grows_def)
qed

lemma provision_ok:
  assumes "provision_protocol_role a r m s = Ok s'" and "acl_inv s" and "acl_size s' < 2 ^ 32"
  shows "acl_inv s' \<and> acl_abs s' = (acl_abs s)\<lparr>admins := (admins (acl_abs s))(protocol_role_name r \<mapsto> a),
    perms := perms (acl_abs s) \<union> {protocol_role_name r} \<times> set (protocol_role_permissions r),
    memb := insert (protocol_role_name r, m) (memb (acl_abs s))\<rparr>"
proof -
  let ?n = "protocol_role_name r"
  let ?s1 = "s\<lparr>role_admins := (role_admins s)(?n \<mapsto> a), role_list := write_one (read_one (role_list s) @ [?n])\<rparr>"
  obtain s2 b where new: "\<not> role_exists s ?n" and s2: "perms_loop ?n (protocol_role_permissions r) ?s1 = Ok s2"
    and s': "apply_role_member ?n m s2 = Ok (b, s')"
    using assms(1) by (auto simp: provision_protocol_role_def Let_def ok_iff)
  have s1: "acl_inv ?s1" "acl_abs ?s1 = (acl_abs s)\<lparr>admins := (admins (acl_abs s))(?n \<mapsto> a)\<rparr>"
    using new_role_ok [OF assms(2) new refl] by auto
  have ex: "role_exists ?s1 ?n" by (simp add: role_exists_def)
  note g = perms_loop_grows [OF s2]
  have "acl_size s2 < 2 ^ 32" using grows_size [OF s1(1) g apply_grows(3) [OF s']] assms(3) by linarith
  from perms_loop_ok [OF s2 s1(1) this ex]
  have inv: "acl_inv s2" and abs: "acl_abs s2 = (acl_abs ?s1)\<lparr>perms := perms (acl_abs ?s1) \<union> {?n} \<times> set (protocol_role_permissions r)\<rparr>"
    by auto
  show ?thesis using apply_role_member_ok [OF s' inv grows_exists [OF g ex]] by (simp add: abs s1(2))
qed

definition acl_fin :: "acl \<Rightarrow> bool" where
  "acl_fin s \<longleftrightarrow> finite (dom (grant_flag s)) \<and> finite (dom (perm_flag s))"

lemma acl_inv_fin: "acl_inv s \<Longrightarrow> acl_fin s"
  using acl_inv_parts(7,8) by (simp add: acl_fin_def)

lemma provision_size:
  "provision_protocol_role a r m s = Ok s' \<Longrightarrow> acl_fin s \<Longrightarrow> acl_fin s' \<and> acl_size s \<le> acl_size s'"
  using provision_grows [of a r m s s']
  by (auto simp: grows_def acl_size_def acl_fin_def intro!: add_mono card_mono)

lemma setup_policy:
  fixes A :: rbac and a :: address
  defines "p \<equiv> \<lambda>r. {protocol_role_name r} \<times> set (protocol_role_permissions r)"
  shows "rbac_apply (SetupProtocolRoles a o1 o2 o3 o4 o5) A = A\<lparr>
      admins := (admins A)(protocol_role_name Owner \<mapsto> a, protocol_role_name Admin \<mapsto> a,
        protocol_role_name Strategist \<mapsto> a, protocol_role_name Keeper \<mapsto> a, protocol_role_name Emergency \<mapsto> a),
      perms := perms A \<union> p Owner \<union> p Admin \<union> p Strategist \<union> p Keeper \<union> p Emergency,
      memb := insert (protocol_role_name Emergency, o5) (insert (protocol_role_name Keeper, o4)
        (insert (protocol_role_name Strategist, o3) (insert (protocol_role_name Admin, o2)
          (insert (protocol_role_name Owner, o1) (memb A)))))\<rparr>"
proof -
  have all: "(\<exists>r. P r) \<longleftrightarrow> P Owner \<or> P Admin \<or> P Strategist \<or> P Keeper \<or> P Emergency" for P
    by (metis protocol_role.exhaust)
  have "{(protocol_role_name r, x) | r x. x \<in> set (protocol_role_permissions r)}
      = p Owner \<union> p Admin \<union> p Strategist \<union> p Keeper \<union> p Emergency"
    by (rule set_eqI, clarsimp simp: p_def all simp del: protocol_role_permissions.simps protocol_role_name.simps)
  moreover have "admins A ++ map_of (map (\<lambda>r. (protocol_role_name r, a)) protocol_roles) =
      (admins A)(protocol_role_name Owner \<mapsto> a, protocol_role_name Admin \<mapsto> a,
        protocol_role_name Strategist \<mapsto> a, protocol_role_name Keeper \<mapsto> a, protocol_role_name Emergency \<mapsto> a)"
    by (rule ext) (simp add: protocol_roles_def map_add_def)
  ultimately show ?thesis
    by (simp add: protocol_roles_def Un_assoc insert_commute)
qed

lemma setup_ok:
  assumes "acl_setup_protocol_roles e a o1 o2 o3 o4 o5 s = Ok s'" and "acl_inv s" and "acl_size s' < 2 ^ 32"
  shows "acl_inv s' \<and> acl_abs s' = rbac_apply (SetupProtocolRoles a o1 o2 o3 o4 o5) (acl_abs s)"
proof -
  obtain s1 s2 s3 s4 s5 where p1: "provision_protocol_role a Owner o1 s = Ok s1"
    and p2: "provision_protocol_role a Admin o2 s1 = Ok s2" and p3: "provision_protocol_role a Strategist o3 s2 = Ok s3"
    and p4: "provision_protocol_role a Keeper o4 s3 = Ok s4" and p5: "provision_protocol_role a Emergency o5 s4 = Ok s5"
    and s': "s' = s5\<lparr>protocol_configured := Some True\<rparr>"
    using assms(1) by (auto simp: acl_setup_protocol_roles_def ok_iff)
  have last: "acl_inv s' = acl_inv s5" "acl_abs s' = acl_abs s5" "acl_size s' = acl_size s5"
    by (simp_all add: s' acl_inv_defs acl_abs_def wildcard_prefixes_def acl_list_roles_def is_locked_def acl_size_def
        wildcard_use_def [abs_def])
  note f1 = provision_size [OF p1 acl_inv_fin [OF assms(2)]]
  note f2 = provision_size [OF p2 conjunct1 [OF f1]]
  note f3 = provision_size [OF p3 conjunct1 [OF f2]]
  note f4 = provision_size [OF p4 conjunct1 [OF f3]]
  note f5 = provision_size [OF p5 conjunct1 [OF f4]]
  have size: "acl_size s1 < 2 ^ 32" "acl_size s2 < 2 ^ 32" "acl_size s3 < 2 ^ 32" "acl_size s4 < 2 ^ 32" "acl_size s5 < 2 ^ 32"
    using assms(3) f2 f3 f4 f5 last(3) by linarith+
  note q1 = provision_ok [OF p1 assms(2) size(1)]
  note q2 = provision_ok [OF p2 conjunct1 [OF q1] size(2)]
  note q3 = provision_ok [OF p3 conjunct1 [OF q2] size(3)]
  note q4 = provision_ok [OF p4 conjunct1 [OF q3] size(4)]
  note q5 = provision_ok [OF p5 conjunct1 [OF q4] size(5)]
  let ?p = "\<lambda>r. {protocol_role_name r} \<times> set (protocol_role_permissions r)"
  have "acl_abs s5 = (acl_abs s)\<lparr>
      admins := (admins (acl_abs s))(protocol_role_name Owner \<mapsto> a, protocol_role_name Admin \<mapsto> a,
        protocol_role_name Strategist \<mapsto> a, protocol_role_name Keeper \<mapsto> a, protocol_role_name Emergency \<mapsto> a),
      perms := perms (acl_abs s) \<union> ?p Owner \<union> ?p Admin \<union> ?p Strategist \<union> ?p Keeper \<union> ?p Emergency,
      memb := insert (protocol_role_name Emergency, o5) (insert (protocol_role_name Keeper, o4)
        (insert (protocol_role_name Strategist, o3) (insert (protocol_role_name Admin, o2)
          (insert (protocol_role_name Owner, o1) (memb (acl_abs s))))))\<rparr>"
    using q1 q2 q3 q4 q5 by (simp del: protocol_role_permissions.simps protocol_role_name.simps)
  then show ?thesis unfolding last setup_policy using conjunct1 [OF q5] by blast
qed

lemma role_guard_exists: "role_guard e a r s = Ok () \<Longrightarrow> role_exists s r"
  by (auto simp: role_guard_def ok_iff)

lemma batch_set_members_ok:
  assumes "acl_batch_set_members e a r ms s = Ok (n, s')" and "acl_inv s"
  shows "acl_inv s' \<and> acl_abs s' = rbac_apply (BatchSetMembers a r ms) (acl_abs s)"
proof -
  let ?d = "drop_members r (\<lambda>m. m \<notin> set ms) (read_list (members_index s) r) s"
  have ex: "role_exists s r" and l: "members_loop r ms ?d = Ok s'"
    using assms(1) by (auto simp: acl_batch_set_members_def ok_iff dest: role_guard_exists)
  note d = drop_members_ok [OF assms(2), of r "\<lambda>m. m \<notin> set ms" "read_list (members_index s) r"]
  have "role_exists ?d r = role_exists s r"
    using arg_cong [OF conjunct2 [OF d], of admins] by (simp add: role_exists_def acl_abs_def)
  from members_loop_ok [OF l conjunct1 [OF d]] this ex
  have "acl_inv s' \<and> acl_abs s' = (acl_abs s)\<lparr>memb := (memb (acl_abs s)
      - {r} \<times> {m \<in> set (read_list (members_index s) r). m \<notin> set ms}) \<union> {r} \<times> set ms\<rparr>" using d by simp
  moreover have "(memb (acl_abs s) - {r} \<times> {m \<in> set (read_list (members_index s) r). m \<notin> set ms}) \<union> {r} \<times> set ms
      = (memb (acl_abs s) - {r} \<times> UNIV) \<union> {r} \<times> set ms"
    using indexed_mem [OF acl_inv_member_parts(1) [OF assms(2)]] by (auto simp: acl_abs_def)
  ultimately show ?thesis by simp
qed

lemma batch_set_permissions_ok:
  assumes "acl_batch_set_permissions e a r xs s = Ok (n, s')" and "acl_inv s" and "acl_size s' < 2 ^ 32"
  shows "acl_inv s' \<and> acl_abs s' = rbac_apply (BatchSetPermissions a r xs) (acl_abs s)"
proof -
  let ?d = "drop_perms r (\<lambda>x. x \<notin> set xs) (read_list (perms_index s) r) s"
  have ex: "role_exists s r" and l: "perms_loop r xs ?d = Ok s'"
    using assms(1) by (auto simp: acl_batch_set_permissions_def ok_iff dest: role_guard_exists)
  note d = drop_perms_ok [OF assms(2), of r "\<lambda>x. x \<notin> set xs" "read_list (perms_index s) r"]
  have "role_exists ?d r = role_exists s r"
    using arg_cong [OF conjunct2 [OF d], of admins] by (simp add: role_exists_def acl_abs_def)
  from perms_loop_ok [OF l conjunct1 [OF d] assms(3)] this ex
  have "acl_inv s' \<and> acl_abs s' = (acl_abs s)\<lparr>perms := (perms (acl_abs s)
      - {r} \<times> {x \<in> set (read_list (perms_index s) r). x \<notin> set xs}) \<union> {r} \<times> set xs\<rparr>" using d by simp
  moreover have "(perms (acl_abs s) - {r} \<times> {x \<in> set (read_list (perms_index s) r). x \<notin> set xs}) \<union> {r} \<times> set xs
      = (perms (acl_abs s) - {r} \<times> UNIV) \<union> {r} \<times> set xs"
    using indexed_mem [OF acl_inv_parts(2) [OF assms(2)]] by (auto simp: acl_abs_def)
  ultimately show ?thesis by simp
qed

lemma renounce_all_ok:
  assumes "acl_renounce_all e a s = Ok (n, s')" and "acl_inv s"
  shows "acl_inv s' \<and> acl_abs s' = rbac_apply (RenounceAll a) (acl_abs s)"
proof -
  obtain k s1 where l: "revoke_loop e (map (Pair a) (read_list (grants_index s) a)) 0 s = Ok (k, s1)"
    and m: "leave_loop e a (read_list (roles_index s1) a) k s1 = Ok (n, s')"
    using assms(1) by (auto simp: acl_renounce_all_def ok_iff)
  note s1 = revoke_loop_ok [OF l assms(2)]
  note s2 = leave_loop_ok [OF m conjunct1 [OF s1]]
  have "held (acl_abs s) - set (map (Pair a) (read_list (grants_index s) a)) = held (acl_abs s) - {a} \<times> UNIV"
    using indexed_mem [OF acl_inv_parts(1) [OF assms(2)]] by (auto simp: acl_abs_def)
  moreover have "memb (acl_abs s1) - set (read_list (roles_index s1) a) \<times> {a} = memb (acl_abs s1) - UNIV \<times> {a}"
    using indexed_mem [OF acl_inv_member_parts(2) [OF conjunct1 [OF s1]]] by (auto simp: acl_abs_def)
  ultimately show ?thesis using s1 s2 by simp
qed

lemma destroy_ok:
  assumes "acl_destroy_role e a r s = Ok (n, s')" and "acl_inv s"
  shows "acl_inv s' \<and> acl_abs s' = rbac_apply (DestroyRole a r) (acl_abs s)"
proof -
  let ?d = "drop_perms r (\<lambda>_. True) (read_list (perms_index s) r) s"
  let ?m = "drop_members r (\<lambda>_. True) (read_list (members_index s) r) ?d"
  have s': "s' = ?m\<lparr>role_admins := (role_admins ?m)(r := None),
      role_list := write_one (keep_except r (read_one (role_list ?m)))\<rparr>"
    using assms(1) by (auto simp: acl_destroy_role_def Let_def ok_iff)
  note d = drop_perms_ok [OF assms(2), of r "\<lambda>_. True" "read_list (perms_index s) r"]
  note m = drop_members_ok [OF conjunct1 [OF d], of r "\<lambda>_. True" "read_list (members_index s) r"]
  have gone: "perms (acl_abs s) - {r} \<times> set (read_list (perms_index s) r) = perms (acl_abs s) - {r} \<times> UNIV"
    "memb (acl_abs s) - {r} \<times> set (read_list (members_index s) r) = memb (acl_abs s) - {r} \<times> UNIV"
    using indexed_mem [OF acl_inv_parts(2) [OF assms(2)]] indexed_mem [OF acl_inv_member_parts(1) [OF assms(2)]]
    by (auto simp: acl_abs_def)
  have abs: "acl_abs ?m = (acl_abs s)\<lparr>perms := perms (acl_abs s) - {r} \<times> UNIV, memb := memb (acl_abs s) - {r} \<times> UNIV\<rparr>"
    using d m by (simp add: gone)
  have "r \<notin> fst ` dom (perm_flag ?m)" "r \<notin> fst ` dom (member_flag ?m)"
    using arg_cong [OF abs, of perms] arg_cong [OF abs, of memb] by (auto simp: acl_abs_def)
  moreover have "wildcard_use s' = wildcard_use ?m" by (simp add: s' fun_eq_iff wildcard_use_def)
  ultimately have "acl_inv s'" using conjunct1 [OF m]
    by (simp add: acl_inv_defs s' wildcard_prefixes_def acl_list_roles_def) blast
  moreover have "acl_abs s' = (acl_abs ?m)\<lparr>admins := (admins (acl_abs ?m))(r := None)\<rparr>"
    by (simp add: acl_abs_def s' wildcard_prefixes_def is_locked_def)
  ultimately show ?thesis by (simp add: abs)
qed

lemma namespace_of_ok: "namespace_of p = Ok q \<longleftrightarrow> classify p = Ok (Namespace q)"
  by (cases "classify p") (auto simp: namespace_of_def split: selector_kind.splits)

lemma set_wildcards_ok:
  assumes "acl_inv s" and "s' = s\<lparr>wildcards := write_one ws\<rparr>" and "distinct ws"
    and "\<forall>q\<in>set ws. classify (pattern q) = Ok (Namespace q)"
    and "stored_ok (set ws) (snd ` dom (grant_flag s))" "stored_ok (set ws) (snd ` dom (perm_flag s))"
  shows "acl_inv s' \<and> acl_abs s' = (acl_abs s)\<lparr>wild := set ws\<rparr>"
proof -
  have "wildcard_use s' = wildcard_use s" by (simp add: assms(2) fun_eq_iff wildcard_use_def)
  then show ?thesis using assms
    by (simp add: acl_inv_defs acl_abs_def wildcard_prefixes_def acl_list_roles_def is_locked_def)
qed

lemma register_ok:
  assumes "acl_register_wildcard e a p s = Ok (b, s')" and "acl_inv s"
  shows "acl_inv s' \<and> acl_abs s' = rbac_apply (RegisterWildcard a p) (acl_abs s)"
proof -
  obtain q where q: "classify p = Ok (Namespace q)" and r: "q \<in> set (wildcard_prefixes s) \<and> s' = s \<or>
      q \<notin> set (wildcard_prefixes s) \<and> s' = s\<lparr>wildcards := write_one (wildcard_prefixes s @ [q])\<rparr>"
    using assms(1) by (auto simp: acl_register_wildcard_def ok_iff namespace_of_ok Let_def split: if_splits)
  have p: "p = pattern q" "butlast p = q" using q by (auto simp: classify_namespace pattern_def)
  have w: "distinct (wildcard_prefixes s)" "\<forall>q\<in>set (wildcard_prefixes s). classify (pattern q) = Ok (Namespace q)"
    using assms(2) by (simp_all add: acl_inv_defs)
  from r show ?thesis
  proof (elim disjE conjE)
    assume "q \<in> set (wildcard_prefixes s)" "s' = s"
    then show ?thesis using assms(2) by (simp add: p(2) acl_abs_def insert_absorb)
  next
    assume n: "q \<notin> set (wildcard_prefixes s)" and s': "s' = s\<lparr>wildcards := write_one (wildcard_prefixes s @ [q])\<rparr>"
    have "acl_inv s' \<and> acl_abs s' = (acl_abs s)\<lparr>wild := set (wildcard_prefixes s @ [q])\<rparr>"
      using n w q p(1) acl_inv_parts(4,5) [OF assms(2)]
      by (intro set_wildcards_ok [OF assms(2) s']) (auto elim: stored_ok_mono)
    then show ?thesis by (simp add: p(2) acl_abs_def)
  qed
qed

lemma unused_stored_ok:
  assumes "refs R q = 0" and "finite R" and "stored_ok W (snd ` R)"
  shows "stored_ok (W - {q}) (snd ` R)"
proof -
  have "{k \<in> R. ns (snd k) = Some q} = {}" using assms(1,2) by (simp add: refs_def)
  then have "classify (snd k) \<noteq> Ok (Namespace q)" if "k \<in> R" for k using that by (cases k) (auto simp: ns_Some)
  then show ?thesis using assms(3) by (fastforce simp: stored_ok_def sel_ok_def)
qed

lemma unregister_ok:
  assumes "acl_unregister_wildcard e a p s = Ok (b, s')" and "acl_inv s"
  shows "acl_inv s' \<and> acl_abs s' = rbac_apply (UnregisterWildcard a p) (acl_abs s)"
proof -
  obtain q where q: "classify p = Ok (Namespace q)" and u: "wildcard_use s q = 0"
    and s': "s' = s\<lparr>wildcards := write_one (keep_except q (wildcard_prefixes s))\<rparr>"
    using assms(1) by (auto simp: acl_unregister_wildcard_def ok_iff namespace_of_ok Let_def word_greater_zero_iff
        split: if_splits)
  note i = acl_inv_parts [OF assms(2)]
  have "refs (dom (grant_flag s)) q = 0" "refs (dom (perm_flag s)) q = 0"
    using i(3) u by (auto simp: counted_def dest: spec [of _ q])
  then have "stored_ok (set (keep_except q (wildcard_prefixes s))) (snd ` dom (grant_flag s))"
    "stored_ok (set (keep_except q (wildcard_prefixes s))) (snd ` dom (perm_flag s))"
    using i by (simp_all add: unused_stored_ok)
  moreover have "distinct (keep_except q (wildcard_prefixes s))"
    "\<forall>q\<in>set (keep_except q (wildcard_prefixes s)). classify (pattern q) = Ok (Namespace q)"
    using assms(2) by (simp_all add: acl_inv_defs)
  ultimately have "acl_inv s' \<and> acl_abs s' = (acl_abs s)\<lparr>wild := set (keep_except q (wildcard_prefixes s))\<rparr>"
    by (intro set_wildcards_ok [OF assms(2) s'])
  moreover have "butlast p = q" using q by (auto simp: classify_namespace pattern_def)
  ultimately show ?thesis by (simp add: acl_abs_def)
qed

lemma acl_inv_root [simp]:
  "acl_inv (s\<lparr>acl_admin_slot := x\<rparr>) = acl_inv s" "acl_inv (s\<lparr>acl_config_slot := c\<rparr>) = acl_inv s"
  "acl_inv (s\<lparr>lockdown := l\<rparr>) = acl_inv s"
  by (simp_all add: acl_inv_defs wildcard_prefixes_def acl_list_roles_def wildcard_use_def [abs_def])

lemma set_role_admin_ok:
  assumes "acl_inv s" and "role_exists s r"
  shows "acl_inv (s\<lparr>role_admins := (role_admins s)(r \<mapsto> a)\<rparr>)"
proof -
  have "r \<in> dom (role_admins s)" using assms(2) by (simp add: role_exists_def domIff)
  then show ?thesis using assms(1)
    by (simp add: acl_inv_defs wildcard_prefixes_def acl_list_roles_def wildcard_use_def [abs_def] insert_absorb)
qed

text \<open>Every accepted call keeps the invariant and is one step of the policy.\<close>

lemma acl_exec_ok:
  assumes "acl_exec e c s = Ok s'" and "acl_inv s" and "acl_size s' < 2 ^ 32"
  shows "acl_inv s' \<and> acl_abs s' = rbac_apply c (acl_abs s)"
proof (cases c)
  case (Initialize a f)
  then show ?thesis using assms by (auto simp: acl_initialize_def ok_iff acl_abs_def is_locked_def wildcard_prefixes_def)
next
  case (SetupProtocolRoles a o1 o2 o3 o4 o5)
  then show ?thesis using assms setup_ok by simp
next
  case (TransferAdmin a b)
  then show ?thesis using assms by (auto simp: acl_transfer_admin_def ok_iff acl_abs_def is_locked_def wildcard_prefixes_def)
next
  case (SetConfig a f)
  then show ?thesis using assms by (auto simp: acl_set_config_def ok_iff acl_abs_def is_locked_def wildcard_prefixes_def)
next
  case (SetLockdown a b)
  then show ?thesis using assms by (auto simp: acl_set_lockdown_def ok_iff acl_abs_def is_locked_def wildcard_prefixes_def)
next
  case (Grant a t x)
  then show ?thesis using assms apply_grant_ok by (fastforce simp: acl_drop_def acl_grant_def ok_iff)
next
  case (Revoke a t x)
  then show ?thesis using assms apply_revoke_ok [OF assms(2), of t x]
    by (auto simp: acl_drop_def acl_revoke_def ok_iff split_beta)
next
  case (BatchGrant a es)
  then show ?thesis using assms grant_loop_ok by (fastforce simp: acl_drop_def acl_batch_grant_def ok_iff)
next
  case (BatchRevoke a es)
  then show ?thesis using assms revoke_loop_ok by (fastforce simp: acl_drop_def acl_batch_revoke_def ok_iff)
next
  case (Renounce a x)
  then show ?thesis using assms apply_revoke_ok [OF assms(2), of a x]
    by (auto simp: acl_drop_def acl_renounce_def ok_iff split_beta)
next
  case (RenounceAll a)
  then show ?thesis using assms renounce_all_ok by (fastforce simp: acl_drop_def ok_iff)
next
  case (CreateRole a r b)
  then show ?thesis using assms new_role_ok by (fastforce simp: acl_create_role_def ok_iff Let_def)
next
  case (SetRoleAdmin a r b)
  then show ?thesis using assms set_role_admin_ok
    by (auto simp: acl_set_role_admin_def ok_iff acl_abs_def is_locked_def wildcard_prefixes_def)
next
  case (GrantRolePermission a r x)
  then show ?thesis using assms apply_role_permission_ok role_guard_exists
    by (fastforce simp: acl_drop_def acl_grant_role_permission_def ok_iff)
next
  case (RevokeRolePermission a r x)
  then show ?thesis using assms apply_role_revoke_ok [OF assms(2), of r x]
    by (auto simp: acl_drop_def acl_revoke_role_permission_def ok_iff split_beta)
next
  case (GrantRole a r m)
  then show ?thesis using assms apply_role_member_ok role_guard_exists
    by (fastforce simp: acl_drop_def acl_grant_role_def ok_iff)
next
  case (RevokeRole a r m)
  then show ?thesis using assms apply_role_member_revoke_ok [OF assms(2), of r m]
    by (auto simp: acl_drop_def acl_revoke_role_def ok_iff split_beta)
next
  case (RenounceRole a r)
  then show ?thesis using assms apply_role_member_revoke_ok [OF assms(2), of r a]
    by (auto simp: acl_drop_def acl_renounce_role_def ok_iff split_beta)
next
  case (DestroyRole a r)
  then show ?thesis using assms destroy_ok by (fastforce simp: acl_drop_def ok_iff)
next
  case (BatchSetMembers a r ms)
  then show ?thesis using assms batch_set_members_ok by (fastforce simp: acl_drop_def ok_iff)
next
  case (BatchSetPermissions a r xs)
  then show ?thesis using assms batch_set_permissions_ok by (fastforce simp: acl_drop_def ok_iff)
next
  case (RegisterWildcard a p)
  then show ?thesis using assms register_ok by (fastforce simp: acl_drop_def ok_iff)
next
  case (UnregisterWildcard a p)
  then show ?thesis using assms unregister_ok by (fastforce simp: acl_drop_def ok_iff)
qed

section \<open>The decision procedure\<close>

lemma direct_matches_iff:
  assumes "acl_inv s" and "classify sel = Ok k"
  shows "direct_matches s c sel \<longleftrightarrow> (\<exists>p. covers p sel \<and> (c, p) \<in> dom (grant_flag s))"
proof -
  have "stored_ok (set (wildcard_prefixes s)) {p. (c, p) \<in> dom (grant_flag s)}"
    by (rule stored_ok_mono [OF acl_inv_parts(4) [OF assms(1)]]) force+
  from probe_iff [OF this assms(2)] show ?thesis
    using assms(1) by (auto simp: direct_matches_def list_ex_iff acl_inv_defs domIff)
qed

lemma role_matches_iff:
  assumes "acl_inv s" and "classify sel = Ok k"
  shows "role_matches s r sel \<longleftrightarrow> (\<exists>p. covers p sel \<and> (r, p) \<in> dom (perm_flag s))"
proof -
  have "stored_ok (set (wildcard_prefixes s)) {p. (r, p) \<in> dom (perm_flag s)}"
    by (rule stored_ok_mono [OF acl_inv_parts(5) [OF assms(1)]]) force+
  from probe_iff [OF this assms(2)] show ?thesis
    using assms(1) by (auto simp: role_matches_def list_ex_iff acl_inv_defs domIff)
qed

lemma permits_iff:
  assumes "acl_inv s"
  shows "permits s c sel \<longleftrightarrow> rbac_allows (acl_abs s) c sel"
proof (cases "classify sel")
  case (Ok k)
  have "r \<in> set (read_list (roles_index s) c) \<longleftrightarrow> (r, c) \<in> memb (acl_abs s)" for r
    using indexed_mem [OF acl_inv_member_parts(2) [OF assms]] by (simp add: acl_abs_def)
  then show ?thesis using Ok
    by (simp add: permits_def rbac_allows_def list_ex_iff direct_matches_iff [OF assms Ok] role_matches_iff [OF assms Ok]
        is_root_def acl_abs_def) blast
qed (auto simp: permits_def rbac_allows_def is_root_def acl_abs_def)

section \<open>Histories\<close>

definition rbac_empty :: rbac where
  "rbac_empty = \<lparr>root = None, frozen = False, held = {}, perms = {}, memb = {}, admins = Map.empty, wild = {}\<rparr>"

text \<open>
  The calls accepted since the contract was deployed. Fewer than \<open>2 ^ 32\<close> selectors are stored at a
  time: the usage counters of the wildcards are \<open>u32\<close>.
\<close>

inductive acl_history :: "acl_call list \<Rightarrow> acl \<Rightarrow> bool" where
  deployed: "acl_history [] fresh_acl"
| accepted: "acl_history cs s \<Longrightarrow> acl_exec e c s = Ok s' \<Longrightarrow> acl_size s' < 2 ^ 32 \<Longrightarrow> acl_history (cs @ [c]) s'"

lemma fresh_acl_inv: "acl_inv fresh_acl" "acl_abs fresh_acl = rbac_empty"
  by (simp_all add: fresh_acl_def acl_inv_defs acl_abs_def rbac_empty_def indexed_def read_list_def wildcard_prefixes_def
      read_one_def is_locked_def stored_ok_def counted_def refs_def wildcard_use_def acl_list_roles_def)

lemma acl_history_inv: "acl_history cs s \<Longrightarrow> acl_inv s \<and> acl_abs s = fold rbac_apply cs rbac_empty"
proof (induction rule: acl_history.induct)
  case (accepted cs s e c s')
  then show ?case using acl_exec_ok [OF accepted.hyps(2) _ accepted.hyps(3)] by simp
qed (simp add: fresh_acl_inv)

section \<open>Authority\<close>

text \<open>Removing entries takes permissions away only.\<close>

lemma allows_shrink:
  "rbac_allows B c sel \<Longrightarrow> root B = root A \<Longrightarrow> held B \<subseteq> held A \<Longrightarrow> perms B \<subseteq> perms A \<Longrightarrow> memb B \<subseteq> memb A \<Longrightarrow>
     rbac_allows A c sel"
  unfolding rbac_allows_def by (metis subsetD)

lemma allows_role:
  assumes "rbac_allows B c sel" and "\<not> rbac_allows A c sel" and "root B = root A" and "held B = held A"
    and "\<And>q x. q \<noteq> r \<Longrightarrow> (q, x) \<in> perms B \<Longrightarrow> (q, x) \<in> perms A"
    and "\<And>q x. q \<noteq> r \<Longrightarrow> (q, x) \<in> memb B \<Longrightarrow> (q, x) \<in> memb A"
  shows "(r, c) \<in> memb B"
  using assms unfolding rbac_allows_def by metis

definition acts_as_root :: "env \<Rightarrow> acl \<Rightarrow> bool" where
  "acts_as_root e s = (case acl_admin_slot s of None \<Rightarrow> False | Some a \<Rightarrow> authorized e a)"

definition acts_as_role_admin :: "env \<Rightarrow> acl \<Rightarrow> role \<Rightarrow> bool" where
  "acts_as_role_admin e s r = (case role_admins s r of None \<Rightarrow> False | Some a \<Rightarrow> authorized e a)"

lemma require_root_acts [dest]: "require_root e a s = Ok () \<Longrightarrow> acts_as_root e s \<and> acl_admin_slot s = Some a"
  by (auto simp: require_root_def acts_as_root_def is_root_def ok_iff split: if_splits)

lemma require_writable_ok [simp]: "require_writable s = Ok () \<longleftrightarrow> \<not> is_locked s"
  by (simp add: require_writable_def)

lemma role_guard_acts [dest]:
  "role_guard e a r s = Ok () \<Longrightarrow> (acts_as_root e s \<or> acts_as_role_admin e s r) \<and> \<not> is_locked s"
  by (auto simp: role_guard_def require_role_admin_def acts_as_root_def acts_as_role_admin_def
      is_root_def ok_iff split: if_splits option.splits)

text \<open>The authority each call needs, and whether it is open in lockdown.\<close>

fun acl_authority :: "env \<Rightarrow> acl \<Rightarrow> acl_call \<Rightarrow> bool" where
  "acl_authority e s (Initialize a c) = (acl_admin_slot s = None \<and> authorized e a)"
| "acl_authority e s (TransferAdmin a b) = acts_as_root e s"
| "acl_authority e s (SetLockdown a b) = acts_as_root e s"
| "acl_authority e s (Renounce a x) = authorized e a"
| "acl_authority e s (RenounceAll a) = authorized e a"
| "acl_authority e s (RenounceRole a r) = authorized e a"
| "acl_authority e s (GrantRolePermission a r x) = ((acts_as_root e s \<or> acts_as_role_admin e s r) \<and> \<not> is_locked s)"
| "acl_authority e s (RevokeRolePermission a r x) = ((acts_as_root e s \<or> acts_as_role_admin e s r) \<and> \<not> is_locked s)"
| "acl_authority e s (GrantRole a r m) = ((acts_as_root e s \<or> acts_as_role_admin e s r) \<and> \<not> is_locked s)"
| "acl_authority e s (RevokeRole a r m) = ((acts_as_root e s \<or> acts_as_role_admin e s r) \<and> \<not> is_locked s)"
| "acl_authority e s (BatchSetMembers a r ms) = ((acts_as_root e s \<or> acts_as_role_admin e s r) \<and> \<not> is_locked s)"
| "acl_authority e s (BatchSetPermissions a r xs) = ((acts_as_root e s \<or> acts_as_role_admin e s r) \<and> \<not> is_locked s)"
| "acl_authority e s c = (acts_as_root e s \<and> \<not> is_locked s)"

lemma acl_exec_authority: "acl_exec e c s = Ok s' \<Longrightarrow> acl_authority e s c"
  by (cases c) (auto simp: ok_iff acl_drop_def acl_initialize_def acl_setup_protocol_roles_def acl_transfer_admin_def
      acl_set_config_def acl_set_lockdown_def acl_grant_def acl_revoke_def acl_batch_grant_def acl_batch_revoke_def
      acl_renounce_def acl_renounce_all_def acl_create_role_def acl_set_role_admin_def acl_grant_role_permission_def
      acl_revoke_role_permission_def acl_grant_role_def acl_revoke_role_def acl_renounce_role_def acl_destroy_role_def
      acl_batch_set_members_def acl_batch_set_permissions_def acl_register_wildcard_def acl_unregister_wildcard_def)

text \<open>Whose authority a new permission needs.\<close>

lemma escalation_cases:
  assumes "acl_authority e s c" and B: "B = rbac_apply c (acl_abs s)"
    and allows: "rbac_allows B who sel" "\<not> rbac_allows (acl_abs s) who sel"
  shows "(acl_admin_slot s = None \<and> root B = Some who \<and> authorized e who)
    \<or> (acts_as_root e s \<and> (is_locked s \<longrightarrow> root B = Some who))
    \<or> (\<exists>r. acts_as_role_admin e s r \<and> \<not> is_locked s \<and> (r, who) \<in> memb B)"
proof -
  have root: "root B = Some who" if "held B = held (acl_abs s)" "perms B = perms (acl_abs s)" "memb B = memb (acl_abs s)"
    using that allows by (auto simp: rbac_allows_def)
  have shrink: "False" if "root B = root (acl_abs s)" "held B \<subseteq> held (acl_abs s)"
    "perms B \<subseteq> perms (acl_abs s)" "memb B \<subseteq> memb (acl_abs s)"
    using allows_shrink [OF allows(1) that] allows(2) by blast
  show ?thesis using assms(1) B root shrink allows_role [OF allows]
    by (cases c) (auto simp: Diff_subset)
qed

section \<open>An example history\<close>

definition acl_env :: env where
  "acl_env = \<lparr>sequence = 100, timestamp = 1000, authorized = (\<lambda>a. a < 3), self = 50, overflow_checks = True\<rparr>"

definition acl_example :: "acl_call list" where
  "acl_example = [Initialize 1 default_config, RegisterWildcard 1 ''vault.*'', CreateRole 1 ''ops'' 2,
     GrantRolePermission 2 ''ops'' ''vault.*'']"

definition acl_example_state :: acl where
  "acl_example_state = fresh_acl\<lparr>acl_admin_slot := Some 1, acl_config_slot := Some default_config, lockdown := Some False,
     wildcards := Some [''vault.''], role_admins := [''ops'' \<mapsto> 2], role_list := Some [''ops''],
     perm_flag := [(''ops'', ''vault.*'') \<mapsto> True], perms_index := [''ops'' \<mapsto> [''vault.*'']],
     wildcard_counts := [''vault.'' \<mapsto> 1]\<rparr>"

lemma classify_vault: "classify ''vault.*'' = Ok (Namespace ''vault.'')"
  by (simp add: classify_namespace pattern_def STAR_def)

lemma acl_example_history: "acl_history acl_example acl_example_state"
proof -
  let ?s1 = "fresh_acl\<lparr>acl_admin_slot := Some 1, acl_config_slot := Some default_config, lockdown := Some False\<rparr>"
  let ?s2 = "?s1\<lparr>wildcards := Some [''vault.'']\<rparr>"
  let ?s3 = "?s2\<lparr>role_admins := [''ops'' \<mapsto> 2], role_list := Some [''ops'']\<rparr>"
  note defs = ok_iff fresh_acl_def default_config_def acl_env_def require_root_def is_root_def acl_drop_def
    acl_read_config_def wildcard_prefixes_def read_one_def write_one_def is_locked_def namespace_of_ok classify_vault
  have "acl_exec acl_env (Initialize 1 default_config) fresh_acl = Ok ?s1"
    by (simp add: acl_initialize_def defs)
  note s1 = accepted [OF deployed this]
  have "acl_exec acl_env (RegisterWildcard 1 ''vault.*'') ?s1 = Ok ?s2"
    by (simp add: acl_register_wildcard_def defs)
  note s2 = accepted [OF s1 this]
  have "acl_exec acl_env (CreateRole 1 ''ops'' 2) ?s2 = Ok ?s3"
    by (simp add: acl_create_role_def validate_role_def role_exists_def MAX_SELECTOR_LEN_def STAR_def Let_def defs)
  note s3 = accepted [OF s2 this]
  have "acl_exec acl_env (GrantRolePermission 2 ''ops'' ''vault.*'') ?s3 = Ok acl_example_state"
    by (simp add: acl_grant_role_permission_def role_guard_def require_role_admin_def role_exists_def
        apply_role_permission_def validate_grantable_def track_wildcard_use_def bump_wildcard_use_def wildcard_use_def
        read_list_def write_list_def acl_example_state_def Let_def defs)
  from accepted [OF s3 this] show ?thesis
    by (simp add: acl_size_def fresh_acl_def acl_example_def acl_example_state_def)
qed

text \<open>The role's administrator then adds a member.\<close>

definition acl_example_joined :: acl where
  "acl_example_joined = acl_example_state\<lparr>member_flag := [(''ops'', 3) \<mapsto> True], members_index := [''ops'' \<mapsto> [3]],
     roles_index := [3 \<mapsto> [''ops'']]\<rparr>"

lemma acl_example_joins: "acl_exec acl_env (GrantRole 2 ''ops'' 3) acl_example_state = Ok acl_example_joined"
  by (simp add: acl_grant_role_def role_guard_def require_role_admin_def role_exists_def apply_role_member_def
      read_list_def write_list_def acl_example_state_def acl_example_joined_def Let_def ok_iff fresh_acl_def
      default_config_def acl_env_def is_root_def acl_drop_def acl_read_config_def is_locked_def)

lemma acl_example_joined_size: "acl_size acl_example_joined < 2 ^ 32"
  by (simp add: acl_size_def fresh_acl_def acl_example_state_def acl_example_joined_def)

lemma acl_example_permits:
  "acl_has_permission acl_example_joined 3 ''vault.deposit''" "\<not> acl_has_permission acl_example_joined 3 ''fees.set''"
  "\<not> acl_has_permission acl_example_state 3 ''vault.deposit''"
  by code_simp+

lemma acl_example_joined_history: "acl_history (acl_example @ [GrantRole 2 ''ops'' 3]) acl_example_joined"
  by (rule accepted [OF acl_example_history acl_example_joins acl_example_joined_size])

section \<open>Properties\<close>

text \<open>
  C3. The contract implements the policy: after any accepted calls its state stands for the policy
  those calls define, and it permits a selector to a caller exactly when the policy allows it, that
  is, when the caller is root or some stored selector held by the caller or by a role of theirs
  covers the selector.
\<close>

theorem acl_refines_rbac:
  assumes "acl_history cs s"
  shows "acl_abs s = fold rbac_apply cs rbac_empty
    \<and> (acl_has_permission s who sel \<longleftrightarrow> rbac_allows (fold rbac_apply cs rbac_empty) who sel)"
  using acl_history_inv [OF assms] permits_iff by (simp add: acl_has_permission_def)

theorem acl_refines_rbac_witness:
  "acl_history (acl_example @ [GrantRole 2 ''ops'' 3]) acl_example_joined
    \<and> rbac_allows (fold rbac_apply (acl_example @ [GrantRole 2 ''ops'' 3]) rbac_empty) 3 ''vault.deposit''
    \<and> \<not> rbac_allows (fold rbac_apply (acl_example @ [GrantRole 2 ''ops'' 3]) rbac_empty) 3 ''fees.set''"
  using acl_example_joined_history acl_example_permits acl_refines_rbac [OF acl_example_joined_history] by blast

text \<open>
  C9. No permission appears without authority. When an accepted call makes a caller able to do what
  they could not do before, then it was the initialization, authorized by the new root itself; or
  root authorized it, and in lockdown only to hand root over to that caller; or the administrator of
  a role authorized it outside lockdown, and the caller is a member of that role.
\<close>

theorem acl_escalation_authorized:
  assumes "acl_history cs s" and "acl_exec e c s = Ok s'" and "acl_size s' < 2 ^ 32"
    and "acl_has_permission s' who sel" and "\<not> acl_has_permission s who sel"
  shows "(acl_admin_slot s = None \<and> acl_admin_slot s' = Some who \<and> authorized e who)
    \<or> (acts_as_root e s \<and> (is_locked s \<longrightarrow> acl_admin_slot s' = Some who))
    \<or> (\<exists>r. acts_as_role_admin e s r \<and> \<not> is_locked s \<and> acl_has_role s' who r)"
proof -
  have inv: "acl_inv s" using acl_history_inv [OF assms(1)] by simp
  from acl_exec_ok [OF assms(2) this assms(3)] have s': "acl_inv s'" "acl_abs s' = rbac_apply c (acl_abs s)" by auto
  have "rbac_allows (acl_abs s') who sel" "\<not> rbac_allows (acl_abs s) who sel"
    using assms(4,5) permits_iff [OF inv] permits_iff [OF s'(1)] by (simp_all add: acl_has_permission_def)
  from escalation_cases [OF acl_exec_authority [OF assms(2)] s'(2) this] show ?thesis
    by (auto simp: acl_abs_def acl_has_role_def domIff)
qed

theorem acl_escalation_authorized_witness:
  "acl_has_permission acl_example_joined 3 ''vault.deposit'' \<and> \<not> acl_has_permission acl_example_state 3 ''vault.deposit''
    \<and> acts_as_role_admin acl_env acl_example_state ''ops'' \<and> acl_has_role acl_example_joined 3 ''ops''
    \<and> (acts_as_root acl_env acl_example_state \<or> (\<exists>r. acl_has_role acl_example_joined 3 r))"
proof -
  have "acts_as_role_admin acl_env acl_example_state ''ops''" "acl_has_role acl_example_joined 3 ''ops''"
    "acl_admin_slot acl_example_state \<noteq> None" by code_simp+
  then show ?thesis
    using acl_escalation_authorized [OF acl_example_history acl_example_joins acl_example_joined_size acl_example_permits(1,3)]
      acl_example_permits by blast
qed

text \<open>
  C26. The views agree with the checks: the lists of a caller's grants and roles and of a role's
  members and permissions hold no duplicate and exactly what the membership tests accept, the role
  list holds exactly the existing roles, and only existing roles have members or permissions.
\<close>

theorem acl_views_exact:
  assumes "acl_history cs s"
  shows "distinct (acl_grants_of s a) \<and> (x \<in> set (acl_grants_of s a) \<longleftrightarrow> acl_is_granted s a x)
    \<and> distinct (acl_roles_of s a) \<and> (r \<in> set (acl_roles_of s a) \<longleftrightarrow> acl_has_role s a r)
    \<and> distinct (acl_members_of s r) \<and> (a \<in> set (acl_members_of s r) \<longleftrightarrow> acl_has_role s a r)
    \<and> distinct (acl_permissions_of s r) \<and> (x \<in> set (acl_permissions_of s r) \<longleftrightarrow> perm_flag s (r, x) \<noteq> None)
    \<and> distinct (acl_list_roles s) \<and> (r \<in> set (acl_list_roles s) \<longleftrightarrow> acl_role_exists s r)"
proof -
  have "acl_inv s" using acl_history_inv [OF assms] by simp
  then show ?thesis
    by (simp add: acl_inv_defs indexed_def acl_grants_of_def acl_is_granted_def acl_roles_of_def acl_has_role_def
        acl_members_of_def acl_permissions_of_def acl_role_exists_def role_exists_def domIff)
qed

theorem acl_views_exact_witness:
  "acl_history (acl_example @ [GrantRole 2 ''ops'' 3]) acl_example_joined \<and> acl_members_of acl_example_joined ''ops'' = [3]
    \<and> acl_has_role acl_example_joined 3 ''ops''"
proof -
  have "acl_members_of acl_example_joined ''ops'' = [3]" by code_simp
  then show ?thesis using acl_example_joined_history
      acl_views_exact [OF acl_example_joined_history, where a = 3 and r = "''ops''"] by simp
qed

text \<open>
  C27. Everything the contract stores is well formed: a granted or attached selector is an exact
  selector, the wildcard, or a pattern whose namespace is registered; a registered namespace is the
  prefix of a valid pattern and registered once; and a role with a member or a permission exists.
\<close>

theorem acl_state_well_formed:
  assumes "acl_history cs s"
  shows "(\<forall>a x r. acl_is_granted s a x \<or> x \<in> set (acl_permissions_of s r) \<longrightarrow>
        classify x = Ok Exact \<or> x = WILDCARD \<or> acl_is_wildcard_registered s x)
    \<and> distinct (acl_list_wildcards s) \<and> list_all (acl_is_wildcard_registered s) (acl_list_wildcards s)
    \<and> (\<forall>r. acl_permissions_of s r \<noteq> [] \<or> acl_members_of s r \<noteq> [] \<longrightarrow> acl_role_exists s r)"
proof -
  have inv: "acl_inv s" using acl_history_inv [OF assms] by simp
  note i = acl_inv_parts [OF inv] and m = acl_inv_member_parts [OF inv]
  have mem: "y \<in> set (acl_permissions_of s r) \<longleftrightarrow> (r, y) \<in> dom (perm_flag s)"
    "z \<in> set (acl_members_of s r) \<longleftrightarrow> (r, z) \<in> dom (member_flag s)" for r y z
    using i(2) m(1) by (simp_all only: acl_permissions_of_def acl_members_of_def indexed_mem)
  have "classify x = Ok Exact \<or> x = WILDCARD \<or> acl_is_wildcard_registered s x"
    if "acl_is_granted s a x \<or> x \<in> set (acl_permissions_of s r)" for a x r
  proof -
    have "x \<in> snd ` dom (grant_flag s) \<or> x \<in> snd ` dom (perm_flag s)"
      using that mem(1) by (auto simp: acl_is_granted_def domIff [symmetric] intro: rev_image_eqI)
    then have x: "sel_ok (set (wildcard_prefixes s)) x" using i(4,5) by (auto simp: stored_ok_def)
    then obtain k where "classify x = Ok k" by (auto simp: sel_ok_def is_ok_iff)
    then show ?thesis
      using x by (cases k) (auto simp: sel_ok_def classify_any acl_is_wildcard_registered_def)
  qed
  moreover have "distinct (acl_list_wildcards s) \<and> list_all (acl_is_wildcard_registered s) (acl_list_wildcards s)"
    using inv by (auto simp: acl_inv_defs acl_list_wildcards_def list_all_iff acl_is_wildcard_registered_def distinct_map inj_on_def)
  moreover have "acl_role_exists s r" if "y \<in> set (acl_permissions_of s r) \<or> z \<in> set (acl_members_of s r)" for y z r
  proof -
    have "r \<in> fst ` dom (perm_flag s) \<or> r \<in> fst ` dom (member_flag s)"
      using that mem by (metis fst_conv image_eqI)
    then have "r \<in> dom (role_admins s)" using i(6) m(3) by blast
    then show ?thesis by (simp add: acl_role_exists_def role_exists_def domIff)
  qed
  then have "\<forall>r. acl_permissions_of s r \<noteq> [] \<or> acl_members_of s r \<noteq> [] \<longrightarrow> acl_role_exists s r"
    by (metis list.set_sel(1))
  ultimately show ?thesis by blast
qed

theorem acl_state_well_formed_witness:
  "acl_history acl_example acl_example_state \<and> ''vault.*'' \<in> set (acl_permissions_of acl_example_state ''ops'')
    \<and> acl_is_wildcard_registered acl_example_state ''vault.*'' \<and> acl_role_exists acl_example_state ''ops''"
proof -
  have p: "acl_permissions_of acl_example_state ''ops'' = [''vault.*'']" "''vault.*'' \<noteq> WILDCARD" by code_simp+
  then have q: "''vault.*'' \<in> set (acl_permissions_of acl_example_state ''ops'')"
    "acl_permissions_of acl_example_state ''ops'' \<noteq> []" by simp_all
  have "classify ''vault.*'' \<noteq> Ok Exact" by (simp add: classify_vault)
  with p(2) q acl_example_history acl_state_well_formed [OF acl_example_history] show ?thesis by blast
qed

lemma refs_pattern:
  assumes "classify x = Ok (Namespace p)"
  shows "refs R p = card {k. (k, x) \<in> R}"
proof -
  have "{k \<in> R. ns (snd k) = Some p} = (\<lambda>k. (k, x)) ` {k. (k, x) \<in> R}"
    using assms by (auto simp: ns_Some classify_namespace)
  then show ?thesis by (simp add: refs_def card_image inj_on_def)
qed

lemma finite_keys: "finite R \<Longrightarrow> finite {k. (k, x) \<in> R}"
  by (rule finite_subset [of _ "fst ` R"]) force+

text \<open>
  C10. The usage counter of a namespace is the number of direct grants and role permissions that name
  its pattern. So a root that unregisters a registered pattern outside lockdown succeeds exactly
  when nothing names it any more, and then no caller gains or loses a permission.
\<close>

theorem acl_wildcard_usage_exact:
  assumes "acl_history cs s" and "classify x = Ok (Namespace p)"
  shows "unat (acl_wildcard_usage s x) = card {a. acl_is_granted s a x} + card {r. x \<in> set (acl_permissions_of s r)}
    \<and> (is_ok (acl_unregister_wildcard e actor x s) \<longleftrightarrow>
         require_root e actor s = Ok () \<and> \<not> is_locked s \<and> acl_is_wildcard_registered s x
         \<and> (\<forall>a. \<not> acl_is_granted s a x) \<and> (\<forall>r. x \<notin> set (acl_permissions_of s r)))
    \<and> (acl_unregister_wildcard e actor x s = Ok (b, s') \<longrightarrow> acl_has_permission s' who sel = acl_has_permission s who sel)"
proof -
  have inv: "acl_inv s" using acl_history_inv [OF assms(1)] by simp
  note i = acl_inv_parts [OF inv]
  have use: "acl_wildcard_usage s x = wildcard_use s p" by (simp add: acl_wildcard_usage_def assms(2))
  have sets: "{a. (a, x) \<in> dom (grant_flag s)} = {a. acl_is_granted s a x}"
    "{r. (r, x) \<in> dom (perm_flag s)} = {r. x \<in> set (acl_permissions_of s r)}"
    using i(2) by (auto simp: acl_is_granted_def acl_permissions_of_def indexed_mem)
  have count: "unat (acl_wildcard_usage s x) = card {a. acl_is_granted s a x} + card {r. x \<in> set (acl_permissions_of s r)}"
    using i(3) by (simp add: counted_def refs_pattern [OF assms(2)] sets use)
  have fin: "finite {a. acl_is_granted s a x}" "finite {r. x \<in> set (acl_permissions_of s r)}"
    unfolding sets [symmetric] using i(7,8) by (simp_all add: finite_keys)
  have "acl_wildcard_usage s x = 0 \<longleftrightarrow> (\<forall>a. \<not> acl_is_granted s a x) \<and> (\<forall>r. x \<notin> set (acl_permissions_of s r))"
    using count fin by (simp add: unat_eq_zero [symmetric] del: unat_eq_zero)
  then have "is_ok (acl_unregister_wildcard e actor x s) \<longleftrightarrow>
      require_root e actor s = Ok () \<and> \<not> is_locked s \<and> acl_is_wildcard_registered s x
      \<and> (\<forall>a. \<not> acl_is_granted s a x) \<and> (\<forall>r. x \<notin> set (acl_permissions_of s r))"
    by (auto simp: is_ok_iff acl_unregister_wildcard_def ok_iff namespace_of_ok assms(2) acl_is_wildcard_registered_def
        use word_greater_zero_iff Let_def)
  moreover have "acl_has_permission s' who sel = acl_has_permission s who sel" if "acl_unregister_wildcard e actor x s = Ok (b, s')"
  proof -
    have "acl_inv s'" "acl_abs s' = (acl_abs s)\<lparr>wild := wild (acl_abs s) - {butlast x}\<rparr>" using unregister_ok [OF that inv] by auto
    then show ?thesis using permits_iff [OF inv] by (simp add: acl_has_permission_def permits_iff rbac_allows_def)
  qed
  ultimately show ?thesis using count by blast
qed

theorem acl_wildcard_usage_exact_witness:
  "acl_history acl_example acl_example_state \<and> classify ''vault.*'' = Ok (Namespace ''vault.'')
    \<and> acl_wildcard_usage acl_example_state ''vault.*'' = 1
    \<and> card {a. acl_is_granted acl_example_state a ''vault.*''} + card {r. ''vault.*'' \<in> set (acl_permissions_of acl_example_state r)} = 1
    \<and> \<not> is_ok (acl_unregister_wildcard acl_env 1 ''vault.*'' acl_example_state)"
proof -
  have u: "acl_wildcard_usage acl_example_state ''vault.*'' = 1" "''vault.*'' \<in> set (acl_permissions_of acl_example_state ''ops'')"
    by code_simp+
  then show ?thesis using acl_example_history classify_vault
      acl_wildcard_usage_exact [OF acl_example_history classify_vault, of acl_env 1] by fastforce
qed

end
