(* ===== verification/Cdp.thy ===== *)
theory Cdp
  imports Prelude
begin

text \<open>
  Collateralised debt positions, \<open>contracts/cdp/src/lib.rs\<close>: users lock a collateral token, mint a
  stable unit against it at a minimum ratio, pay interest that depends on the utilisation, and lose
  collateral in liquidations when the ratio falls. The collateral token and the price oracle are other
  contracts and parameters of the model: a transfer, and the oracle's answer during the invocation.
\<close>

section \<open>Data\<close>

definition cdp_BPS :: i128 where "cdp_BPS = 10000"
definition PRICE_SCALE :: i128 where "PRICE_SCALE = 10000000"
definition LEDGERS_PER_YEAR :: i128 where "LEDGERS_PER_YEAR = 6307200"

datatype cdp_error =
    AlreadyInitialized | NotInitialized | InvalidAmount | InvalidConfig | PositionNotFound | PositionHealthy
  | Undercollateralized | InsufficientCollateral | InsufficientStableBalance | OracleNotConfigured
  | InvalidOraclePrice | LiquidationUnavailable | MathOverflow

record position =
  collateral_amount :: i128
  debt_amount :: i128
  last_accrual_ledger :: u32

record risk_params =
  min_collateral_ratio_bps :: i128
  liquidation_incentive_bps :: i128

record interest_rate_model =
  base_rate_bps :: i128
  slope1_bps :: i128
  slope2_bps :: i128
  optimal_utilization_bps :: i128

record liquidation_quote =
  repay_amount :: i128
  collateral_to_seize :: i128
  incentive_amount :: i128

record cdp =
  cdp_admin_slot :: "address option"
  collateral_token :: "address option"
  oracle_slot :: "address option"
  total_collateral_slot :: "i128 option"
  total_debt_slot :: "i128 option"
  total_supply_slot :: "i128 option"
  reserves_slot :: "i128 option"
  bad_debt_slot :: "i128 option"
  cdp_risk :: "risk_params option"
  cdp_model :: "interest_rate_model option"
  positions :: "address \<rightharpoonup> position"
  stable_balances :: "address \<rightharpoonup> i128"

text \<open>The oracle's \<open>latest_price\<close>, called in an environment of its own; \<open>None\<close> is a call that traps.\<close>

type_synonym latest_price = "env \<Rightarrow> i128 option"

section \<open>Helpers\<close>

definition cdp_checked_add :: "i128 \<Rightarrow> i128 \<Rightarrow> (i128, cdp_error) result" where
  "cdp_checked_add a b = ok_or (checked_add a b) MathOverflow"

definition cdp_checked_sub :: "i128 \<Rightarrow> i128 \<Rightarrow> (i128, cdp_error) result" where
  "cdp_checked_sub a b = ok_or (checked_sub a b) MathOverflow"

definition cdp_checked_mul :: "i128 \<Rightarrow> i128 \<Rightarrow> (i128, cdp_error) result" where
  "cdp_checked_mul a b = ok_or (checked_mul a b) MathOverflow"

definition cdp_require_admin :: "env \<Rightarrow> cdp \<Rightarrow> (address, cdp_error) result" where
  "cdp_require_admin e s =
     and_then (ok_or (cdp_admin_slot s) NotInitialized) (\<lambda>admin.
     and_then (require_auth e admin) (\<lambda>_. Ok admin))"

definition read_risk_params :: "cdp \<Rightarrow> (risk_params, cdp_error) result" where
  "read_risk_params s = ok_or (cdp_risk s) NotInitialized"

definition read_interest_model :: "cdp \<Rightarrow> (interest_rate_model, cdp_error) result" where
  "read_interest_model s = ok_or (cdp_model s) NotInitialized"

definition read_position :: "env \<Rightarrow> address \<Rightarrow> cdp \<Rightarrow> position" where
  "read_position e user s =
     (case positions s user of
        None \<Rightarrow> \<lparr>collateral_amount = 0, debt_amount = 0, last_accrual_ledger = sequence e\<rparr>
      | Some p \<Rightarrow> p)"

definition write_position :: "address \<Rightarrow> position \<Rightarrow> cdp \<Rightarrow> cdp" where
  "write_position user p s = s\<lparr>positions := (positions s)(user \<mapsto> p)\<rparr>"

definition read_stable_balance :: "address \<Rightarrow> cdp \<Rightarrow> i128" where
  "read_stable_balance user s = get0 (stable_balances s) user"

definition write_stable_balance :: "address \<Rightarrow> i128 \<Rightarrow> cdp \<Rightarrow> cdp" where
  "write_stable_balance user n s = s\<lparr>stable_balances := (stable_balances s)(user \<mapsto> n)\<rparr>"

definition oracle_price :: "latest_price \<Rightarrow> env \<Rightarrow> cdp \<Rightarrow> (i128, cdp_error) result" where
  "oracle_price latest e s =
     and_then (ok_or (oracle_slot s) OracleNotConfigured) (\<lambda>oracle.
     and_then (unwrap (latest (invoke_env e oracle))) (\<lambda>price.
       if price \<le> 0 then Err InvalidOraclePrice else Ok price))"

definition collateral_value :: "i128 \<Rightarrow> i128 \<Rightarrow> (i128, cdp_error) result" where
  "collateral_value price n = and_then (cdp_checked_mul n price) (\<lambda>x. div_i128 x PRICE_SCALE)"

definition collateral_ratio_bps :: "i128 \<Rightarrow> i128 \<Rightarrow> i128 \<Rightarrow> (i128, cdp_error) result" where
  "collateral_ratio_bps price n debt =
     (if debt \<le> 0 then Ok i128_max
      else and_then (collateral_value price n) (\<lambda>v.
           and_then (cdp_checked_mul v cdp_BPS) (\<lambda>x. div_i128 x debt)))"

definition total_debt :: "cdp \<Rightarrow> i128" where
  "total_debt s = (case total_debt_slot s of None \<Rightarrow> 0 | Some n \<Rightarrow> n)"

definition total_collateral :: "cdp \<Rightarrow> i128" where
  "total_collateral s = (case total_collateral_slot s of None \<Rightarrow> 0 | Some n \<Rightarrow> n)"

definition utilization_bps :: "i128 \<Rightarrow> cdp \<Rightarrow> (i128, cdp_error) result" where
  "utilization_bps price s =
     and_then (collateral_value price (total_collateral s)) (\<lambda>v.
       if v \<le> 0 then Ok 0
       else and_then (cdp_checked_mul (total_debt s) cdp_BPS) (\<lambda>x.
            and_then (div_i128 x v) (\<lambda>util. Ok (if cdp_BPS < util then cdp_BPS else util))))"

definition borrow_rate_bps :: "env \<Rightarrow> interest_rate_model \<Rightarrow> i128 \<Rightarrow> (i128, cdp_error) result" where
  "borrow_rate_bps e m u =
     (if u \<le> optimal_utilization_bps m then
        and_then (cdp_checked_mul u (slope1_bps m)) (\<lambda>x.
        and_then (div_i128 x (optimal_utilization_bps m)) (\<lambda>var. cdp_checked_add (base_rate_bps m) var))
      else
        and_then (cdp_checked_add (base_rate_bps m) (slope1_bps m)) (\<lambda>base.
        and_then (plain_i128 e (u - optimal_utilization_bps m)) (\<lambda>excess.
        and_then (cdp_checked_mul excess (slope2_bps m)) (\<lambda>x.
        and_then (plain_i128 e (cdp_BPS - optimal_utilization_bps m)) (\<lambda>d.
        and_then (div_i128 x d) (\<lambda>tail. cdp_checked_add base tail))))))"

definition cdp_total_stable_supply :: "cdp \<Rightarrow> i128" where
  "cdp_total_stable_supply s = (case total_supply_slot s of None \<Rightarrow> 0 | Some n \<Rightarrow> n)"

text \<open>The interest on a debt over a number of ledgers at a rate.\<close>

definition accrued_interest :: "i128 \<Rightarrow> i128 \<Rightarrow> i128 \<Rightarrow> (i128, cdp_error) result" where
  "accrued_interest debt rate elapsed =
     and_then (cdp_checked_mul debt rate) (\<lambda>x.
     and_then (cdp_checked_mul x elapsed) (\<lambda>x.
     and_then (div_i128 x cdp_BPS) (\<lambda>x. div_i128 x LEDGERS_PER_YEAR)))"

definition accrue_position ::
  "latest_price \<Rightarrow> env \<Rightarrow> address \<Rightarrow> cdp \<Rightarrow> (position \<times> cdp, cdp_error) result" where
  "accrue_position latest e user s =
     (let p = read_position e user s; now = sequence e
      in if debt_amount p \<le> 0 \<or> now \<le> last_accrual_ledger p then
           let p = p\<lparr>last_accrual_ledger := now\<rparr> in Ok (p, write_position user p s)
         else
           and_then (read_interest_model s) (\<lambda>m.
           and_then (oracle_price latest e s) (\<lambda>price.
           and_then (utilization_bps price s) (\<lambda>u.
           and_then (borrow_rate_bps e m u) (\<lambda>rate.
           and_then (accrued_interest (debt_amount p) rate (uint (now - last_accrual_ledger p))) (\<lambda>interest.
           and_then
             (if 0 < interest then
                and_then (cdp_checked_add (debt_amount p) interest) (\<lambda>debt.
                and_then (cdp_checked_add (total_debt s) interest) (\<lambda>td.
                and_then (cdp_checked_add (cdp_total_stable_supply s) interest) (\<lambda>ts.
                  Ok (p\<lparr>debt_amount := debt\<rparr>, s\<lparr>total_debt_slot := Some td, total_supply_slot := Some ts\<rparr>))))
              else Ok (p, s)) (\<lambda>(p, s).
             let p = p\<lparr>last_accrual_ledger := now\<rparr> in Ok (p, write_position user p s))))))))"

definition ensure_safe :: "latest_price \<Rightarrow> env \<Rightarrow> position \<Rightarrow> cdp \<Rightarrow> (unit, cdp_error) result" where
  "ensure_safe latest e p s =
     and_then (oracle_price latest e s) (\<lambda>price.
     and_then (read_risk_params s) (\<lambda>params.
     and_then (collateral_ratio_bps price (collateral_amount p) (debt_amount p)) (\<lambda>ratio.
       if ratio < min_collateral_ratio_bps params then Err Undercollateralized else Ok ())))"

section \<open>Entry points\<close>

definition cdp_initialize ::
  "address \<Rightarrow> address \<Rightarrow> address \<Rightarrow> i128 \<Rightarrow> i128 \<Rightarrow> i128 \<Rightarrow> i128 \<Rightarrow> i128 \<Rightarrow> i128 \<Rightarrow> cdp \<Rightarrow> (cdp, cdp_error) result" where
  "cdp_initialize admin token oracle min_ratio incentive base slope1 slope2 optimal s =
     (if cdp_admin_slot s \<noteq> None then Err AlreadyInitialized
      else if min_ratio \<le> cdp_BPS \<or> incentive < 0 \<or> optimal \<le> 0 \<or> cdp_BPS \<le> optimal then Err InvalidConfig
      else Ok (s\<lparr>cdp_admin_slot := Some admin, collateral_token := Some token, oracle_slot := Some oracle,
        cdp_risk := Some \<lparr>min_collateral_ratio_bps = min_ratio, liquidation_incentive_bps = incentive\<rparr>,
        cdp_model := Some \<lparr>base_rate_bps = base, slope1_bps = slope1, slope2_bps = slope2,
          optimal_utilization_bps = optimal\<rparr>,
        total_collateral_slot := Some 0, total_debt_slot := Some 0, total_supply_slot := Some 0,
        reserves_slot := Some 0, bad_debt_slot := Some 0\<rparr>))"

definition cdp_set_oracle :: "env \<Rightarrow> address \<Rightarrow> cdp \<Rightarrow> (cdp, cdp_error) result" where
  "cdp_set_oracle e oracle s = and_then (cdp_require_admin e s) (\<lambda>_. Ok (s\<lparr>oracle_slot := Some oracle\<rparr>))"

definition cdp_get_position :: "env \<Rightarrow> address \<Rightarrow> cdp \<Rightarrow> position" where
  "cdp_get_position e user s = read_position e user s"

definition cdp_stable_balance :: "address \<Rightarrow> cdp \<Rightarrow> i128" where
  "cdp_stable_balance user s = read_stable_balance user s"

definition cdp_total_debt :: "cdp \<Rightarrow> i128" where
  "cdp_total_debt s = total_debt s"

definition cdp_protocol_collateral_reserves :: "cdp \<Rightarrow> i128" where
  "cdp_protocol_collateral_reserves s = (case reserves_slot s of None \<Rightarrow> 0 | Some n \<Rightarrow> n)"

definition cdp_total_bad_debt :: "cdp \<Rightarrow> i128" where
  "cdp_total_bad_debt s = (case bad_debt_slot s of None \<Rightarrow> 0 | Some n \<Rightarrow> n)"

definition cdp_current_borrow_rate_bps :: "latest_price \<Rightarrow> env \<Rightarrow> cdp \<Rightarrow> (i128, cdp_error) result" where
  "cdp_current_borrow_rate_bps latest e s =
     and_then (read_interest_model s) (\<lambda>m.
     and_then (oracle_price latest e s) (\<lambda>price.
     and_then (utilization_bps price s) (\<lambda>u. borrow_rate_bps e m u)))"

definition cdp_collateral_ratio_bps :: "latest_price \<Rightarrow> env \<Rightarrow> address \<Rightarrow> cdp \<Rightarrow> (i128, cdp_error) result" where
  "cdp_collateral_ratio_bps latest e user s =
     (let p = read_position e user s
      in and_then (oracle_price latest e s) (\<lambda>price.
           collateral_ratio_bps price (collateral_amount p) (debt_amount p)))"

type_synonym ('r, 't) cdp_result = "('r \<times> cdp \<times> 't, cdp_error) result"

definition cdp_deposit_collateral ::
  "('t, 'x) transfer \<Rightarrow> latest_price \<Rightarrow> env \<Rightarrow> address \<Rightarrow> i128 \<Rightarrow> cdp \<Rightarrow> 't \<Rightarrow> (position, 't) cdp_result" where
  "cdp_deposit_collateral transfer latest e user n s t =
     and_then (require_auth e user) (\<lambda>_.
       if n \<le> 0 then Err InvalidAmount
       else
         and_then (ok_or (collateral_token s) NotInitialized) (\<lambda>token.
         and_then (accrue_position latest e user s) (\<lambda>(p, s).
         and_then (sub_call (transfer (invoke_env e token) user (self e) n t)) (\<lambda>t.
         and_then (cdp_checked_add (collateral_amount p) n) (\<lambda>c.
         let p = p\<lparr>collateral_amount := c\<rparr>; s = write_position user p s
         in and_then (cdp_checked_add (total_collateral s) n) (\<lambda>tc.
              Ok (p, s\<lparr>total_collateral_slot := Some tc\<rparr>, t)))))))"

definition cdp_withdraw_collateral ::
  "('t, 'x) transfer \<Rightarrow> latest_price \<Rightarrow> env \<Rightarrow> address \<Rightarrow> i128 \<Rightarrow> cdp \<Rightarrow> 't \<Rightarrow> (position, 't) cdp_result" where
  "cdp_withdraw_collateral transfer latest e user n s t =
     and_then (require_auth e user) (\<lambda>_.
       if n \<le> 0 then Err InvalidAmount
       else
         and_then (ok_or (collateral_token s) NotInitialized) (\<lambda>token.
         and_then (accrue_position latest e user s) (\<lambda>(p, s).
           if collateral_amount p < n then Err InsufficientCollateral
           else
             and_then (cdp_checked_sub (collateral_amount p) n) (\<lambda>c.
             let p = p\<lparr>collateral_amount := c\<rparr>
             in and_then (ensure_safe latest e p s) (\<lambda>_.
                let s = write_position user p s
                in and_then (cdp_checked_sub (total_collateral s) n) (\<lambda>tc.
                   and_then (sub_call (transfer (invoke_env e token) (self e) user n t)) (\<lambda>t.
                     Ok (p, s\<lparr>total_collateral_slot := Some tc\<rparr>, t))))))))"

definition cdp_mint_stable ::
  "latest_price \<Rightarrow> env \<Rightarrow> address \<Rightarrow> i128 \<Rightarrow> cdp \<Rightarrow> (position \<times> cdp, cdp_error) result" where
  "cdp_mint_stable latest e user n s =
     and_then (require_auth e user) (\<lambda>_.
       if n \<le> 0 then Err InvalidAmount
       else
         and_then (accrue_position latest e user s) (\<lambda>(p, s).
         and_then (cdp_checked_add (debt_amount p) n) (\<lambda>d.
         let p = p\<lparr>debt_amount := d\<rparr>
         in and_then (ensure_safe latest e p s) (\<lambda>_.
            and_then (cdp_checked_add (read_stable_balance user s) n) (\<lambda>b.
            let s = write_position user p (write_stable_balance user b s)
            in and_then (cdp_checked_add (total_debt s) n) (\<lambda>td.
               let s = s\<lparr>total_debt_slot := Some td\<rparr>
               in and_then (cdp_checked_add (cdp_total_stable_supply s) n) (\<lambda>ts.
                    Ok (p, s\<lparr>total_supply_slot := Some ts\<rparr>))))))))"

definition cdp_repay ::
  "latest_price \<Rightarrow> env \<Rightarrow> address \<Rightarrow> i128 \<Rightarrow> cdp \<Rightarrow> (position \<times> cdp, cdp_error) result" where
  "cdp_repay latest e user n s =
     and_then (require_auth e user) (\<lambda>_.
       if n \<le> 0 then Err InvalidAmount
       else
         and_then (accrue_position latest e user s) (\<lambda>(p, s).
         let balance = read_stable_balance user s
         in if balance \<le> 0 then Err InsufficientStableBalance
            else
              let r = (if balance < n then balance else n);
                  r = (if debt_amount p < r then debt_amount p else r)
              in if r \<le> 0 then Err InvalidAmount
                 else
                   and_then (cdp_checked_sub (debt_amount p) r) (\<lambda>d.
                   and_then (cdp_checked_sub balance r) (\<lambda>b.
                   let p = p\<lparr>debt_amount := d\<rparr>; s = write_position user p (write_stable_balance user b s)
                   in and_then (cdp_checked_sub (total_debt s) r) (\<lambda>td.
                      let s = s\<lparr>total_debt_slot := Some td\<rparr>
                      in and_then (cdp_checked_sub (cdp_total_stable_supply s) r) (\<lambda>ts.
                           Ok (p, s\<lparr>total_supply_slot := Some ts\<rparr>)))))))"

definition cdp_transfer_stable ::
  "env \<Rightarrow> address \<Rightarrow> address \<Rightarrow> i128 \<Rightarrow> cdp \<Rightarrow> (cdp, cdp_error) result" where
  "cdp_transfer_stable e from dest n s =
     and_then (require_auth e from) (\<lambda>_.
       if n \<le> 0 then Err InvalidAmount
       else if read_stable_balance from s < n then Err InsufficientStableBalance
       else
         and_then (cdp_checked_sub (read_stable_balance from s) n) (\<lambda>b.
         let s = write_stable_balance from b s
         in and_then (cdp_checked_add (read_stable_balance dest s) n) (\<lambda>b.
              Ok (write_stable_balance dest b s))))"

text \<open>What a quote and a self-liquidation share: the position must be unhealthy, and what its collateral covers.\<close>

definition require_unhealthy ::
  "latest_price \<Rightarrow> env \<Rightarrow> position \<Rightarrow> cdp \<Rightarrow> (risk_params \<times> i128, cdp_error) result" where
  "require_unhealthy latest e p s =
     and_then (read_risk_params s) (\<lambda>params.
     and_then (oracle_price latest e s) (\<lambda>price.
     and_then (collateral_ratio_bps price (collateral_amount p) (debt_amount p)) (\<lambda>ratio.
       if min_collateral_ratio_bps params \<le> ratio then Err PositionHealthy else Ok (params, price))))"

definition max_coverable_repay :: "env \<Rightarrow> risk_params \<Rightarrow> i128 \<Rightarrow> position \<Rightarrow> (i128, cdp_error) result" where
  "max_coverable_repay e params price p =
     and_then (collateral_value price (collateral_amount p)) (\<lambda>v.
     and_then (cdp_checked_mul v cdp_BPS) (\<lambda>x.
     and_then (plain_i128 e (cdp_BPS + liquidation_incentive_bps params)) (\<lambda>factor. div_i128 x factor)))"

text \<open>The collateral a repayment buys, and the bonus in it.\<close>

definition quote_for ::
  "env \<Rightarrow> risk_params \<Rightarrow> i128 \<Rightarrow> position \<Rightarrow> i128 \<Rightarrow> (liquidation_quote, cdp_error) result" where
  "quote_for e params price p repay =
     and_then (plain_i128 e (cdp_BPS + liquidation_incentive_bps params)) (\<lambda>factor.
     and_then (cdp_checked_mul repay factor) (\<lambda>x.
     and_then (div_i128 x cdp_BPS) (\<lambda>seize_value.
     and_then (cdp_checked_mul seize_value PRICE_SCALE) (\<lambda>x.
     and_then (div_i128 x price) (\<lambda>seize.
     let seize = (if collateral_amount p < seize then collateral_amount p else seize)
     in and_then (cdp_checked_sub seize_value repay) (\<lambda>bonus.
          Ok \<lparr>repay_amount = repay, collateral_to_seize = seize, incentive_amount = bonus\<rparr>))))))"

definition cdp_quote_liquidation ::
  "latest_price \<Rightarrow> env \<Rightarrow> address \<Rightarrow> i128 \<Rightarrow> cdp \<Rightarrow> (liquidation_quote \<times> cdp, cdp_error) result" where
  "cdp_quote_liquidation latest e borrower requested s =
     (if requested \<le> 0 then Err InvalidAmount
      else
        and_then (accrue_position latest e borrower s) (\<lambda>(p, s).
        and_then (require_unhealthy latest e p s) (\<lambda>(params, price).
        and_then (max_coverable_repay e params price p) (\<lambda>coverable.
        let repay = min (min requested (debt_amount p)) coverable
        in if repay \<le> 0 then Err LiquidationUnavailable
           else and_then (quote_for e params price p repay) (\<lambda>quote. Ok (quote, s))))))"

definition cdp_liquidate ::
  "('t, 'x) transfer \<Rightarrow> latest_price \<Rightarrow> env \<Rightarrow> address \<Rightarrow> address \<Rightarrow> i128 \<Rightarrow> cdp \<Rightarrow> 't
    \<Rightarrow> (liquidation_quote, 't) cdp_result" where
  "cdp_liquidate transfer latest e liquidator borrower requested s t =
     and_then (require_auth e liquidator) (\<lambda>_.
     and_then (cdp_quote_liquidation latest e borrower requested s) (\<lambda>(quote, s).
     let balance = read_stable_balance liquidator s
     in if balance < repay_amount quote then Err InsufficientStableBalance
        else
          and_then (ok_or (collateral_token s) NotInitialized) (\<lambda>token.
          let p = read_position e borrower s
          in and_then (cdp_checked_sub (debt_amount p) (repay_amount quote)) (\<lambda>d.
             and_then (cdp_checked_sub (collateral_amount p) (collateral_to_seize quote)) (\<lambda>c.
             and_then (cdp_checked_sub balance (repay_amount quote)) (\<lambda>b.
             let s = write_position borrower (p\<lparr>debt_amount := d, collateral_amount := c\<rparr>)
                       (write_stable_balance liquidator b s)
             in and_then (cdp_checked_sub (total_debt s) (repay_amount quote)) (\<lambda>td.
                let s = s\<lparr>total_debt_slot := Some td\<rparr>
                in and_then (cdp_checked_sub (cdp_total_stable_supply s) (repay_amount quote)) (\<lambda>ts.
                   let s = s\<lparr>total_supply_slot := Some ts\<rparr>
                   in and_then (cdp_checked_sub (total_collateral s) (collateral_to_seize quote)) (\<lambda>tc.
                      let s = s\<lparr>total_collateral_slot := Some tc\<rparr>
                      in and_then
                           (sub_call (transfer (invoke_env e token) (self e) liquidator (collateral_to_seize quote) t)) (\<lambda>t.
                           Ok (quote, s, t)))))))))))"

definition cdp_self_liquidate ::
  "latest_price \<Rightarrow> env \<Rightarrow> address \<Rightarrow> cdp \<Rightarrow> (position \<times> cdp, cdp_error) result" where
  "cdp_self_liquidate latest e borrower s =
     and_then (accrue_position latest e borrower s) (\<lambda>(p, s).
     and_then (require_unhealthy latest e p s) (\<lambda>(params, price).
     and_then (max_coverable_repay e params price p) (\<lambda>coverable.
     and_then (if coverable < debt_amount p then plain_i128 e (debt_amount p - coverable) else Ok 0) (\<lambda>bad.
     and_then (plain_i128 e (debt_amount p - bad)) (\<lambda>repaid.
     let seized = collateral_amount p
     in and_then (cdp_checked_add (cdp_protocol_collateral_reserves s) seized) (\<lambda>r.
        let s = s\<lparr>reserves_slot := Some r\<rparr>
        in and_then (cdp_checked_add (cdp_total_bad_debt s) bad) (\<lambda>tb.
           let s = s\<lparr>bad_debt_slot := Some tb\<rparr>
           in and_then (cdp_checked_sub (total_debt s) repaid) (\<lambda>td.
              let s = s\<lparr>total_debt_slot := Some td\<rparr>
              in and_then (cdp_checked_sub (total_collateral s) seized) (\<lambda>tc.
                 let s = s\<lparr>total_collateral_slot := Some tc\<rparr>;
                     p = \<lparr>collateral_amount = 0, debt_amount = 0, last_accrual_ledger = sequence e\<rparr>
                 in Ok (p, write_position borrower p s))))))))))"

section \<open>Histories\<close>

datatype cdp_call =
    Initialize address address address i128 i128 i128 i128 i128 i128
  | SetOracle address
  | DepositCollateral address i128
  | WithdrawCollateral address i128
  | MintStable address i128
  | Repay address i128
  | TransferStable address address i128
  | QuoteLiquidation address i128
  | Liquidate address address i128
  | SelfLiquidate address

definition cdp_keep :: "'t \<Rightarrow> (cdp, cdp_error) result \<Rightarrow> (cdp \<times> 't, cdp_error) result" where
  "cdp_keep t m = and_then m (\<lambda>s. Ok (s, t))"

definition cdp_drop :: "'t \<Rightarrow> ('r \<times> cdp, cdp_error) result \<Rightarrow> (cdp \<times> 't, cdp_error) result" where
  "cdp_drop t m = and_then m (\<lambda>(r, s). Ok (s, t))"

definition cdp_moved :: "('r, 't) cdp_result \<Rightarrow> (cdp \<times> 't, cdp_error) result" where
  "cdp_moved m = and_then m (\<lambda>(r, s, t). Ok (s, t))"

fun cdp_exec ::
  "('t, 'x) transfer \<Rightarrow> latest_price \<Rightarrow> env \<Rightarrow> cdp_call \<Rightarrow> cdp \<Rightarrow> 't \<Rightarrow> (cdp \<times> 't, cdp_error) result" where
  "cdp_exec tr pr e (Initialize a k r m i b s1 s2 u) s t = cdp_keep t (cdp_initialize a k r m i b s1 s2 u s)"
| "cdp_exec tr pr e (SetOracle r) s t = cdp_keep t (cdp_set_oracle e r s)"
| "cdp_exec tr pr e (DepositCollateral a n) s t = cdp_moved (cdp_deposit_collateral tr pr e a n s t)"
| "cdp_exec tr pr e (WithdrawCollateral a n) s t = cdp_moved (cdp_withdraw_collateral tr pr e a n s t)"
| "cdp_exec tr pr e (MintStable a n) s t = cdp_drop t (cdp_mint_stable pr e a n s)"
| "cdp_exec tr pr e (Repay a n) s t = cdp_drop t (cdp_repay pr e a n s)"
| "cdp_exec tr pr e (TransferStable a b n) s t = cdp_keep t (cdp_transfer_stable e a b n s)"
| "cdp_exec tr pr e (QuoteLiquidation b n) s t = cdp_drop t (cdp_quote_liquidation pr e b n s)"
| "cdp_exec tr pr e (Liquidate l b n) s t = cdp_moved (cdp_liquidate tr pr e l b n s t)"
| "cdp_exec tr pr e (SelfLiquidate b) s t = cdp_drop t (cdp_self_liquidate pr e b s)"

definition fresh_cdp :: cdp where
  "fresh_cdp = \<lparr>cdp_admin_slot = None, collateral_token = None, oracle_slot = None, total_collateral_slot = None,
     total_debt_slot = None, total_supply_slot = None, reserves_slot = None, bad_debt_slot = None, cdp_risk = None,
     cdp_model = None, positions = Map.empty, stable_balances = Map.empty\<rparr>"

text \<open>
  Histories of the contract at address \<open>v\<close> and its collateral token: accepted calls, at any prices, in
  transactions that do not carry the contract's own signature and in a build that checks its
  arithmetic, and in between anything that others do with the token.
\<close>

inductive cdp_run ::
  "('t, 'x) transfer \<Rightarrow> 't balance \<Rightarrow> ('t \<Rightarrow> bool) \<Rightarrow> address \<Rightarrow> cdp \<Rightarrow> 't \<Rightarrow> bool"
  for tr ba sound v where
  cdp_start: "sound t \<Longrightarrow> cdp_run tr ba sound v fresh_cdp t"
| cdp_call: "cdp_run tr ba sound v s t \<Longrightarrow> self e = v \<Longrightarrow> overflow_checks e \<Longrightarrow> \<not> authorized e v \<Longrightarrow>
    cdp_exec tr pr e c s t = Ok (s', t') \<Longrightarrow> cdp_run tr ba sound v s' t'"
| cdp_other: "cdp_run tr ba sound v s t \<Longrightarrow> sound t' \<Longrightarrow> ba t v \<le> ba t' v \<Longrightarrow> cdp_run tr ba sound v s t'"

end
