(* ===== verification/Cdp_Accounts.thy ===== *)
theory Cdp_Accounts
  imports Cdp Token
begin

text \<open>
  The books of the debt positions: totals agree with the positions and balances in every history, the
  collateral is held by the contract, liquidations take no more than they may, and what the interest
  and the health checks compute.
\<close>

section \<open>The books\<close>

definition coll_of :: "cdp \<Rightarrow> address \<rightharpoonup> i128" where
  "coll_of s u = map_option collateral_amount (positions s u)"

definition debt_of :: "cdp \<Rightarrow> address \<rightharpoonup> i128" where
  "debt_of s u = map_option debt_amount (positions s u)"

lemma read_position_of:
  "collateral_amount (read_position e u s) = get0 (coll_of s) u"
  "debt_amount (read_position e u s) = get0 (debt_of s) u"
  by (simp_all add: read_position_def coll_of_def debt_of_def get0_def split: option.split)

lemma of_write [simp]:
  "coll_of (write_position u p s) = (coll_of s)(u \<mapsto> collateral_amount p)"
  "debt_of (write_position u p s) = (debt_of s)(u \<mapsto> debt_amount p)"
  "stable_balances (write_position u p s) = stable_balances s"
  "coll_of (write_stable_balance u n s) = coll_of s"
  "debt_of (write_stable_balance u n s) = debt_of s"
  "stable_balances (write_stable_balance u n s) = (stable_balances s)(u \<mapsto> n)"
  by (simp_all add: fun_eq_iff coll_of_def debt_of_def write_position_def write_stable_balance_def)

text \<open>
  The abstract ledger: the amounts of the contract without its encoding in positions and optional
  slots.
\<close>

record ledger =
  l_coll :: "address \<rightharpoonup> i128"
  l_debt :: "address \<rightharpoonup> i128"
  l_bal :: "address \<rightharpoonup> i128"
  l_tc :: i128
  l_td :: i128
  l_ts :: i128
  l_rsv :: i128
  l_bad :: i128

definition ledger_of :: "cdp \<Rightarrow> ledger" where
  "ledger_of s = \<lparr>l_coll = coll_of s, l_debt = debt_of s, l_bal = stable_balances s, l_tc = total_collateral s,
     l_td = total_debt s, l_ts = cdp_total_stable_supply s, l_rsv = cdp_protocol_collateral_reserves s,
     l_bad = cdp_total_bad_debt s\<rparr>"

definition config_of :: "cdp \<Rightarrow> address option \<times> address option \<times> address option \<times> risk_params option \<times> interest_rate_model option" where
  "config_of s = (cdp_admin_slot s, collateral_token s, oracle_slot s, cdp_risk s, cdp_model s)"

text \<open>The postings: what an accepted call may do to the ledger.\<close>

definition charge :: "address \<Rightarrow> i128 \<Rightarrow> ledger \<Rightarrow> ledger" where
  "charge u i L = L\<lparr>l_coll := (l_coll L)(u \<mapsto> get0 (l_coll L) u), l_debt := (l_debt L)(u \<mapsto> get0 (l_debt L) u + i),
     l_td := l_td L + i, l_ts := l_ts L + i\<rparr>"

definition lock :: "address \<Rightarrow> i128 \<Rightarrow> ledger \<Rightarrow> ledger" where
  "lock u n L = L\<lparr>l_coll := (l_coll L)(u \<mapsto> get0 (l_coll L) u + n), l_tc := l_tc L + n\<rparr>"

definition borrow :: "address \<Rightarrow> address \<Rightarrow> i128 \<Rightarrow> ledger \<Rightarrow> ledger" where
  "borrow u a n L = L\<lparr>l_debt := (l_debt L)(u \<mapsto> get0 (l_debt L) u + n), l_bal := (l_bal L)(a \<mapsto> get0 (l_bal L) a + n),
     l_td := l_td L + n, l_ts := l_ts L + n\<rparr>"

definition pay :: "address \<Rightarrow> address \<Rightarrow> i128 \<Rightarrow> ledger \<Rightarrow> ledger" where
  "pay a b n L = (let L = L\<lparr>l_bal := (l_bal L)(a \<mapsto> get0 (l_bal L) a - n)\<rparr>
     in L\<lparr>l_bal := (l_bal L)(b \<mapsto> get0 (l_bal L) b + n)\<rparr>)"

definition seize :: "address \<Rightarrow> i128 \<Rightarrow> ledger \<Rightarrow> ledger" where
  "seize u bad L = L\<lparr>l_rsv := l_rsv L + get0 (l_coll L) u, l_bad := l_bad L + bad,
     l_td := l_td L - (get0 (l_debt L) u - bad), l_tc := l_tc L - get0 (l_coll L) u,
     l_coll := (l_coll L)(u \<mapsto> 0), l_debt := (l_debt L)(u \<mapsto> 0)\<rparr>"

inductive posting :: "ledger \<Rightarrow> ledger \<Rightarrow> bool" where
  p_none: "posting L L"
| p_charge: "0 \<le> i \<Longrightarrow> posting L (charge u i L)"
| p_lock: "0 \<le> i \<Longrightarrow> - get0 (l_coll L) u \<le> n \<Longrightarrow> posting L (lock u n (charge u i L))"
| p_borrow: "0 \<le> i \<Longrightarrow> 0 < n \<Longrightarrow> posting L (borrow u u n (charge u i L))"
| p_repay: "0 \<le> i \<Longrightarrow> 0 < r \<Longrightarrow> r \<le> get0 (l_debt L) u + i \<Longrightarrow> r \<le> get0 (l_bal L) u \<Longrightarrow>
    posting L (borrow u u (- r) (charge u i L))"
| p_liquidate: "0 \<le> i \<Longrightarrow> 0 < r \<Longrightarrow> r \<le> get0 (l_debt L) u + i \<Longrightarrow> r \<le> get0 (l_bal L) a \<Longrightarrow> 0 \<le> c \<Longrightarrow>
    c \<le> get0 (l_coll L) u \<Longrightarrow> posting L (lock u (- c) (borrow u a (- r) (charge u i L)))"
| p_pay: "0 < n \<Longrightarrow> n \<le> get0 (l_bal L) a \<Longrightarrow> posting L (pay a b n L)"
| p_seize: "0 \<le> i \<Longrightarrow> 0 \<le> bad \<Longrightarrow> bad \<le> get0 (l_debt L) u + i \<Longrightarrow> posting L (seize u bad (charge u i L))"

definition books :: "ledger \<Rightarrow> bool" where
  "books L \<longleftrightarrow> finite (dom (l_coll L)) \<and> finite (dom (l_debt L)) \<and> finite (dom (l_bal L))
     \<and> (\<forall>u. 0 \<le> get0 (l_coll L) u) \<and> (\<forall>u. 0 \<le> get0 (l_debt L) u) \<and> (\<forall>u. 0 \<le> get0 (l_bal L) u)
     \<and> l_tc L = map_total (l_coll L) \<and> l_td L = map_total (l_debt L) + l_bad L
     \<and> 0 \<le> l_bad L \<and> 0 \<le> l_rsv L \<and> map_total (l_bal L) \<le> l_ts L \<and> l_td L \<le> l_ts L"

lemma books_charge: "books L \<Longrightarrow> 0 \<le> i \<Longrightarrow> books (charge u i L)"
  by (simp add: books_def charge_def)

lemma books_lock: "books L \<Longrightarrow> - get0 (l_coll L) u \<le> n \<Longrightarrow> books (lock u n L)"
  by (simp add: books_def lock_def)

lemma books_borrow:
  "books L \<Longrightarrow> - get0 (l_debt L) u \<le> n \<Longrightarrow> - get0 (l_bal L) a \<le> n \<Longrightarrow> books (borrow u a n L)"
  by (simp add: books_def borrow_def)

lemma books_pay: "books L \<Longrightarrow> 0 < n \<Longrightarrow> n \<le> get0 (l_bal L) a \<Longrightarrow> books (pay a b n L)"
  by (simp add: books_def pay_def Let_def)

lemma books_seize: "books L \<Longrightarrow> 0 \<le> bad \<Longrightarrow> bad \<le> get0 (l_debt L) u \<Longrightarrow> books (seize u bad L)"
  by (simp add: books_def seize_def)

lemma charge_simps [simp]:
  "get0 (l_coll (charge u i L)) = get0 (l_coll L)" "l_bal (charge u i L) = l_bal L"
  "get0 (l_debt (charge u i L)) u = get0 (l_debt L) u + i"
  by (simp_all add: charge_def fun_eq_iff)

lemma borrow_simps [simp]: "l_coll (borrow u a n L) = l_coll L"
  by (simp add: borrow_def)

lemma posting_books: "posting L L' \<Longrightarrow> books L \<Longrightarrow> books L'"
proof (induction rule: posting.induct)
  case (p_borrow i n L u)
  moreover have "0 \<le> get0 (l_debt L) u" "0 \<le> get0 (l_bal L) u" using p_borrow.prems by (simp_all add: books_def)
  ultimately show ?case by (simp add: books_charge books_borrow)
qed (simp_all add: books_charge books_lock books_borrow books_pay books_seize)

section \<open>The contract keeps the ledger\<close>

lemma ledger_sel [simp]:
  "l_coll (ledger_of s) = coll_of s" "l_debt (ledger_of s) = debt_of s" "l_bal (ledger_of s) = stable_balances s"
  "l_tc (ledger_of s) = total_collateral s" "l_td (ledger_of s) = total_debt s"
  "l_ts (ledger_of s) = cdp_total_stable_supply s" "l_rsv (ledger_of s) = cdp_protocol_collateral_reserves s"
  "l_bad (ledger_of s) = cdp_total_bad_debt s"
  by (simp_all add: ledger_of_def)

lemma slots_set [simp]:
  "ledger_of (s\<lparr>total_collateral_slot := Some n\<rparr>) = (ledger_of s)\<lparr>l_tc := n\<rparr>"
  "ledger_of (s\<lparr>total_debt_slot := Some n\<rparr>) = (ledger_of s)\<lparr>l_td := n\<rparr>"
  "ledger_of (s\<lparr>total_supply_slot := Some n\<rparr>) = (ledger_of s)\<lparr>l_ts := n\<rparr>"
  "ledger_of (s\<lparr>reserves_slot := Some n\<rparr>) = (ledger_of s)\<lparr>l_rsv := n\<rparr>"
  "ledger_of (s\<lparr>bad_debt_slot := Some n\<rparr>) = (ledger_of s)\<lparr>l_bad := n\<rparr>"
  "ledger_of (s\<lparr>oracle_slot := r\<rparr>) = ledger_of s"
  "ledger_of (write_position u p s) = (ledger_of s)\<lparr>l_coll := (coll_of s)(u \<mapsto> collateral_amount p),
     l_debt := (debt_of s)(u \<mapsto> debt_amount p)\<rparr>"
  "ledger_of (write_stable_balance u n s) = (ledger_of s)\<lparr>l_bal := (stable_balances s)(u \<mapsto> n)\<rparr>"
  by (simp_all add: ledger_of_def coll_of_def [abs_def] debt_of_def [abs_def] total_collateral_def total_debt_def
      cdp_total_stable_supply_def cdp_protocol_collateral_reserves_def cdp_total_bad_debt_def write_position_def
      write_stable_balance_def fun_eq_iff)

lemma slot_frames [simp]:
  "coll_of (s\<lparr>total_collateral_slot := x\<rparr>) = coll_of s"
  "debt_of (s\<lparr>total_collateral_slot := x\<rparr>) = debt_of s"
  "total_collateral (s\<lparr>total_collateral_slot := Some n\<rparr>) = n"
  "total_debt (s\<lparr>total_collateral_slot := x\<rparr>) = total_debt s"
  "cdp_total_stable_supply (s\<lparr>total_collateral_slot := x\<rparr>) = cdp_total_stable_supply s"
  "cdp_protocol_collateral_reserves (s\<lparr>total_collateral_slot := x\<rparr>) = cdp_protocol_collateral_reserves s"
  "cdp_total_bad_debt (s\<lparr>total_collateral_slot := x\<rparr>) = cdp_total_bad_debt s"
  "total_collateral (write_position u p s) = total_collateral s"
  "total_collateral (write_stable_balance u n s) = total_collateral s"
  "coll_of (s\<lparr>total_debt_slot := x\<rparr>) = coll_of s"
  "debt_of (s\<lparr>total_debt_slot := x\<rparr>) = debt_of s"
  "total_collateral (s\<lparr>total_debt_slot := x\<rparr>) = total_collateral s"
  "total_debt (s\<lparr>total_debt_slot := Some n\<rparr>) = n"
  "cdp_total_stable_supply (s\<lparr>total_debt_slot := x\<rparr>) = cdp_total_stable_supply s"
  "cdp_protocol_collateral_reserves (s\<lparr>total_debt_slot := x\<rparr>) = cdp_protocol_collateral_reserves s"
  "cdp_total_bad_debt (s\<lparr>total_debt_slot := x\<rparr>) = cdp_total_bad_debt s"
  "total_debt (write_position u p s) = total_debt s" "total_debt (write_stable_balance u n s) = total_debt s"
  "coll_of (s\<lparr>total_supply_slot := x\<rparr>) = coll_of s"
  "debt_of (s\<lparr>total_supply_slot := x\<rparr>) = debt_of s"
  "total_collateral (s\<lparr>total_supply_slot := x\<rparr>) = total_collateral s"
  "total_debt (s\<lparr>total_supply_slot := x\<rparr>) = total_debt s"
  "cdp_total_stable_supply (s\<lparr>total_supply_slot := Some n\<rparr>) = n"
  "cdp_protocol_collateral_reserves (s\<lparr>total_supply_slot := x\<rparr>) = cdp_protocol_collateral_reserves s"
  "cdp_total_bad_debt (s\<lparr>total_supply_slot := x\<rparr>) = cdp_total_bad_debt s"
  "cdp_total_stable_supply (write_position u p s) = cdp_total_stable_supply s"
  "cdp_total_stable_supply (write_stable_balance u n s) = cdp_total_stable_supply s"
  "coll_of (s\<lparr>reserves_slot := x\<rparr>) = coll_of s"
  "debt_of (s\<lparr>reserves_slot := x\<rparr>) = debt_of s"
  "total_collateral (s\<lparr>reserves_slot := x\<rparr>) = total_collateral s"
  "total_debt (s\<lparr>reserves_slot := x\<rparr>) = total_debt s"
  "cdp_total_stable_supply (s\<lparr>reserves_slot := x\<rparr>) = cdp_total_stable_supply s"
  "cdp_protocol_collateral_reserves (s\<lparr>reserves_slot := Some n\<rparr>) = n"
  "cdp_total_bad_debt (s\<lparr>reserves_slot := x\<rparr>) = cdp_total_bad_debt s"
  "cdp_protocol_collateral_reserves (write_position u p s) = cdp_protocol_collateral_reserves s"
  "cdp_protocol_collateral_reserves (write_stable_balance u n s) = cdp_protocol_collateral_reserves s"
  "coll_of (s\<lparr>bad_debt_slot := x\<rparr>) = coll_of s"
  "debt_of (s\<lparr>bad_debt_slot := x\<rparr>) = debt_of s"
  "total_collateral (s\<lparr>bad_debt_slot := x\<rparr>) = total_collateral s"
  "total_debt (s\<lparr>bad_debt_slot := x\<rparr>) = total_debt s"
  "cdp_total_stable_supply (s\<lparr>bad_debt_slot := x\<rparr>) = cdp_total_stable_supply s"
  "cdp_protocol_collateral_reserves (s\<lparr>bad_debt_slot := x\<rparr>) = cdp_protocol_collateral_reserves s"
  "cdp_total_bad_debt (s\<lparr>bad_debt_slot := Some n\<rparr>) = n"
  "cdp_total_bad_debt (write_position u p s) = cdp_total_bad_debt s"
  "cdp_total_bad_debt (write_stable_balance u n s) = cdp_total_bad_debt s"
  by (simp_all add: fun_eq_iff coll_of_def debt_of_def total_collateral_def total_debt_def cdp_total_stable_supply_def
      cdp_protocol_collateral_reserves_def cdp_total_bad_debt_def write_position_def write_stable_balance_def)

lemma config_set [simp]:
  "config_of (s\<lparr>total_collateral_slot := x\<rparr>) = config_of s" "config_of (s\<lparr>total_debt_slot := x\<rparr>) = config_of s"
  "config_of (s\<lparr>total_supply_slot := x\<rparr>) = config_of s" "config_of (s\<lparr>reserves_slot := x\<rparr>) = config_of s"
  "config_of (s\<lparr>bad_debt_slot := x\<rparr>) = config_of s" "config_of (write_position u p s) = config_of s"
  "config_of (write_stable_balance u n s) = config_of s"
  by (simp_all add: config_of_def write_position_def write_stable_balance_def)

lemmas cdp_checked = cdp_checked_add_def cdp_checked_sub_def cdp_checked_mul_def

lemma positions_write [simp]: "positions (write_position u p s) = (positions s)(u \<mapsto> p)"
  by (simp add: write_position_def)

lemma charge_0: "charge u 0 L = L\<lparr>l_coll := (l_coll L)(u \<mapsto> get0 (l_coll L) u), l_debt := (l_debt L)(u \<mapsto> get0 (l_debt L) u)\<rparr>"
  by (cases L) (simp add: charge_def)

lemma accrue_last: "accrue_position pr e u s = Ok (p, s') \<Longrightarrow> last_accrual_ledger p = sequence e"
  by (auto simp: accrue_position_def Let_def split: if_splits)

text \<open>An accrual writes the position back with a non-negative interest and moves nothing else.\<close>

lemma cdp_accrue_ok:
  assumes "accrue_position pr e u s = Ok (p, s')"
  obtains i where "0 \<le> i" "ledger_of s' = charge u i (ledger_of s)" "config_of s' = config_of s"
    "positions s' u = Some p" "collateral_amount p = get0 (coll_of s) u" "debt_amount p = get0 (debt_of s) u + i"
proof (cases "debt_amount (read_position e u s) \<le> 0 \<or> sequence e \<le> last_accrual_ledger (read_position e u s)")
  case True
  then have "p = (read_position e u s)\<lparr>last_accrual_ledger := sequence e\<rparr>" "s' = write_position u p s"
    using assms by (auto simp: accrue_position_def Let_def)
  then show thesis by (intro that [of 0]) (simp_all add: charge_0 read_position_of)
next
  case False
  let ?p = "read_position e u s"
  obtain i q s1 where q: "(if 0 < i then
      and_then (cdp_checked_add (debt_amount ?p) i) (\<lambda>debt.
      and_then (cdp_checked_add (total_debt s) i) (\<lambda>td.
      and_then (cdp_checked_add (cdp_total_stable_supply s) i) (\<lambda>ts.
        Ok (?p\<lparr>debt_amount := debt\<rparr>, s\<lparr>total_debt_slot := Some td, total_supply_slot := Some ts\<rparr>))))
      else Ok (?p, s)) = Ok (q, s1)" and p: "p = q\<lparr>last_accrual_ledger := sequence e\<rparr>" "s' = write_position u p s1"
    using assms False by (auto simp: accrue_position_def Let_def ok_iff)
  show thesis
  proof (cases "0 < i")
    case True
    then show thesis using q p
      by (intro that [of i]) (auto simp: charge_def read_position_of cdp_checked)
  next
    case False
    then show thesis using q p
      by (intro that [of 0]) (auto simp: charge_0 read_position_of)
  qed
qed

lemma charge_fields:
  assumes "ledger_of s1 = charge u i (ledger_of s)"
  shows "coll_of s1 = (coll_of s)(u \<mapsto> get0 (coll_of s) u)" "debt_of s1 = (debt_of s)(u \<mapsto> get0 (debt_of s) u + i)"
    "stable_balances s1 = stable_balances s" "total_collateral s1 = total_collateral s" "total_debt s1 = total_debt s + i"
    "cdp_total_stable_supply s1 = cdp_total_stable_supply s + i"
    "cdp_protocol_collateral_reserves s1 = cdp_protocol_collateral_reserves s" "cdp_total_bad_debt s1 = cdp_total_bad_debt s"
  using assms by (simp_all add: ledger_of_def charge_def)

lemma deposit_ok:
  assumes "cdp_deposit_collateral tr pr e u n s t = Ok (p, s', t')"
  obtains i k where "0 \<le> i" "0 < n" "authorized e u" "tr (invoke_env e k) u (self e) n t = Ok t'"
    "collateral_token s = Some k" "ledger_of s' = lock u n (charge u i (ledger_of s))" "config_of s' = config_of s"
proof -
  obtain k q s1 where q: "accrue_position pr e u s = Ok (q, s1)" "collateral_token s = Some k" "0 < n" "authorized e u"
    "tr (invoke_env e k) u (self e) n t = Ok t'" "s' = (write_position u (q\<lparr>collateral_amount := collateral_amount q + n\<rparr>) s1)
      \<lparr>total_collateral_slot := Some (total_collateral s1 + n)\<rparr>"
    using assms by (auto simp: cdp_deposit_collateral_def Let_def ok_iff cdp_checked)
  obtain i where i: "0 \<le> i" "ledger_of s1 = charge u i (ledger_of s)" "config_of s1 = config_of s"
    "collateral_amount q = get0 (coll_of s) u" "debt_amount q = get0 (debt_of s) u + i"
    by (rule cdp_accrue_ok [OF q(1)])
  have "ledger_of s' = lock u n (charge u i (ledger_of s))"
    by (simp add: q(6) i charge_fields [OF i(2)] lock_def charge_def)
  then show thesis using that i q by simp
qed

lemma withdraw_ok:
  assumes "cdp_withdraw_collateral tr pr e u n s t = Ok (p, s', t')"
  obtains i k where "0 \<le> i" "0 < n" "n \<le> get0 (coll_of s) u" "authorized e u"
    "tr (invoke_env e k) (self e) u n t = Ok t'" "ledger_of s' = lock u (- n) (charge u i (ledger_of s))"
    "config_of s' = config_of s" "ensure_safe pr e p s' = Ok ()" "positions s' u = Some p" "last_accrual_ledger p = sequence e"
proof -
  obtain k q s1 where q: "accrue_position pr e u s = Ok (q, s1)" "0 < n" "authorized e u" "n \<le> collateral_amount q"
    "tr (invoke_env e k) (self e) u n t = Ok t'" "p = q\<lparr>collateral_amount := collateral_amount q - n\<rparr>"
    "ensure_safe pr e p s1 = Ok ()"
    "s' = (write_position u p s1)\<lparr>total_collateral_slot := Some (total_collateral s1 - n)\<rparr>"
    using assms by (auto simp: cdp_withdraw_collateral_def Let_def ok_iff cdp_checked)
  obtain i where i: "0 \<le> i" "ledger_of s1 = charge u i (ledger_of s)" "config_of s1 = config_of s"
    "collateral_amount q = get0 (coll_of s) u" "debt_amount q = get0 (debt_of s) u + i"
    by (rule cdp_accrue_ok [OF q(1)])
  have "ledger_of s' = lock u (- n) (charge u i (ledger_of s))"
    by (simp add: q(6,8) i charge_fields [OF i(2)] lock_def charge_def)
  moreover have "ensure_safe pr e p s' = Ok ()"
    using q(7) by (simp add: q(8) ensure_safe_def oracle_price_def read_risk_params_def write_position_def)
  moreover have "positions s' u = Some p" "last_accrual_ledger p = sequence e" using accrue_last [OF q(1)] by (simp_all add: q(6,8))
  ultimately show thesis using that i q by simp
qed

lemma mint_ok:
  assumes "cdp_mint_stable pr e u n s = Ok (p, s')"
  obtains i where "0 \<le> i" "0 < n" "authorized e u" "ledger_of s' = borrow u u n (charge u i (ledger_of s))"
    "config_of s' = config_of s" "ensure_safe pr e p s' = Ok ()" "positions s' u = Some p" "last_accrual_ledger p = sequence e"
proof -
  obtain q s1 where q: "accrue_position pr e u s = Ok (q, s1)" "0 < n" "authorized e u"
    "p = q\<lparr>debt_amount := debt_amount q + n\<rparr>" "ensure_safe pr e p s1 = Ok ()"
    "s' = (write_position u p (write_stable_balance u (get0 (stable_balances s1) u + n) s1))
      \<lparr>total_debt_slot := Some (total_debt s1 + n), total_supply_slot := Some (cdp_total_stable_supply s1 + n)\<rparr>"
    using assms by (auto simp: cdp_mint_stable_def Let_def ok_iff cdp_checked read_stable_balance_def)
  obtain i where i: "0 \<le> i" "ledger_of s1 = charge u i (ledger_of s)" "config_of s1 = config_of s"
    "collateral_amount q = get0 (coll_of s) u" "debt_amount q = get0 (debt_of s) u + i"
    by (rule cdp_accrue_ok [OF q(1)])
  have "ledger_of s' = borrow u u n (charge u i (ledger_of s))"
    by (simp add: q(4,6) i charge_fields [OF i(2)] borrow_def charge_def)
  moreover have "ensure_safe pr e p s' = Ok ()"
    using q(5) by (simp add: q(6) ensure_safe_def oracle_price_def read_risk_params_def write_position_def write_stable_balance_def)
  moreover have "positions s' u = Some p" "last_accrual_ledger p = sequence e" using accrue_last [OF q(1)] by (simp_all add: q(4,6))
  ultimately show thesis using that i q by simp
qed

lemma if_less_min: "(if b < a then b else a) = min a (b :: int)"
  by (simp add: min_def)

lemma repay_ok:
  assumes "cdp_repay pr e u n s = Ok (p, s')"
  obtains i r where "0 \<le> i" "0 < r" "r \<le> n" "r \<le> get0 (debt_of s) u + i" "r \<le> get0 (stable_balances s) u" "authorized e u"
    "ledger_of s' = borrow u u (- r) (charge u i (ledger_of s))" "config_of s' = config_of s"
proof -
  obtain q s1 r where q: "accrue_position pr e u s = Ok (q, s1)" "authorized e u"
    "r = min (min n (get0 (stable_balances s1) u)) (debt_amount q)" "0 < r"
    "s' = (write_position u (q\<lparr>debt_amount := debt_amount q - r\<rparr>) (write_stable_balance u (get0 (stable_balances s1) u - r) s1))
      \<lparr>total_debt_slot := Some (total_debt s1 - r), total_supply_slot := Some (cdp_total_stable_supply s1 - r)\<rparr>"
    using assms
    by (auto simp: cdp_repay_def Let_def ok_iff cdp_checked read_stable_balance_def if_less_min not_le
        simp del: if_split min_less_iff_conj)
  obtain i where i: "0 \<le> i" "ledger_of s1 = charge u i (ledger_of s)" "config_of s1 = config_of s"
    "collateral_amount q = get0 (coll_of s) u" "debt_amount q = get0 (debt_of s) u + i"
    by (rule cdp_accrue_ok [OF q(1)])
  note f = charge_fields [OF i(2)]
  have "ledger_of s' = borrow u u (- r) (charge u i (ledger_of s))"
    by (simp add: q(5) i f borrow_def charge_def)
  moreover have "r \<le> n" "r \<le> get0 (debt_of s) u + i" "r \<le> get0 (stable_balances s) u" using q(3) i(5) f(3) by simp_all
  moreover have "config_of s' = config_of s" by (simp add: q(5) i(3))
  ultimately show thesis using that [OF i(1) q(4)] q(2) by blast
qed

lemma transfer_stable_ok:
  assumes "cdp_transfer_stable e a b n s = Ok s'"
  shows "0 < n \<and> n \<le> get0 (stable_balances s) a \<and> authorized e a \<and> ledger_of s' = pay a b n (ledger_of s)
    \<and> config_of s' = config_of s"
  using assms by (auto simp: cdp_transfer_stable_def Let_def ok_iff cdp_checked read_stable_balance_def pay_def)

text \<open>What a quote is: the position was below the minimum ratio, and the amounts are bounded.\<close>

definition below_ratio :: "latest_price \<Rightarrow> env \<Rightarrow> position \<Rightarrow> cdp \<Rightarrow> bool" where
  "below_ratio pr e p s = (case oracle_price pr e s of
     Ok price \<Rightarrow> (case (collateral_ratio_bps price (collateral_amount p) (debt_amount p), cdp_risk s) of
       (Ok ratio, Some params) \<Rightarrow> ratio < min_collateral_ratio_bps params | _ \<Rightarrow> False) | _ \<Rightarrow> False)"

definition risk_ok :: "cdp \<Rightarrow> bool" where
  "risk_ok s = ((case cdp_risk s of None \<Rightarrow> True
       | Some r \<Rightarrow> 10000 < min_collateral_ratio_bps r \<and> 0 \<le> liquidation_incentive_bps r)
     \<and> (case cdp_model s of None \<Rightarrow> True
       | Some m \<Rightarrow> 0 < optimal_utilization_bps m \<and> optimal_utilization_bps m < 10000))"

lemma oracle_price_pos: "oracle_price pr e s = Ok price \<Longrightarrow> 0 < price"
  by (auto simp: oracle_price_def ok_iff)

lemma unhealthy_ok:
  assumes "require_unhealthy pr e p s = Ok (r, price)"
  shows "below_ratio pr e p s \<and> oracle_price pr e s = Ok price \<and> cdp_risk s = Some r \<and> 0 < price"
  using assms by (auto simp: require_unhealthy_def below_ratio_def read_risk_params_def ok_iff oracle_price_pos)

lemma quote_for_ok:
  assumes "quote_for e r price p n = Ok q" and "overflow_checks e" and "0 \<le> liquidation_incentive_bps r" and "0 < n"
    and "0 < price"
  shows "n + incentive_amount q = n * (10000 + liquidation_incentive_bps r) div 10000"
    "collateral_to_seize q = min ((n + incentive_amount q) * 10000000 div price) (collateral_amount p)"
    "0 \<le> n + incentive_amount q"
proof -
  obtain v z where v: "div_i128 (n * (10000 + liquidation_incentive_bps r)) 10000 = (Ok v :: (_, cdp_error) result)"
    and z: "div_i128 (v * PRICE_SCALE) price = (Ok z :: (_, cdp_error) result)"
    and q: "incentive_amount q = v - n" "collateral_to_seize q = min z (collateral_amount p)"
    using assms(1,2)
    by (auto simp: quote_for_def Let_def plain_i128_checked cdp_checked cdp_BPS_def if_less_min simp del: if_split)
  have "v = n * (10000 + liquidation_incentive_bps r) div 10000" using v assms(3,4) by (simp add: div_i128_pos)
  moreover from this have pos: "0 \<le> v" using assms(3,4) by (simp add: pos_imp_zdiv_nonneg_iff)
  moreover have "z = v * 10000000 div price" using z pos assms(5) by (simp add: div_i128_pos PRICE_SCALE_def)
  moreover have nv: "n + incentive_amount q = v" using q(1) by simp
  ultimately show "n + incentive_amount q = n * (10000 + liquidation_incentive_bps r) div 10000"
    "collateral_to_seize q = min ((n + incentive_amount q) * 10000000 div price) (collateral_amount p)"
    "0 \<le> n + incentive_amount q" unfolding nv q(2) by blast+
qed

lemma quote_for_repay: "quote_for e r price p n = Ok q \<Longrightarrow> repay_amount q = n"
  by (auto simp: quote_for_def Let_def)

lemma quote_ok:
  assumes "cdp_quote_liquidation pr e b n s = Ok (q, s')"
  obtains p price r c where "accrue_position pr e b s = Ok (p, s')" "require_unhealthy pr e p s' = Ok (r, price)"
    "max_coverable_repay e r price p = Ok c" "repay_amount q = min (min n (debt_amount p)) c" "0 < repay_amount q"
    "quote_for e r price p (repay_amount q) = Ok q"
proof -
  obtain p price r c where p: "accrue_position pr e b s = Ok (p, s')" "require_unhealthy pr e p s' = Ok (r, price)"
    "max_coverable_repay e r price p = Ok c" "0 < min (min n (debt_amount p)) c"
    "quote_for e r price p (min (min n (debt_amount p)) c) = Ok q"
    using assms by (auto simp: cdp_quote_liquidation_def Let_def ok_iff not_le simp del: if_split min_less_iff_conj)
  then show thesis using that [OF p(1-3)] quote_for_repay [OF p(5)] by metis
qed

lemma coverable_ok:
  assumes "max_coverable_repay e r price p = Ok c" and "overflow_checks e" and "0 \<le> liquidation_incentive_bps r"
    and "0 < price" and "0 \<le> collateral_amount p"
  shows "c = collateral_amount p * price div 10000000 * 10000 div (10000 + liquidation_incentive_bps r)" "0 \<le> c"
proof -
  have "0 \<le> collateral_amount p * price" using assms(4,5) by simp
  then show c: "c = collateral_amount p * price div 10000000 * 10000 div (10000 + liquidation_incentive_bps r)"
    using assms(1-4)
    by (auto simp: max_coverable_repay_def collateral_value_def cdp_checked plain_i128_checked cdp_BPS_def PRICE_SCALE_def
        div_i128_pos pos_imp_zdiv_nonneg_iff)
  show "0 \<le> c" unfolding c using assms(3-5) by (simp add: pos_imp_zdiv_nonneg_iff)
qed

lemma risk_config: "config_of s' = config_of s \<Longrightarrow> cdp_risk s' = cdp_risk s \<and> risk_ok s' = risk_ok s"
  by (simp add: config_of_def risk_ok_def)

lemma liquidate_ok:
  assumes "cdp_liquidate tr pr e l b n s t = Ok (q, s', t')" and "overflow_checks e" and "risk_ok s"
    and "0 \<le> get0 (coll_of s) b"
  obtains i k p s1 where "accrue_position pr e b s = Ok (p, s1)" "below_ratio pr e p s1" "config_of s' = config_of s"
    "debt_amount p = get0 (debt_of s) b + i" "0 \<le> i" "0 < repay_amount q" "repay_amount q \<le> get0 (debt_of s) b + i" "repay_amount q \<le> get0 (stable_balances s) l"
    "0 \<le> collateral_to_seize q" "collateral_to_seize q \<le> get0 (coll_of s) b" "authorized e l"
    "tr (invoke_env e k) (self e) l (collateral_to_seize q) t = Ok t'"
    "ledger_of s' = lock b (- collateral_to_seize q) (borrow b l (- repay_amount q) (charge b i (ledger_of s)))"
proof -
  let ?r = "repay_amount q" and ?c = "collateral_to_seize q"
  obtain s1 k where q: "cdp_quote_liquidation pr e b n s = Ok (q, s1)" "authorized e l" "?r \<le> get0 (stable_balances s1) l"
    "tr (invoke_env e k) (self e) l ?c t = Ok t'"
    and s': "s' = (write_position b ((read_position e b s1)\<lparr>debt_amount := debt_amount (read_position e b s1) - ?r,
          collateral_amount := collateral_amount (read_position e b s1) - ?c\<rparr>)
        (write_stable_balance l (get0 (stable_balances s1) l - ?r) s1))\<lparr>total_debt_slot := Some (total_debt s1 - ?r),
      total_supply_slot := Some (cdp_total_stable_supply s1 - ?r), total_collateral_slot := Some (total_collateral s1 - ?c)\<rparr>"
    using assms(1) by (auto simp: cdp_liquidate_def Let_def ok_iff cdp_checked read_stable_balance_def not_less)
  obtain p price r c where p: "accrue_position pr e b s = Ok (p, s1)" "require_unhealthy pr e p s1 = Ok (r, price)"
    "?r = min (min n (debt_amount p)) c" "0 < ?r" "quote_for e r price p ?r = Ok q" by (rule quote_ok [OF q(1)])
  obtain i where i: "0 \<le> i" "ledger_of s1 = charge b i (ledger_of s)" "config_of s1 = config_of s"
    "collateral_amount p = get0 (coll_of s) b" "debt_amount p = get0 (debt_of s) b + i" by (rule cdp_accrue_ok [OF p(1)])
  note f = charge_fields [OF i(2)] and u = unhealthy_ok [OF p(2)]
  have "0 \<le> liquidation_incentive_bps r" using u assms(3) risk_config [OF i(3)] by (simp add: risk_ok_def)
  note z = quote_for_ok [OF p(5) assms(2) this p(4) conjunct2 [OF conjunct2 [OF conjunct2 [OF u]]]]
  have "0 \<le> (?r + incentive_amount q) * 10000000 div price"
    using z(3) u by (simp add: pos_imp_zdiv_nonneg_iff)
  then have "0 \<le> ?c" "?c \<le> get0 (coll_of s) b" using z(2) assms(4) i(4) by simp_all
  moreover have "ledger_of s' = lock b (- ?c) (borrow b l (- ?r) (charge b i (ledger_of s)))"
    by (simp add: s' i f read_position_of lock_def borrow_def charge_def)
  moreover have "config_of s' = config_of s" by (simp add: s' i(3))
  moreover have "?r \<le> get0 (debt_of s) b + i" "?r \<le> get0 (stable_balances s) l" using p(3) i(5) q(3) f(3) by simp_all
  ultimately show thesis using that [OF p(1) conjunct1 [OF u] _ i(5,1) p(4)] q(2,4) by blast
qed

lemma self_liquidate_ok:
  assumes "cdp_self_liquidate pr e b s = Ok (p', s')" and "overflow_checks e" and "risk_ok s"
    and "0 \<le> get0 (coll_of s) b" and "0 \<le> get0 (debt_of s) b"
  obtains i bad p s1 where "accrue_position pr e b s = Ok (p, s1)" "below_ratio pr e p s1" "config_of s' = config_of s"
    "0 \<le> i" "0 \<le> bad" "bad \<le> get0 (debt_of s) b + i" "ledger_of s' = seize b bad (charge b i (ledger_of s))"
proof -
  obtain p s1 r price c bad where p: "accrue_position pr e b s = Ok (p, s1)" "require_unhealthy pr e p s1 = Ok (r, price)"
    "max_coverable_repay e r price p = Ok c" and bad: "bad = (if c < debt_amount p then debt_amount p - c else 0)"
    and s': "s' = write_position b \<lparr>collateral_amount = 0, debt_amount = 0, last_accrual_ledger = sequence e\<rparr>
      (s1\<lparr>reserves_slot := Some (cdp_protocol_collateral_reserves s1 + collateral_amount p),
         bad_debt_slot := Some (cdp_total_bad_debt s1 + bad), total_debt_slot := Some (total_debt s1 - (debt_amount p - bad)),
         total_collateral_slot := Some (total_collateral s1 - collateral_amount p)\<rparr>)"
    using assms(1,2)
    by (auto simp: cdp_self_liquidate_def Let_def ok_iff cdp_checked plain_i128_checked split: if_splits)
  obtain i where i: "0 \<le> i" "ledger_of s1 = charge b i (ledger_of s)" "config_of s1 = config_of s"
    "collateral_amount p = get0 (coll_of s) b" "debt_amount p = get0 (debt_of s) b + i" by (rule cdp_accrue_ok [OF p(1)])
  note f = charge_fields [OF i(2)] and u = unhealthy_ok [OF p(2)]
  have "0 \<le> liquidation_incentive_bps r" using u assms(3) risk_config [OF i(3)] by (simp add: risk_ok_def)
  then have "0 \<le> c" using coverable_ok(2) [OF p(3) assms(2)] u assms(4) i(4) by simp
  then have "0 \<le> bad" "bad \<le> get0 (debt_of s) b + i" using bad i(1,5) assms(5) by auto
  moreover have "ledger_of s' = seize b bad (charge b i (ledger_of s))"
    by (simp add: s' i f seize_def charge_def)
  moreover have "config_of s' = config_of s" by (simp add: s' i(3))
  ultimately show thesis using that [OF p(1) conjunct1 [OF u] _ i(1)] by blast
qed

section \<open>Histories\<close>

text \<open>Before the initialization nothing is configured and every amount is zero.\<close>

definition pristine :: "cdp \<Rightarrow> bool" where
  "pristine s \<longleftrightarrow> collateral_token s = None \<and> oracle_slot s = None \<and> cdp_risk s = None
     \<and> (\<forall>u. get0 (stable_balances s) u = 0) \<and> total_collateral s = 0 \<and> total_debt s = 0
     \<and> cdp_total_stable_supply s = 0 \<and> cdp_protocol_collateral_reserves s = 0 \<and> cdp_total_bad_debt s = 0"

definition cdp_good :: "cdp \<Rightarrow> bool" where
  "cdp_good s \<longleftrightarrow> books (ledger_of s) \<and> risk_ok s \<and> (cdp_admin_slot s = None \<longrightarrow> pristine s)"

lemma accrue_config: "accrue_position pr e u s = Ok (p, s') \<Longrightarrow> config_of s' = config_of s"
  by (erule cdp_accrue_ok)

lemma pristine_calls:
  assumes "cdp_exec tr pr e c s t = Ok (s', t')" and "pristine s" and "cdp_admin_slot s = None"
  shows "\<exists>a k r m i b s1 s2 u. c = cdp_call.Initialize a k r m i b s1 s2 u"
proof -
  have un: "require_unhealthy pr e p s1 \<noteq> Ok x" if "accrue_position pr e u s = Ok (p, s1)" for u p s1 x
    using accrue_config [OF that] assms(2) by (cases x) (auto simp: require_unhealthy_def read_risk_params_def config_of_def pristine_def)
  have safe: "ensure_safe pr e q s1 \<noteq> Ok ()" if "accrue_position pr e u s = Ok (p, s1)" for u p s1 q
    using accrue_config [OF that] assms(2) by (auto simp: ensure_safe_def oracle_price_def config_of_def pristine_def)
  have bal: "get0 (stable_balances s1) u = 0" if a: "accrue_position pr e u s = Ok (p, s1)" for u p s1
  proof -
    obtain i where "ledger_of s1 = charge u i (ledger_of s)" by (rule cdp_accrue_ok [OF a])
    then show ?thesis using assms(2) by (simp add: charge_fields pristine_def)
  qed
  show ?thesis using assms un safe bal
    by (cases c) (auto simp: cdp_keep_def cdp_drop_def cdp_moved_def cdp_set_oracle_def cdp_require_admin_def
        cdp_deposit_collateral_def cdp_withdraw_collateral_def cdp_mint_stable_def cdp_repay_def cdp_transfer_stable_def
        cdp_quote_liquidation_def cdp_liquidate_def cdp_self_liquidate_def read_stable_balance_def pristine_def ok_iff Let_def
        simp del: if_split)
qed

lemma cdp_initialize_ok:
  assumes "cdp_initialize a k r m i b s1 s2 u s = Ok s'" and "cdp_good s"
  shows "ledger_of s' = ledger_of s \<and> risk_ok s' \<and> cdp_admin_slot s' \<noteq> None"
proof -
  have "pristine s" "s' = s\<lparr>cdp_admin_slot := Some a, collateral_token := Some k, oracle_slot := Some r,
        cdp_risk := Some \<lparr>min_collateral_ratio_bps = m, liquidation_incentive_bps = i\<rparr>,
        cdp_model := Some \<lparr>base_rate_bps = b, slope1_bps = s1, slope2_bps = s2, optimal_utilization_bps = u\<rparr>,
        total_collateral_slot := Some 0, total_debt_slot := Some 0, total_supply_slot := Some 0,
        reserves_slot := Some 0, bad_debt_slot := Some 0\<rparr>" "10000 < m" "0 \<le> i" "0 < u" "u < 10000"
    using assms by (auto simp: cdp_initialize_def cdp_good_def cdp_BPS_def ok_iff)
  then show ?thesis
    by (simp add: pristine_def risk_ok_def ledger_of_def coll_of_def [abs_def] debt_of_def [abs_def] total_collateral_def
        total_debt_def cdp_total_stable_supply_def cdp_protocol_collateral_reserves_def cdp_total_bad_debt_def)
qed

lemma cdp_config_good:
  assumes "posting (ledger_of s) (ledger_of s')" and "config_of s' = config_of s" and "cdp_good s" and "cdp_admin_slot s \<noteq> None"
  shows "cdp_good s'"
proof -
  have "\<exists>a. cdp_admin_slot s' = Some a" using assms(2,4) by (auto simp: config_of_def)
  moreover have "books (ledger_of s')" "risk_ok s'"
    using posting_books [OF assms(1)] risk_config [OF assms(2)] assms(3) by (simp_all add: cdp_good_def)
  ultimately show ?thesis by (auto simp: cdp_good_def)
qed

lemma good_nonneg: "cdp_good s \<Longrightarrow> 0 \<le> get0 (coll_of s) u \<and> 0 \<le> get0 (debt_of s) u"
  by (simp add: cdp_good_def books_def)

lemma op_postings:
  "cdp_deposit_collateral tr pr e u n s t = Ok (p, s', t') \<Longrightarrow> 0 \<le> get0 (coll_of s) u \<Longrightarrow>
    posting (ledger_of s) (ledger_of s') \<and> config_of s' = config_of s"
  "cdp_withdraw_collateral tr pr e u n s t = Ok (p, s', t') \<Longrightarrow> posting (ledger_of s) (ledger_of s') \<and> config_of s' = config_of s"
  "cdp_mint_stable pr e u n s = Ok (p, s') \<Longrightarrow> posting (ledger_of s) (ledger_of s') \<and> config_of s' = config_of s"
  "cdp_repay pr e u n s = Ok (p, s') \<Longrightarrow> posting (ledger_of s) (ledger_of s') \<and> config_of s' = config_of s"
  "cdp_transfer_stable e a b n s = Ok s' \<Longrightarrow> posting (ledger_of s) (ledger_of s') \<and> config_of s' = config_of s"
  "accrue_position pr e u s = Ok (p, s') \<Longrightarrow> posting (ledger_of s) (ledger_of s') \<and> config_of s' = config_of s"
  subgoal by (erule deposit_ok) (simp add: p_lock)
  subgoal by (erule withdraw_ok) (simp add: p_lock)
  subgoal by (erule mint_ok) (simp add: p_borrow)
  subgoal by (erule repay_ok) (simp add: p_repay)
  subgoal by (drule transfer_stable_ok) (simp add: p_pay)
  subgoal by (erule cdp_accrue_ok) (simp add: p_charge)
  done

text \<open>Every accepted call is a posting of the ledger and keeps the configuration's guarantees.\<close>

lemma cdp_exec_posting:
  assumes "cdp_exec tr pr e c s t = Ok (s', t')" and "overflow_checks e" and "cdp_good s"
  shows "posting (ledger_of s) (ledger_of s') \<and> cdp_good s'"
proof (cases "cdp_admin_slot s = None")
  case True
  then have "pristine s" using assms(3) by (simp add: cdp_good_def)
  then obtain a k r m i b s1 s2 u where "c = cdp_call.Initialize a k r m i b s1 s2 u"
    using pristine_calls [OF assms(1) _ True] by blast
  then have "cdp_initialize a k r m i b s1 s2 u s = Ok s'" using assms(1) by (simp add: cdp_keep_def)
  from cdp_initialize_ok [OF this assms(3)] obtain a where s': "ledger_of s' = ledger_of s" "risk_ok s'" "cdp_admin_slot s' = Some a"
    by auto
  moreover have "books (ledger_of s)" using assms(3) by (simp add: cdp_good_def)
  ultimately show ?thesis by (simp add: cdp_good_def p_none)
next
  case False
  have risk: "risk_ok s" using assms(3) by (simp add: cdp_good_def)
  note nn = good_nonneg [OF assms(3)]
  have "posting (ledger_of s) (ledger_of s') \<and> (config_of s' = config_of s \<or> cdp_good s')"
  proof (cases c)
    case (Initialize a k r m i b s1 s2 u)
    then show ?thesis using assms(1) False by (auto simp: cdp_keep_def cdp_initialize_def)
  next
    case (SetOracle r)
    then have "s' = s\<lparr>oracle_slot := Some r\<rparr>" using assms(1) by (auto simp: cdp_keep_def cdp_set_oracle_def)
    then show ?thesis using assms(3) False by (auto simp: cdp_good_def risk_ok_def p_none)
  next
    case (DepositCollateral u n)
    then obtain p where "cdp_deposit_collateral tr pr e u n s t = Ok (p, s', t')" using assms(1) by (auto simp: cdp_moved_def)
    from op_postings(1) [OF this conjunct1 [OF nn]] show ?thesis by blast
  next
    case (WithdrawCollateral u n)
    then obtain p where "cdp_withdraw_collateral tr pr e u n s t = Ok (p, s', t')" using assms(1) by (auto simp: cdp_moved_def)
    from op_postings(2) [OF this] show ?thesis by blast
  next
    case (MintStable u n)
    then obtain p where "cdp_mint_stable pr e u n s = Ok (p, s')" using assms(1) by (auto simp: cdp_drop_def)
    from op_postings(3) [OF this] show ?thesis by blast
  next
    case (Repay u n)
    then obtain p where "cdp_repay pr e u n s = Ok (p, s')" using assms(1) by (auto simp: cdp_drop_def)
    from op_postings(4) [OF this] show ?thesis by blast
  next
    case (TransferStable a b n)
    then have "cdp_transfer_stable e a b n s = Ok s'" using assms(1) by (auto simp: cdp_keep_def)
    from op_postings(5) [OF this] show ?thesis by blast
  next
    case (QuoteLiquidation b n)
    then obtain q where "cdp_quote_liquidation pr e b n s = Ok (q, s')" using assms(1) by (auto simp: cdp_drop_def)
    then obtain p where "accrue_position pr e b s = Ok (p, s')" by (rule quote_ok)
    from op_postings(6) [OF this] show ?thesis by blast
  next
    case (Liquidate l b n)
    then obtain q where "cdp_liquidate tr pr e l b n s t = Ok (q, s', t')" using assms(1) by (auto simp: cdp_moved_def)
    then show ?thesis by (rule liquidate_ok [OF _ assms(2) risk conjunct1 [OF nn]]) (simp add: p_liquidate)
  next
    case (SelfLiquidate b)
    then obtain p where "cdp_self_liquidate pr e b s = Ok (p, s')" using assms(1) by (auto simp: cdp_drop_def)
    then show ?thesis
      by (rule self_liquidate_ok [OF _ assms(2) risk conjunct1 [OF nn] conjunct2 [OF nn]]) (simp add: p_seize)
  qed
  then show ?thesis using cdp_config_good [OF _ _ assms(3) False] by blast
qed

text \<open>Collateral in the books, of users and of the protocol, is held by the contract.\<close>

definition held_by :: "'t balance \<Rightarrow> address \<Rightarrow> cdp \<Rightarrow> 't \<Rightarrow> bool" where
  "held_by ba v s t \<longleftrightarrow> total_collateral s + cdp_protocol_collateral_reserves s \<le> ba t v"

definition stock :: "ledger \<Rightarrow> i128" where
  "stock L = l_tc L + l_rsv L"

lemma stock_postings [simp]:
  "stock (charge u i L) = stock L" "stock (lock u n L) = stock L + n" "stock (borrow u a n L) = stock L"
  "stock (pay a b n L) = stock L" "stock (seize u bad L) = stock L"
  by (simp_all add: stock_def charge_def lock_def borrow_def pay_def seize_def Let_def)

lemma held_stock: "held_by ba v s t \<longleftrightarrow> stock (ledger_of s) \<le> ba t v"
  by (simp add: held_by_def stock_def)

lemma op_stocks:
  "cdp_mint_stable pr e u n s = Ok (p, s') \<Longrightarrow> stock (ledger_of s') = stock (ledger_of s)"
  "cdp_repay pr e u n s = Ok (p, s') \<Longrightarrow> stock (ledger_of s') = stock (ledger_of s)"
  "cdp_transfer_stable e a b n s = Ok s' \<Longrightarrow> stock (ledger_of s') = stock (ledger_of s)"
  "cdp_quote_liquidation pr e b n s = Ok (q, s') \<Longrightarrow> stock (ledger_of s') = stock (ledger_of s)"
  subgoal by (erule mint_ok) simp
  subgoal by (erule repay_ok) simp
  subgoal by (drule transfer_stable_ok) simp
  subgoal by (erule quote_ok, erule cdp_accrue_ok) simp
  done

text \<open>Calls that leave the token alone keep the stock, except for the initialization, which needs no token.\<close>

lemma cdp_exec_stock:
  assumes "cdp_exec tr pr e c s t = Ok (s', t')" and "overflow_checks e" and "cdp_good s"
    and "\<And>u n. c \<noteq> DepositCollateral u n" "\<And>u n. c \<noteq> WithdrawCollateral u n" "\<And>l b n. c \<noteq> Liquidate l b n"
  shows "stock (ledger_of s') = stock (ledger_of s) \<and> t' = t"
proof (cases c)
  case (Initialize a k r m i b s1 s2 u)
  then have "cdp_initialize a k r m i b s1 s2 u s = Ok s'" "t' = t" using assms(1) by (auto simp: cdp_keep_def)
  then show ?thesis using cdp_initialize_ok [OF _ assms(3)] by metis
next
  case (SelfLiquidate b)
  then obtain p where p: "cdp_self_liquidate pr e b s = Ok (p, s')" "t' = t" using assms(1) by (auto simp: cdp_drop_def)
  have "risk_ok s" using assms(3) by (simp add: cdp_good_def)
  then show ?thesis
    using p good_nonneg [OF assms(3)] by - (rule self_liquidate_ok [OF p(1) assms(2)], simp_all)
qed (use assms in \<open>auto simp: cdp_keep_def cdp_drop_def cdp_set_oracle_def dest: op_stocks\<close>)

context token_iface
begin

lemma cdp_receive:
  assumes "transfer (invoke_env e k) u (self e) n t = Ok t'" and "authorized e u" and "\<not> authorized e (self e)"
    and "sound t" and "0 < n"
  shows "sound t' \<and> balance t' (self e) = balance t (self e) + n"
proof -
  have "u \<noteq> self e" using assms(2,3) by auto
  then show ?thesis using transfer_pair [OF assms(1,4)] transfer_sound [OF assms(1,4)] assms(5) by simp
qed

lemma cdp_send:
  assumes "transfer (invoke_env e k) (self e) u n t = Ok t'" and "authorized e u" and "\<not> authorized e (self e)"
    and "sound t" and "0 \<le> n"
  shows "sound t' \<and> balance t' (self e) = balance t (self e) - n"
proof -
  have "u \<noteq> self e" using assms(2,3) by auto
  then show ?thesis using transfer_pair [OF assms(1,4)] transfer_sound [OF assms(1,4)] assms(5) by simp
qed

lemma cdp_exec_held:
  assumes "cdp_exec transfer pr e c s t = Ok (s', t')" and "overflow_checks e" and "\<not> authorized e (self e)"
    and "cdp_good s" and "sound t" and "held_by balance (self e) s t"
  shows "sound t' \<and> held_by balance (self e) s' t'"
proof -
  have stock: "stock (ledger_of s) \<le> balance t (self e)" using assms(6) by (simp add: held_stock)
  consider (dep) u n where "c = DepositCollateral u n" | (wit) u n where "c = WithdrawCollateral u n"
    | (liq) l b n where "c = Liquidate l b n" | (other) "\<And>u n. c \<noteq> DepositCollateral u n"
      "\<And>u n. c \<noteq> WithdrawCollateral u n" "\<And>l b n. c \<noteq> Liquidate l b n" by blast
  then show ?thesis
  proof cases
    case dep
    then obtain p where "cdp_deposit_collateral transfer pr e u n s t = Ok (p, s', t')"
      using assms(1) by (auto simp: cdp_moved_def)
    then obtain i k where a: "0 < n" "authorized e u" "transfer (invoke_env e k) u (self e) n t = Ok t'"
      "ledger_of s' = lock u n (charge u i (ledger_of s))" by (rule deposit_ok)
    then show ?thesis using cdp_receive [OF a(3,2) assms(3,5) a(1)] stock by (simp add: held_stock)
  next
    case wit
    then obtain p where "cdp_withdraw_collateral transfer pr e u n s t = Ok (p, s', t')"
      using assms(1) by (auto simp: cdp_moved_def)
    then obtain i k where a: "0 < n" "authorized e u" "transfer (invoke_env e k) (self e) u n t = Ok t'"
      "ledger_of s' = lock u (- n) (charge u i (ledger_of s))" by (rule withdraw_ok)
    then show ?thesis using cdp_send [OF a(3,2) assms(3,5)] stock by (simp add: held_stock)
  next
    case liq
    then obtain q where q: "cdp_liquidate transfer pr e l b n s t = Ok (q, s', t')"
      using assms(1) by (auto simp: cdp_moved_def)
    have "risk_ok s" using assms(4) by (simp add: cdp_good_def)
    from q assms(2) this conjunct1 [OF good_nonneg [OF assms(4)]] obtain i k where
      a: "0 \<le> collateral_to_seize q" "authorized e l" "transfer (invoke_env e k) (self e) l (collateral_to_seize q) t = Ok t'"
        "ledger_of s' = lock b (- collateral_to_seize q) (borrow b l (- repay_amount q) (charge b i (ledger_of s)))"
      by (rule liquidate_ok)
    then show ?thesis using cdp_send [OF a(3,2) assms(3,5) a(1)] stock by (simp add: held_stock)
  next
    case other
    from cdp_exec_stock [OF assms(1,2,4) this] show ?thesis using assms(5) stock by (simp add: held_stock)
  qed
qed

lemma cdp_run_ok: "cdp_run transfer balance sound v s t \<Longrightarrow> sound t \<and> cdp_good s \<and> held_by balance v s t"
proof (induction rule: cdp_run.induct)
  case (cdp_start t)
  have "cdp_good fresh_cdp" "ledger_of fresh_cdp = \<lparr>l_coll = Map.empty, l_debt = Map.empty, l_bal = Map.empty, l_tc = 0,
      l_td = 0, l_ts = 0, l_rsv = 0, l_bad = 0\<rparr>"
    by (simp_all add: cdp_good_def books_def risk_ok_def pristine_def ledger_of_def fresh_cdp_def coll_of_def [abs_def]
        debt_of_def [abs_def] total_collateral_def total_debt_def cdp_total_stable_supply_def
        cdp_protocol_collateral_reserves_def cdp_total_bad_debt_def)
  then show ?case using cdp_start balance_range by (simp add: held_stock stock_def)
next
  case (cdp_call s t e pr c s' t')
  then show ?case using cdp_exec_posting [OF cdp_call.hyps(5,3)] cdp_exec_held [OF cdp_call.hyps(5,3)] by auto
next
  case (cdp_other s t t')
  then show ?case by (auto simp: held_by_def)
qed

end

section \<open>Losses and liquidations\<close>

text \<open>What a posting takes from an account.\<close>

lemma get0_lock: "get0 (l_coll (lock u n L)) w = get0 (l_coll L) w + (if w = u then n else 0)"
  by (simp add: lock_def)

lemma get0_borrow_bal: "get0 (l_bal (borrow u a n L)) w = get0 (l_bal L) w + (if w = a then n else 0)"
  by (simp add: borrow_def)

lemma frame_bal [simp]: "l_bal (lock u n L) = l_bal L" "l_bal (seize u n L) = l_bal L"
  by (simp_all add: lock_def seize_def)

lemma frame_coll [simp]: "l_coll (pay a b n L) = l_coll L"
  by (simp add: pay_def Let_def)

lemma get0_seize: "get0 (l_coll (seize u n L)) w = (if w = u then 0 else get0 (l_coll L) w)"
  by (simp add: seize_def)

lemma get0_pay: "0 < n \<Longrightarrow> w \<noteq> a \<Longrightarrow> get0 (l_bal L) w \<le> get0 (l_bal (pay a b n L)) w"
  by (simp add: pay_def Let_def)

lemmas by_ledger = ledger_sel(1,3) [symmetric]

definition below_at :: "latest_price \<Rightarrow> env \<Rightarrow> address \<Rightarrow> cdp \<Rightarrow> bool" where
  "below_at pr e u s = (case accrue_position pr e u s of Ok (p, s1) \<Rightarrow> below_ratio pr e p s1 | _ \<Rightarrow> False)"

lemma op_losses:
  "cdp_deposit_collateral tr pr e u n s t = Ok (p, s', t') \<Longrightarrow>
    get0 (coll_of s) w \<le> get0 (coll_of s') w \<and> stable_balances s' = stable_balances s"
  "cdp_withdraw_collateral tr pr e u n s t = Ok (p, s', t') \<Longrightarrow> stable_balances s' = stable_balances s
    \<and> (w \<noteq> u \<longrightarrow> get0 (coll_of s') w = get0 (coll_of s) w) \<and> authorized e u"
  "cdp_mint_stable pr e u n s = Ok (p, s') \<Longrightarrow>
    get0 (coll_of s') w = get0 (coll_of s) w \<and> get0 (stable_balances s) w \<le> get0 (stable_balances s') w"
  "cdp_repay pr e u n s = Ok (p, s') \<Longrightarrow> get0 (coll_of s') w = get0 (coll_of s) w \<and> authorized e u
    \<and> (w \<noteq> u \<longrightarrow> get0 (stable_balances s') w = get0 (stable_balances s) w)"
  "cdp_transfer_stable e a b n s = Ok s' \<Longrightarrow> coll_of s' = coll_of s \<and> authorized e a
    \<and> (w \<noteq> a \<longrightarrow> get0 (stable_balances s) w \<le> get0 (stable_balances s') w)"
  "accrue_position pr e u s = Ok (p, s') \<Longrightarrow>
    get0 (coll_of s') w = get0 (coll_of s) w \<and> stable_balances s' = stable_balances s"
  subgoal by (erule deposit_ok) (simp add: by_ledger get0_lock del: ledger_sel)
  subgoal by (erule withdraw_ok) (simp add: by_ledger get0_lock del: ledger_sel)
  subgoal by (erule mint_ok) (simp add: by_ledger get0_borrow_bal del: ledger_sel)
  subgoal by (erule repay_ok) (simp add: by_ledger get0_borrow_bal del: ledger_sel)
  subgoal by (drule transfer_stable_ok) (simp add: by_ledger get0_pay del: ledger_sel)
  subgoal by (erule cdp_accrue_ok) (simp add: by_ledger del: ledger_sel)
  done

lemma liquidation_losses:
  assumes "cdp_liquidate tr pr e l b n s t = Ok (q, s', t')" and "overflow_checks e" and "cdp_good s"
  shows "below_at pr e b s \<and> authorized e l \<and> (w \<noteq> b \<longrightarrow> get0 (coll_of s') w = get0 (coll_of s) w)
    \<and> (w \<noteq> l \<longrightarrow> get0 (stable_balances s') w = get0 (stable_balances s) w)"
proof -
  have "risk_ok s" using assms(3) by (simp add: cdp_good_def)
  with assms(1,2) obtain i p s1 where "accrue_position pr e b s = Ok (p, s1)" "below_ratio pr e p s1" "authorized e l"
    "ledger_of s' = lock b (- collateral_to_seize q) (borrow b l (- repay_amount q) (charge b i (ledger_of s)))"
    using conjunct1 [OF good_nonneg [OF assms(3)]] by (rule liquidate_ok)
  then show ?thesis by (simp add: by_ledger get0_lock get0_borrow_bal below_at_def del: ledger_sel)
qed

lemma self_liquidation_losses:
  assumes "cdp_self_liquidate pr e b s = Ok (p, s')" and "overflow_checks e" and "cdp_good s"
  shows "below_at pr e b s \<and> (w \<noteq> b \<longrightarrow> get0 (coll_of s') w = get0 (coll_of s) w) \<and> stable_balances s' = stable_balances s"
proof -
  have "risk_ok s" using assms(3) by (simp add: cdp_good_def)
  with assms(1,2) obtain i bad p s1 where "accrue_position pr e b s = Ok (p, s1)" "below_ratio pr e p s1"
    "ledger_of s' = seize b bad (charge b i (ledger_of s))"
    using conjunct1 [OF good_nonneg [OF assms(3)]] conjunct2 [OF good_nonneg [OF assms(3)]] by (rule self_liquidate_ok)
  then show ?thesis by (simp add: by_ledger get0_seize below_at_def del: ledger_sel)
qed

lemma cdp_exec_losses:
  assumes "cdp_exec tr pr e c s t = Ok (s', t')" and "overflow_checks e" and "cdp_good s"
  shows "(get0 (coll_of s') w < get0 (coll_of s) w \<longrightarrow> authorized e w \<or> below_at pr e w s)
    \<and> (get0 (stable_balances s') w < get0 (stable_balances s) w \<longrightarrow> authorized e w)"
proof (cases c)
  case (Initialize a k r m i b s1 s2 u)
  then have "cdp_initialize a k r m i b s1 s2 u s = Ok s'" using assms(1) by (auto simp: cdp_keep_def)
  from cdp_initialize_ok [OF this assms(3)] show ?thesis by (simp add: by_ledger del: ledger_sel)
next
  case (SetOracle r)
  then have "s' = s\<lparr>oracle_slot := Some r\<rparr>" using assms(1) by (auto simp: cdp_keep_def cdp_set_oracle_def)
  then show ?thesis by (simp add: coll_of_def [abs_def])
next
  case (DepositCollateral u n)
  then obtain p where "cdp_deposit_collateral tr pr e u n s t = Ok (p, s', t')" using assms(1) by (auto simp: cdp_moved_def)
  from op_losses(1) [OF this, of w] show ?thesis by simp
next
  case (WithdrawCollateral u n)
  then obtain p where "cdp_withdraw_collateral tr pr e u n s t = Ok (p, s', t')" using assms(1) by (auto simp: cdp_moved_def)
  from op_losses(2) [OF this, of w] show ?thesis by (cases "w = u") simp_all
next
  case (MintStable u n)
  then obtain p where "cdp_mint_stable pr e u n s = Ok (p, s')" using assms(1) by (auto simp: cdp_drop_def)
  from op_losses(3) [OF this, of w] show ?thesis by simp
next
  case (Repay u n)
  then obtain p where "cdp_repay pr e u n s = Ok (p, s')" using assms(1) by (auto simp: cdp_drop_def)
  from op_losses(4) [OF this, of w] show ?thesis by (cases "w = u") simp_all
next
  case (TransferStable a b n)
  then have "cdp_transfer_stable e a b n s = Ok s'" using assms(1) by (auto simp: cdp_keep_def)
  from op_losses(5) [OF this, of w] show ?thesis by (cases "w = a") simp_all
next
  case (QuoteLiquidation b n)
  then obtain q where "cdp_quote_liquidation pr e b n s = Ok (q, s')" using assms(1) by (auto simp: cdp_drop_def)
  then obtain p where "accrue_position pr e b s = Ok (p, s')" by (rule quote_ok)
  from op_losses(6) [OF this, of w] show ?thesis by simp
next
  case (Liquidate l b n)
  then obtain q where "cdp_liquidate tr pr e l b n s t = Ok (q, s', t')" using assms(1) by (auto simp: cdp_moved_def)
  from liquidation_losses [OF this assms(2,3), of w] show ?thesis by (cases "w = b"; cases "w = l") simp_all
next
  case (SelfLiquidate b)
  then obtain p where "cdp_self_liquidate pr e b s = Ok (p, s')" using assms(1) by (auto simp: cdp_drop_def)
  from self_liquidation_losses [OF this assms(2,3), of w] show ?thesis by (cases "w = b") simp_all
qed

section \<open>Health\<close>

lemma accrue_again:
  assumes "positions s u = Some p" and "last_accrual_ledger p = sequence e"
  shows "accrue_position pr e u s = Ok (p, s)"
proof -
  have p: "p\<lparr>last_accrual_ledger := sequence e\<rparr> = p" using assms(2) by (cases p) simp
  have "write_position u p s = s" using assms(1) by (simp add: write_position_def fun_upd_idem)
  then show ?thesis by (simp add: accrue_position_def read_position_def Let_def assms p)
qed

lemma safe_healthy:
  assumes "ensure_safe pr e p s = Ok ()"
  obtains price r ratio where "oracle_price pr e s = Ok price" "cdp_risk s = Some r"
    "collateral_ratio_bps price (collateral_amount p) (debt_amount p) = Ok ratio" "min_collateral_ratio_bps r \<le> ratio"
    "require_unhealthy pr e p s = Err PositionHealthy"
  using assms by (auto simp: ensure_safe_def require_unhealthy_def read_risk_params_def ok_iff)

section \<open>Interest rates\<close>

lemma map_total_nonneg: "(\<And>k. 0 \<le> get0 m k) \<Longrightarrow> 0 \<le> map_total m"
  by (simp add: map_total_def sum_nonneg)

lemma borrow_rate_ok:
  assumes "borrow_rate_bps e m u = Ok r" and "overflow_checks e" and "0 \<le> u" and "0 \<le> slope1_bps m" "0 \<le> slope2_bps m"
    and "0 < optimal_utilization_bps m" "optimal_utilization_bps m < 10000"
  shows "r = base_rate_bps m + (if u \<le> optimal_utilization_bps m then u * slope1_bps m div optimal_utilization_bps m
    else slope1_bps m + (u - optimal_utilization_bps m) * slope2_bps m div (10000 - optimal_utilization_bps m))"
proof (cases "u \<le> optimal_utilization_bps m")
  case True
  then show ?thesis using assms by (auto simp: borrow_rate_bps_def cdp_checked div_i128_pos)
next
  case False
  then show ?thesis using assms
    by (auto simp: borrow_rate_bps_def cdp_checked plain_i128_checked cdp_BPS_def div_i128_pos)
qed

lemma share_le: "0 \<le> x \<Longrightarrow> x \<le> y \<Longrightarrow> 0 < y \<Longrightarrow> 0 \<le> c \<Longrightarrow> x * c div y \<le> (c :: int)"
  using zdiv_mono1 [of "x * c" "y * c" y] by (simp add: mult_right_mono)

lemma borrow_rate_mono:
  assumes "borrow_rate_bps e m u = Ok r" "borrow_rate_bps e m u' = Ok r'" "overflow_checks e" "0 \<le> u" "u \<le> u'" "u' \<le> 10000"
    "0 \<le> slope1_bps m" "0 \<le> slope2_bps m" "0 < optimal_utilization_bps m" "optimal_utilization_bps m < 10000"
  shows "base_rate_bps m \<le> r \<and> r \<le> r' \<and> r' \<le> base_rate_bps m + slope1_bps m + slope2_bps m"
proof -
  let ?k = "optimal_utilization_bps m" and ?a = "slope1_bps m" and ?b = "slope2_bps m"
  define g where "g u = (if u \<le> ?k then u * ?a div ?k else ?a + (u - ?k) * ?b div (10000 - ?k))" for u
  have r: "r = base_rate_bps m + g u" "r' = base_rate_bps m + g u'"
    using borrow_rate_ok [OF assms(1,3,4,7-10)] borrow_rate_ok [OF assms(2,3) _ assms(7-10)] assms(4,5) by (simp_all add: g_def)
  have low: "0 \<le> x * ?a div ?k" "x * ?a div ?k \<le> ?a" if "0 \<le> x" "x \<le> ?k" for x
    using that assms(7,9) share_le by (simp_all add: pos_imp_zdiv_nonneg_iff)
  have high: "0 \<le> (x - ?k) * ?b div (10000 - ?k)" "(x - ?k) * ?b div (10000 - ?k) \<le> ?b" if "?k \<le> x" "x \<le> 10000" for x
    using that assms(8,10) share_le by (simp_all add: pos_imp_zdiv_nonneg_iff)
  have "0 \<le> g u" using low [of u] high [of u] assms by (auto simp: g_def)
  moreover have "g u' \<le> ?a + ?b" using low [of u'] high [of u'] assms by (auto simp: g_def)
  moreover have "g u \<le> g u'"
  proof (cases "u' \<le> ?k")
    case True
    then show ?thesis using assms by (simp add: g_def zdiv_mono1 mult_right_mono)
  next
    case False
    then show ?thesis using low [of u] high [of u'] assms
      by (auto simp: g_def intro!: zdiv_mono1 mult_right_mono)
  qed
  ultimately show ?thesis by (simp add: r)
qed

section \<open>An example\<close>

definition cdp_env :: "u32 \<Rightarrow> env" where
  "cdp_env now = \<lparr>sequence = now, timestamp = 1000, authorized = (\<lambda>a. a < 3), self = 50, overflow_checks = True\<rparr>"

lemma cdp_env_simps [simp]:
  "self (cdp_env now) = 50" "overflow_checks (cdp_env now)" "\<not> authorized (cdp_env now) 50" "sequence (cdp_env now) = now"
  by (simp_all add: cdp_env_def)

definition price_is :: "i128 \<Rightarrow> latest_price" where
  "price_is n e = Some n"

text \<open>Steps of the contract over the token of this development, each at a ledger and a price.\<close>

fun cdp_play :: "(u32 \<times> i128 \<times> cdp_call) list \<Rightarrow> cdp \<Rightarrow> token \<Rightarrow> (cdp \<times> token, cdp_error) result" where
  "cdp_play [] s t = Ok (s, t)"
| "cdp_play ((now, n, c) # cs) s t = and_then (cdp_exec tok_transfer (price_is n) (cdp_env now) c s t) (\<lambda>(s, t). cdp_play cs s t)"

lemma cdp_play_run:
  "cdp_play cs s t = Ok (s', t') \<Longrightarrow> cdp_run tok_transfer tok_balance tok_sound 50 s t \<Longrightarrow>
    cdp_run tok_transfer tok_balance tok_sound 50 s' t'"
proof (induction cs arbitrary: s t)
  case (Cons x cs)
  then obtain now n c s1 t1 where "x = (now, n, c)" "cdp_exec tok_transfer (price_is n) (cdp_env now) c s t = Ok (s1, t1)"
    "cdp_play cs s1 t1 = Ok (s', t')" by (cases x) auto
  with Cons.IH [OF this(3) cdp_call [OF Cons.prems(2) _ _ _ this(2)]] show ?case by simp
qed simp

definition cdp_holds :: "(cdp \<Rightarrow> token \<Rightarrow> bool) \<Rightarrow> (cdp \<times> token, cdp_error) result \<Rightarrow> bool" where
  "cdp_holds P r = (case r of Ok (s, t) \<Rightarrow> P s t | _ \<Rightarrow> False)"

lemma cdp_fresh_run: "cdp_run tok_transfer tok_balance tok_sound 50 fresh_cdp token_example"
  by (rule cdp_start) (rule token_example_sound)

lemma cdp_playE:
  assumes "cdp_holds P (cdp_play cs fresh_cdp token_example)"
  obtains s t where "cdp_run tok_transfer tok_balance tok_sound 50 s t" "P s t"
  using assms by (auto simp: cdp_holds_def split: result.splits intro: that cdp_play_run [OF _ cdp_fresh_run])

text \<open>Account 2 locks 100 at a price of 2, mints 120 and pays 60 of them to account 1.\<close>

definition cdp_setup :: "(u32 \<times> i128 \<times> cdp_call) list" where
  "cdp_setup = [(100, 20000000, cdp_call.Initialize 1 9 8 15000 1000 200 800 2000 8000),
     (100, 20000000, DepositCollateral 2 100), (100, 20000000, MintStable 2 120), (100, 20000000, TransferStable 2 1 60)]"

lemma cdp_setup_state:
  obtains s t where "cdp_run tok_transfer tok_balance tok_sound 50 s t" "total_collateral s = 100" "total_debt s = 120"
    "cdp_risk s = Some \<lparr>min_collateral_ratio_bps = 15000, liquidation_incentive_bps = 1000\<rparr>"
    "cdp_model s = Some \<lparr>base_rate_bps = 200, slope1_bps = 800, slope2_bps = 2000, optimal_utilization_bps = 8000\<rparr>"
    "oracle_price (price_is 15000000) (cdp_env 200) s = Ok 15000000"
    "cdp_current_borrow_rate_bps (price_is 20000000) (cdp_env 200) s = Ok 800"
    "(case cdp_liquidate tok_transfer (price_is 15000000) (cdp_env 200) 1 2 50 s t of
       Ok (q, s', t') \<Rightarrow> q = \<lparr>repay_amount = 50, collateral_to_seize = 36, incentive_amount = 5\<rparr> \<and> get0 (coll_of s') 2 = 64
     | _ \<Rightarrow> False)" "get0 (coll_of s) 2 = 100"
    "(case cdp_mint_stable (price_is 20000000) (cdp_env 100) 2 10 s of
       Ok (p, s') \<Rightarrow> debt_amount p = 130 | _ \<Rightarrow> False)"
proof -
  have "cdp_holds (\<lambda>s t. total_collateral s = 100 \<and> total_debt s = 120
    \<and> cdp_risk s = Some \<lparr>min_collateral_ratio_bps = 15000, liquidation_incentive_bps = 1000\<rparr>
    \<and> cdp_model s = Some \<lparr>base_rate_bps = 200, slope1_bps = 800, slope2_bps = 2000, optimal_utilization_bps = 8000\<rparr>
    \<and> oracle_price (price_is 15000000) (cdp_env 200) s = Ok 15000000
    \<and> cdp_current_borrow_rate_bps (price_is 20000000) (cdp_env 200) s = Ok 800
    \<and> (case cdp_liquidate tok_transfer (price_is 15000000) (cdp_env 200) 1 2 50 s t of
       Ok (q, s', t') \<Rightarrow> q = \<lparr>repay_amount = 50, collateral_to_seize = 36, incentive_amount = 5\<rparr> \<and> get0 (coll_of s') 2 = 64
     | _ \<Rightarrow> False) \<and> get0 (coll_of s) 2 = 100
    \<and> (case cdp_mint_stable (price_is 20000000) (cdp_env 100) 2 10 s of
       Ok (p, s') \<Rightarrow> debt_amount p = 130 | _ \<Rightarrow> False)) (cdp_play cdp_setup fresh_cdp token_example)"
    by code_simp
  then show thesis by (rule cdp_playE) (elim conjE, rule that)
qed

lemma utilization_ok:
  assumes "cdp_good s" and "utilization_bps price s = Ok u"
  shows "0 \<le> u \<and> u \<le> 10000"
proof -
  have "0 \<le> total_debt s" using assms(1) map_total_nonneg [of "debt_of s"] by (auto simp: cdp_good_def books_def)
  then show ?thesis using assms(2)
    by (auto simp: utilization_bps_def cdp_checked cdp_BPS_def div_i128_pos pos_imp_zdiv_nonneg_iff split: if_splits)
qed

section \<open>The value of a liquidation\<close>

lemma div_mult_le: "0 < d \<Longrightarrow> x div d * d \<le> (x :: int)"
  using pos_mod_sign [of d x] div_mult_mod_eq [of x d] by linarith

lemma liquidation_value:
  assumes "cdp_liquidate tr pr e l b n s t = Ok (q, s', t')" and "overflow_checks e" and "risk_ok s"
    and "oracle_price pr e s = Ok price" and "cdp_risk s = Some r"
  shows "0 < repay_amount q \<and> repay_amount q \<le> n
    \<and> collateral_to_seize q * price * 10000 \<le> repay_amount q * (10000 + liquidation_incentive_bps r) * 10000000"
proof -
  let ?v = "repay_amount q + incentive_amount q"
  obtain s1 where q: "cdp_quote_liquidation pr e b n s = Ok (q, s1)"
    using assms(1) by (auto simp: cdp_liquidate_def Let_def ok_iff)
  obtain p price' r' c where p: "accrue_position pr e b s = Ok (p, s1)" "require_unhealthy pr e p s1 = Ok (r', price')"
    "repay_amount q = min (min n (debt_amount p)) c" "0 < repay_amount q"
    "quote_for e r' price' p (repay_amount q) = Ok q" by (rule quote_ok [OF q])
  note u = unhealthy_ok [OF p(2)] and c = accrue_config [OF p(1)]
  have "oracle_price pr e s1 = oracle_price pr e s" using c by (simp add: oracle_price_def config_of_def)
  then have e: "price' = price" "r' = r" "0 < price" using u assms(4,5) risk_config [OF c] by simp_all
  have i: "0 \<le> liquidation_incentive_bps r" using assms(3,5) by (simp add: risk_ok_def)
  have z: "?v = repay_amount q * (10000 + liquidation_incentive_bps r) div 10000"
    "collateral_to_seize q = min (?v * 10000000 div price) (collateral_amount p)"
    using quote_for_ok [OF p(5) assms(2) _ p(4)] e i by simp_all
  have "collateral_to_seize q * price \<le> ?v * 10000000 div price * price" using z(2) e(3) by (intro mult_right_mono) simp_all
  also have "\<dots> \<le> ?v * 10000000" using e(3) by (rule div_mult_le)
  finally have "collateral_to_seize q * price * 10000 \<le> ?v * 10000 * 10000000" by simp
  moreover have "?v * 10000 \<le> repay_amount q * (10000 + liquidation_incentive_bps r)" unfolding z(1) by (rule div_mult_le) simp
  ultimately have "collateral_to_seize q * price * 10000 \<le> repay_amount q * (10000 + liquidation_incentive_bps r) * 10000000"
    by linarith
  then show ?thesis using p(3,4) by simp
qed

section \<open>Properties\<close>

text \<open>
  C13. The books of the debt positions balance in every history: the collateral total is the sum of
  the positions' collateral and, with the protocol's reserves, held by the contract in tokens; the debt
  total is the sum of the positions' debts and the bad debt; the stable balances sum to at most the
  supply and so do the debts; and no amount is negative.
\<close>

theorem cdp_books_balance:
  assumes "token_iface transfer balance sound" and "cdp_run transfer balance sound v s t"
  shows "total_collateral s = map_total (coll_of s)
    \<and> total_collateral s + cdp_protocol_collateral_reserves s \<le> balance t v
    \<and> cdp_total_debt s = map_total (debt_of s) + cdp_total_bad_debt s \<and> cdp_total_debt s \<le> cdp_total_stable_supply s
    \<and> map_total (stable_balances s) \<le> cdp_total_stable_supply s
    \<and> 0 \<le> cdp_total_bad_debt s \<and> 0 \<le> cdp_protocol_collateral_reserves s \<and> 0 \<le> cdp_stable_balance u s
    \<and> 0 \<le> collateral_amount (cdp_get_position e u s) \<and> 0 \<le> debt_amount (cdp_get_position e u s)"
  using token_iface.cdp_run_ok [OF assms]
  by (simp add: cdp_good_def books_def held_by_def cdp_total_debt_def cdp_stable_balance_def read_stable_balance_def
      cdp_get_position_def read_position_of)

theorem cdp_books_balance_witness:
  "\<exists>s t. cdp_run tok_transfer tok_balance tok_sound 50 s t \<and> total_collateral s = 100 \<and> map_total (coll_of s) = 100
    \<and> map_total (debt_of s) + cdp_total_bad_debt s = 120 \<and> 100 \<le> tok_balance t 50"
proof -
  obtain s t where r: "cdp_run tok_transfer tok_balance tok_sound 50 s t" "total_collateral s = 100" "total_debt s = 120"
    by (rule cdp_setup_state)
  with cdp_books_balance [OF perigee_token.token_iface_axioms r(1), of 2 "cdp_env 100"] have "map_total (coll_of s) = 100" "map_total (debt_of s) + cdp_total_bad_debt s = 120"
    "100 \<le> tok_balance t 50" by (auto simp: cdp_total_debt_def)
  with r show ?thesis by blast
qed

text \<open>
  C14. Nobody loses without cause: a call lowers the collateral of a user only with the user's
  authorization or when the user's position, with interest, is below the minimum ratio at the oracle's
  price; it lowers a stable balance only with the owner's authorization.
\<close>

theorem cdp_loss_justified:
  assumes "token_iface transfer balance sound" and "cdp_run transfer balance sound v s t" and "overflow_checks e"
    and "cdp_exec transfer pr e c s t = Ok (s', t')"
  shows "(get0 (coll_of s') u < get0 (coll_of s) u \<longrightarrow> authorized e u \<or> below_at pr e u s)
    \<and> (cdp_stable_balance u s' < cdp_stable_balance u s \<longrightarrow> authorized e u)"
  using cdp_exec_losses [OF assms(4,3)] token_iface.cdp_run_ok [OF assms(1,2)]
  by (simp add: cdp_stable_balance_def read_stable_balance_def)

theorem cdp_loss_justified_witness:
  "\<exists>s t s' t'. cdp_run tok_transfer tok_balance tok_sound 50 s t
    \<and> cdp_exec tok_transfer (price_is 15000000) (cdp_env 200) (Liquidate 1 2 50) s t = Ok (s', t')
    \<and> get0 (coll_of s') 2 < get0 (coll_of s) 2 \<and> (authorized (cdp_env 200) 2 \<or> below_at (price_is 15000000) (cdp_env 200) 2 s)"
proof -
  let ?c = "\<lambda>s t. cdp_liquidate tok_transfer (price_is 15000000) (cdp_env 200) 1 2 50 s t"
  obtain s t where r: "cdp_run tok_transfer tok_balance tok_sound 50 s t" "get0 (coll_of s) 2 = 100"
    "(case ?c s t of Ok (q, s', t') \<Rightarrow> q = \<lparr>repay_amount = 50, collateral_to_seize = 36, incentive_amount = 5\<rparr>
       \<and> get0 (coll_of s') 2 = 64 | _ \<Rightarrow> False)" by (rule cdp_setup_state)
  then obtain q s' t' where l: "?c s t = Ok (q, s', t')" "get0 (coll_of s') 2 = 64" by (auto split: result.splits)
  then have x: "cdp_exec tok_transfer (price_is 15000000) (cdp_env 200) (Liquidate 1 2 50) s t = Ok (s', t')"
    by (simp add: cdp_moved_def)
  have "get0 (coll_of s') 2 < get0 (coll_of s) 2" using r(2) l(2) by simp
  moreover from this have "authorized (cdp_env 200) 2 \<or> below_at (price_is 15000000) (cdp_env 200) 2 s"
    using cdp_loss_justified [OF perigee_token.token_iface_axioms r(1) _ x, of 2] by simp
  ultimately show ?thesis using r(1) x by blast
qed

text \<open>
  C29. Minting and withdrawing leave a position healthy: after either, the position reported is the
  one returned, its ratio at the same price is at least the minimum, and in the same ledger at that
  price both kinds of liquidation are refused.
\<close>

theorem cdp_safe_after_borrowing:
  assumes "cdp_mint_stable pr e u n s = Ok (p, s') \<or> cdp_withdraw_collateral tr pr e u n s t = Ok (p, s', t')" and "0 < m"
  shows "cdp_get_position e u s' = p
    \<and> (\<exists>ratio r. cdp_collateral_ratio_bps pr e u s' = Ok ratio \<and> cdp_risk s' = Some r \<and> min_collateral_ratio_bps r \<le> ratio)
    \<and> cdp_quote_liquidation pr e u m s' = Err PositionHealthy \<and> cdp_self_liquidate pr e u s' = Err PositionHealthy"
proof -
  have p: "ensure_safe pr e p s' = Ok ()" "positions s' u = Some p" "last_accrual_ledger p = sequence e"
    using assms(1) by (auto elim: mint_ok withdraw_ok)
  note a = accrue_again [OF p(2,3), of pr]
  have g: "read_position e u s' = p" using p(2) by (simp add: read_position_def)
  from p(1) show ?thesis
    by (rule safe_healthy) (use assms(2) g a in \<open>auto simp: cdp_get_position_def cdp_collateral_ratio_bps_def
        cdp_quote_liquidation_def cdp_self_liquidate_def\<close>)
qed

theorem cdp_safe_after_borrowing_witness:
  "\<exists>s p s'. cdp_mint_stable (price_is 20000000) (cdp_env 100) 2 10 s = Ok (p, s') \<and> debt_amount p = 130
    \<and> cdp_quote_liquidation (price_is 20000000) (cdp_env 100) 2 5 s' = Err PositionHealthy"
proof -
  obtain s where "(case cdp_mint_stable (price_is 20000000) (cdp_env 100) 2 10 s of
       Ok (p, s') \<Rightarrow> debt_amount p = 130 | _ \<Rightarrow> False)" by (rule cdp_setup_state)
  then obtain p s' where m: "cdp_mint_stable (price_is 20000000) (cdp_env 100) 2 10 s = Ok (p, s')" "debt_amount p = 130"
    by (auto split: result.splits)
  with cdp_safe_after_borrowing [OF disjI1 [OF m(1)], of 5] show ?thesis by auto
qed

text \<open>
  C24. A liquidation is bounded: the liquidator pays at most what they asked for and at most the debt
  with interest, out of their own stable balance; the collateral they receive comes out of the position
  and is worth, at the oracle's price, at most the repayment plus the incentive on it; what is left of
  the debt is the debt with the interest up to now, as \<open>accrue_position\<close> computes it, less exactly
  the repayment.
\<close>

theorem cdp_liquidation_bounded:
  assumes "token_iface transfer balance sound" and "cdp_run transfer balance sound v s t" and "overflow_checks e"
    and "cdp_liquidate transfer pr e l b n s t = Ok (q, s', t')"
    and "oracle_price pr e s = Ok price" and "cdp_risk s = Some r"
  shows "0 < repay_amount q \<and> repay_amount q \<le> n
    \<and> cdp_stable_balance l s' = cdp_stable_balance l s - repay_amount q
    \<and> (\<exists>p s1. accrue_position pr e b s = Ok (p, s1) \<and> get0 (debt_of s) b \<le> debt_amount p
        \<and> get0 (debt_of s') b = debt_amount p - repay_amount q \<and> repay_amount q \<le> debt_amount p)
    \<and> get0 (coll_of s') b = get0 (coll_of s) b - collateral_to_seize q \<and> 0 \<le> get0 (coll_of s') b
    \<and> collateral_to_seize q * price * 10000 \<le> repay_amount q * (10000 + liquidation_incentive_bps r) * 10000000"
proof -
  have good: "cdp_good s" and risk: "risk_ok s" using token_iface.cdp_run_ok [OF assms(1,2)] by (auto simp: cdp_good_def)
  obtain i k p s1 where a: "0 \<le> i" "repay_amount q \<le> get0 (debt_of s) b + i" "collateral_to_seize q \<le> get0 (coll_of s) b"
    "ledger_of s' = lock b (- collateral_to_seize q) (borrow b l (- repay_amount q) (charge b i (ledger_of s)))"
    "accrue_position pr e b s = Ok (p, s1)" "debt_amount p = get0 (debt_of s) b + i"
    using assms(4,3) risk conjunct1 [OF good_nonneg [OF good]] by (rule liquidate_ok)
  have f: "coll_of s' = (coll_of s)(b \<mapsto> get0 (coll_of s) b - collateral_to_seize q)"
    "debt_of s' = (debt_of s)(b \<mapsto> get0 (debt_of s) b + i - repay_amount q)"
    "stable_balances s' = (stable_balances s)(l \<mapsto> get0 (stable_balances s) l - repay_amount q)"
    using arg_cong [OF a(4), of l_coll] arg_cong [OF a(4), of l_debt] arg_cong [OF a(4), of l_bal]
    by (simp_all add: lock_def borrow_def charge_def)
  have v: "0 < repay_amount q \<and> repay_amount q \<le> n
    \<and> collateral_to_seize q * price * 10000 \<le> repay_amount q * (10000 + liquidation_incentive_bps r) * 10000000"
    using liquidation_value [OF assms(4,3) risk assms(5,6)] .
  then show ?thesis using a(1-3,5,6) by (auto simp: f cdp_stable_balance_def read_stable_balance_def)
qed

theorem cdp_liquidation_bounded_witness:
  "\<exists>s t q s' t'. cdp_run tok_transfer tok_balance tok_sound 50 s t
    \<and> cdp_liquidate tok_transfer (price_is 15000000) (cdp_env 200) 1 2 50 s t = Ok (q, s', t')
    \<and> q = \<lparr>repay_amount = 50, collateral_to_seize = 36, incentive_amount = 5\<rparr>
    \<and> get0 (coll_of s') 2 = get0 (coll_of s) 2 - 36 \<and> 36 * 15000000 * 10000 \<le> (50 * (10000 + 1000) * 10000000 :: int)"
proof -
  let ?c = "\<lambda>s t. cdp_liquidate tok_transfer (price_is 15000000) (cdp_env 200) 1 2 50 s t"
  obtain s t where r: "cdp_run tok_transfer tok_balance tok_sound 50 s t"
    "oracle_price (price_is 15000000) (cdp_env 200) s = Ok 15000000"
    "cdp_risk s = Some \<lparr>min_collateral_ratio_bps = 15000, liquidation_incentive_bps = 1000\<rparr>"
    "(case ?c s t of Ok (q, s', t') \<Rightarrow> q = \<lparr>repay_amount = 50, collateral_to_seize = 36, incentive_amount = 5\<rparr>
       \<and> get0 (coll_of s') 2 = 64 | _ \<Rightarrow> False)" by (rule cdp_setup_state)
  then obtain q s' t' where l: "?c s t = Ok (q, s', t')" "q = \<lparr>repay_amount = 50, collateral_to_seize = 36, incentive_amount = 5\<rparr>"
    by (auto split: result.splits)
  show ?thesis using r(1) l cdp_liquidation_bounded [OF perigee_token.token_iface_axioms r(1) _ l(1) r(2,3)] by auto
qed

text \<open>
  C35. With non-negative slopes the borrow rate of a reachable state is at least the base rate and at
  most the base rate plus both slopes, and it does not fall when the utilisation rises.
\<close>

theorem cdp_borrow_rate_bounds:
  assumes "token_iface transfer balance sound" and "cdp_run transfer balance sound v s t" and "overflow_checks e"
    and "cdp_model s = Some m" and "0 \<le> slope1_bps m" and "0 \<le> slope2_bps m"
  shows "(cdp_current_borrow_rate_bps pr e s = Ok rate \<longrightarrow>
      base_rate_bps m \<le> rate \<and> rate \<le> base_rate_bps m + slope1_bps m + slope2_bps m)
    \<and> (0 \<le> x \<and> x \<le> y \<and> y \<le> cdp_BPS \<and> borrow_rate_bps e m x = Ok i \<and> borrow_rate_bps e m y = Ok j \<longrightarrow> i \<le> j)"
proof -
  have good: "cdp_good s" using token_iface.cdp_run_ok [OF assms(1,2)] by simp
  then have m: "0 < optimal_utilization_bps m" "optimal_utilization_bps m < 10000"
    using assms(4) by (simp_all add: cdp_good_def risk_ok_def)
  have u: "0 \<le> u \<and> u \<le> 10000" if "utilization_bps price s = Ok u" for price u
    using that utilization_ok [OF good] by blast
  show ?thesis
    using assms(4) u borrow_rate_mono [OF _ _ assms(3) _ _ _ assms(5,6) m]
    by (auto simp: cdp_current_borrow_rate_bps_def read_interest_model_def cdp_BPS_def)
qed

theorem cdp_borrow_rate_bounds_witness:
  "\<exists>s t m. cdp_run tok_transfer tok_balance tok_sound 50 s t \<and> cdp_model s = Some m
    \<and> cdp_current_borrow_rate_bps (price_is 20000000) (cdp_env 200) s = Ok 800
    \<and> base_rate_bps m \<le> 800 \<and> 800 \<le> base_rate_bps m + slope1_bps m + slope2_bps m"
proof -
  obtain s t where r: "cdp_run tok_transfer tok_balance tok_sound 50 s t"
    "cdp_model s = Some \<lparr>base_rate_bps = 200, slope1_bps = 800, slope2_bps = 2000, optimal_utilization_bps = 8000\<rparr>"
    "cdp_current_borrow_rate_bps (price_is 20000000) (cdp_env 200) s = Ok 800" by (rule cdp_setup_state)
  from cdp_borrow_rate_bounds [OF perigee_token.token_iface_axioms r(1) _ r(2), where e = "cdp_env 200"
      and pr = "price_is 20000000" and rate = 800 and x = 0 and y = 0 and i = 0 and j = 0] r(3)
  have "200 \<le> (800 :: int) \<and> 800 \<le> (200 + 800 + 2000 :: int)" by simp
  with r show ?thesis by fastforce
qed

end
