(* ===== verification/Governance.thy ===== *)
theory Governance
  imports Guards
begin

text \<open>
  The governance contract \<open>contracts/governance/src/lib.rs\<close> with its snapshots (\<open>snapshot.rs\<close>): a
  committee registers voters and opens proposals, voters spend credits on them at quadratic cost, and
  the committee or an enabled module calls other contracts. The committee is the emergency guard of
  \<open>Guards\<close>, embedded in the contract's own storage. A \<open>BytesN<32>\<close> is a 256-bit word, a \<open>String\<close> or
  \<open>Symbol\<close> a list of characters; a call of another contract is a parameter that acts on the rest of
  the ledger, since the host does not let a contract be entered again while it runs.
  \<open>snapshot.rs\<close> takes its storage keys and \<open>read_voting_power\<close> from \<open>storage_types.rs\<close> and \<open>voting.rs\<close>.
\<close>

section \<open>Storage and errors\<close>

datatype gov_error =
    AlreadyInitialized | NotInitialized | Unauthorized | ProposalNotFound | ProposalClosed
  | InvalidVotingWindow | InvalidCredits | VoterNotRegistered | InsufficientVotingUnits
  | IdentityRequired | IdentityAlreadyClaimed | VoteSideMismatch | InvalidThreshold
  | InsufficientSignatures | ModuleAlreadyEnabled | ModuleNotEnabled

type_synonym bytes32 = "256 word"

record governance_config =
  config_admin :: address
  config_min_voting_units :: i128
  config_identity_required :: bool
  config_admins :: "address list"
  config_signature_threshold :: u32

record voter_profile =
  voting_units :: i128
  identity_commitment :: bytes32

record proposal =
  proposal_id :: u32
  creator :: address
  title :: string
  description :: string
  voting_ends_at :: u32
  for_votes :: i128
  against_votes :: i128
  is_open :: bool

record vote_receipt =
  support :: bool
  credits_spent :: i128
  votes_cast :: i128
  voting_units_snapshot :: i128

record voting_snapshot =
  snapshot_id :: u64
  ledger_sequence :: u32
  snapshot_power :: i128

record governance =
  committee_guard :: guard
  gov_admin_slot :: "address option"
  min_voting_units_slot :: "i128 option"
  identity_required_slot :: "bool option"
  next_proposal_id :: "u32 option"
  voters :: "address \<rightharpoonup> voter_profile"
  identity_owner :: "bytes32 \<rightharpoonup> address"
  proposals :: "u32 \<rightharpoonup> proposal"
  receipts :: "u32 \<times> address \<rightharpoonup> vote_receipt"
  modules :: "address \<rightharpoonup> bool"
  voting_power :: "address \<rightharpoonup> i128"
  voting_snapshots :: "u64 \<times> address \<rightharpoonup> voting_snapshot"
  proposal_snapshot :: "u32 \<rightharpoonup> u64"
  snapshot_counter :: "u64 option"

definition map_err :: "('e \<Rightarrow> 'f) \<Rightarrow> ('a, 'e) result \<Rightarrow> ('a, 'f) result" where
  "map_err f m = (case m of Ok x \<Rightarrow> Ok x | Err x \<Rightarrow> Err (f x) | Panic \<Rightarrow> Panic)"

lemma map_err_eq [simp]:
  "map_err f m = Ok x \<longleftrightarrow> m = Ok x"
  "map_err f m = Panic \<longleftrightarrow> m = Panic"
  "map_err f m = Err y \<longleftrightarrow> (\<exists>x. m = Err x \<and> y = f x)"
  by (auto simp: map_err_def split: result.splits)

section \<open>The integer square root\<close>

lemma half_in_range: "div_i128 w 2 = Ok z \<Longrightarrow> in_i128 w \<Longrightarrow> i128_min \<le> z"
  by (auto simp: div_i128_def in_i128_def i128_min_eq signed_divide_int_def sgn_if abs_if split: if_splits)

function sqrt_loop :: "env \<Rightarrow> i128 \<Rightarrow> i128 \<Rightarrow> i128 \<Rightarrow> (i128, gov_error) result" where
  "sqrt_loop e x y z =
     (if z < y
      then and_then (div_i128 x z) (\<lambda>q.
           and_then (plain_i128 e (q + z)) (\<lambda>w.
           and_then (div_i128 w 2) (\<lambda>z'. sqrt_loop e x z z')))
      else Ok y)"
  by pat_completeness auto

text \<open>
  Each round lowers \<open>y\<close>, and the half of a machine integer that bounds the next \<open>y\<close> is not below the
  range of the type.
\<close>

termination
proof (relation "measure (\<lambda>(e, x, y, z). nat (y - min z i128_min))")
  fix e x y z q w z'
  assume "(z :: i128) < y" "plain_i128 e (q + z) = Ok w" "div_i128 w 2 = Ok z'"
  then have "i128_min \<le> z'" by (auto dest: plain_i128_in_range half_in_range)
  with \<open>z < y\<close> show "((e, x, z, z'), e, x, y, z) \<in> measure (\<lambda>(e, x, y, z). nat (y - min z i128_min))"
    by auto
qed simp

declare sqrt_loop.simps [simp del]

definition gov_sqrt :: "env \<Rightarrow> i128 \<Rightarrow> (i128, gov_error) result" where
  "gov_sqrt e x =
     (if x \<le> 0 then Ok 0
      else and_then (plain_i128 e (x + 1)) (\<lambda>w.
           and_then (div_i128 w 2) (\<lambda>z. sqrt_loop e x x z)))"

section \<open>Authority\<close>

definition zero_identity :: bytes32 where "zero_identity = 0"

fun map_guard_error :: "guard_error \<Rightarrow> gov_error" where
  "map_guard_error guard_error.InsufficientSignatures = InsufficientSignatures"
| "map_guard_error guard_error.InvalidThreshold = InvalidThreshold"
| "map_guard_error _ = Unauthorized"

definition default_approvers :: "governance \<Rightarrow> (address list, gov_error) result" where
  "default_approvers s = and_then (ok_or (gov_admin_slot s) NotInitialized) (\<lambda>admin. Ok [admin])"

definition require_admin :: "env \<Rightarrow> address list \<Rightarrow> governance \<Rightarrow> (address, gov_error) result" where
  "require_admin e approvers s =
     and_then (ok_or (gov_admin_slot s) NotInitialized) (\<lambda>admin.
     and_then (map_err map_guard_error (guard_validate_multi_sig e (committee_guard s) approvers)) (\<lambda>_.
     Ok admin))"

text \<open>The loop over the first committee: a name that occurs twice ends it, each member signs.\<close>

fun unique_admins_loop :: "env \<Rightarrow> address list \<Rightarrow> address list \<Rightarrow> (address list, gov_error) result" where
  "unique_admins_loop e [] unique = Ok unique"
| "unique_admins_loop e (a # as) unique =
     (if a \<in> set unique then Err InvalidThreshold
      else and_then (require_auth e a) (\<lambda>_. unique_admins_loop e as (unique @ [a])))"

definition first_of :: "'a list \<Rightarrow> 'a option" where
  "first_of xs = (case xs of [] \<Rightarrow> None | x # _ \<Rightarrow> Some x)"

definition initialize_governance ::
  "env \<Rightarrow> address list \<Rightarrow> u32 \<Rightarrow> i128 \<Rightarrow> bool \<Rightarrow> governance \<Rightarrow> (governance, gov_error) result" where
  "initialize_governance e as threshold min_units required s =
     (if gov_admin_slot s \<noteq> None then Err AlreadyInitialized
      else if min_units \<le> 0 then Err InsufficientVotingUnits
      else if threshold = 0 \<or> length as < unat threshold then Err InvalidThreshold
      else
        and_then (unique_admins_loop e as []) (\<lambda>_.
        and_then (ok_or (first_of as) InvalidThreshold) (\<lambda>admin.
        and_then (map_err map_guard_error (eg_initialize as threshold (committee_guard s))) (\<lambda>g.
        Ok (s\<lparr>committee_guard := g, gov_admin_slot := Some admin, min_voting_units_slot := Some min_units,
              identity_required_slot := Some required, next_proposal_id := Some 0\<rparr>)))))"

definition get_config :: "governance \<Rightarrow> (governance_config, gov_error) result" where
  "get_config s =
     and_then (ok_or (gov_admin_slot s) NotInitialized) (\<lambda>admin.
     Ok \<lparr>config_admin = admin,
         config_min_voting_units = (case min_voting_units_slot s of None \<Rightarrow> 1 | Some m \<Rightarrow> m),
         config_identity_required = (case identity_required_slot s of None \<Rightarrow> False | Some b \<Rightarrow> b),
         config_admins = guard_get_admins (committee_guard s),
         config_signature_threshold = guard_get_threshold (committee_guard s)\<rparr>)"

section \<open>Snapshots\<close>

definition add_u64 :: "env \<Rightarrow> u64 \<Rightarrow> u64 \<Rightarrow> (u64, 'e) result" where
  "add_u64 e a b =
     (if overflow_checks e then unwrap (checked_add_word a b) else Ok (a + b))"

definition read_voting_power :: "address \<Rightarrow> governance \<Rightarrow> i128" where
  "read_voting_power addr s = get0 (voting_power s) addr"

definition snap_create_voting_snapshot ::
  "env \<Rightarrow> address \<Rightarrow> u64 \<Rightarrow> governance \<Rightarrow> voting_snapshot \<times> governance" where
  "snap_create_voting_snapshot e addr i s =
     (let snapshot = \<lparr>snapshot_id = i, ledger_sequence = sequence e,
                      snapshot_power = read_voting_power addr s\<rparr>
      in (snapshot, s\<lparr>voting_snapshots := (voting_snapshots s)((i, addr) \<mapsto> snapshot)\<rparr>))"

definition snap_read_snapshot_voting_power :: "address \<Rightarrow> u64 \<Rightarrow> governance \<Rightarrow> i128 option" where
  "snap_read_snapshot_voting_power addr i s = map_option snapshot_power (voting_snapshots s (i, addr))"

definition snap_get_voting_power_for_proposal :: "address \<Rightarrow> u32 \<Rightarrow> governance \<Rightarrow> i128" where
  "snap_get_voting_power_for_proposal addr pid s =
     (case proposal_snapshot s pid of
        Some i \<Rightarrow> (case snap_read_snapshot_voting_power addr i s of
                     Some recorded \<Rightarrow> recorded
                   | None \<Rightarrow> read_voting_power addr s)
      | None \<Rightarrow> read_voting_power addr s)"

definition snap_set_proposal_snapshot :: "u32 \<Rightarrow> u64 \<Rightarrow> governance \<Rightarrow> governance" where
  "snap_set_proposal_snapshot pid i s = s\<lparr>proposal_snapshot := (proposal_snapshot s)(pid \<mapsto> i)\<rparr>"

definition snap_get_next_snapshot_id :: "env \<Rightarrow> governance \<Rightarrow> (u64 \<times> governance, gov_error) result" where
  "snap_get_next_snapshot_id e s =
     and_then (add_u64 e (case snapshot_counter s of None \<Rightarrow> 0 | Some c \<Rightarrow> c) 1) (\<lambda>i.
     Ok (i, s\<lparr>snapshot_counter := Some i\<rparr>))"

fun snap_create_bulk_snapshots :: "env \<Rightarrow> address list \<Rightarrow> u64 \<Rightarrow> governance \<Rightarrow> governance" where
  "snap_create_bulk_snapshots e [] i s = s"
| "snap_create_bulk_snapshots e (a # as) i s =
     snap_create_bulk_snapshots e as i (snd (snap_create_voting_snapshot e a i s))"

section \<open>Voters and proposals\<close>

definition get_proposal :: "u32 \<Rightarrow> governance \<Rightarrow> (proposal, gov_error) result" where
  "get_proposal pid s = ok_or (proposals s pid) ProposalNotFound"

definition write_proposal :: "proposal \<Rightarrow> governance \<Rightarrow> governance" where
  "write_proposal p s = s\<lparr>proposals := (proposals s)(proposal_id p \<mapsto> p)\<rparr>"

text \<open>The two identity updates of \<open>register_voter\<close>: a replaced commitment is released, a new one claimed.\<close>

definition release_identity :: "address \<Rightarrow> bytes32 \<Rightarrow> governance \<Rightarrow> governance" where
  "release_identity voter identity s =
     (case voters s voter of
        Some existing \<Rightarrow>
          if identity_commitment existing \<noteq> zero_identity \<and> identity_commitment existing \<noteq> identity
          then s\<lparr>identity_owner := (identity_owner s)(identity_commitment existing := None)\<rparr>
          else s
      | None \<Rightarrow> s)"

definition claim_identity :: "address \<Rightarrow> bytes32 \<Rightarrow> governance \<Rightarrow> (governance, gov_error) result" where
  "claim_identity voter identity s =
     (if identity = zero_identity then Ok s
      else if identity_owner s identity \<noteq> None \<and> identity_owner s identity \<noteq> Some voter
           then Err IdentityAlreadyClaimed
           else Ok (s\<lparr>identity_owner := (identity_owner s)(identity \<mapsto> voter)\<rparr>))"

definition register_voter ::
  "env \<Rightarrow> address \<Rightarrow> i128 \<Rightarrow> bytes32 \<Rightarrow> address list \<Rightarrow> governance
    \<Rightarrow> (voter_profile \<times> governance, gov_error) result" where
  "register_voter e voter units identity approvers s =
     and_then (require_admin e approvers s) (\<lambda>_.
     and_then (get_config s) (\<lambda>config.
     if units < config_min_voting_units config then Err InsufficientVotingUnits
     else if config_identity_required config \<and> identity = zero_identity then Err IdentityRequired
     else and_then (claim_identity voter identity (release_identity voter identity s)) (\<lambda>s.
       let profile = \<lparr>voting_units = units, identity_commitment = identity\<rparr>
       in Ok (profile, s\<lparr>voters := (voters s)(voter \<mapsto> profile)\<rparr>))))"

definition create_proposal ::
  "env \<Rightarrow> string \<Rightarrow> string \<Rightarrow> u32 \<Rightarrow> address list \<Rightarrow> governance
    \<Rightarrow> (proposal \<times> governance, gov_error) result" where
  "create_proposal e ti de ends approvers s =
     and_then (require_admin e approvers s) (\<lambda>admin.
     if ends \<le> sequence e then Err InvalidVotingWindow
     else
       let pid = (case next_proposal_id s of None \<Rightarrow> 0 | Some i \<Rightarrow> i)
       in and_then (snap_get_next_snapshot_id e s) (\<lambda>(i, s).
          let s = snap_set_proposal_snapshot pid i s;
              p = \<lparr>proposal_id = pid, creator = admin, title = ti, description = de,
                   voting_ends_at = ends, for_votes = 0, against_votes = 0, is_open = True\<rparr>;
              s = write_proposal p s
          in Ok (p, s\<lparr>next_proposal_id := Some (saturating_add_word pid 1)\<rparr>)))"

definition close_proposal ::
  "env \<Rightarrow> u32 \<Rightarrow> address list \<Rightarrow> governance \<Rightarrow> (proposal \<times> governance, gov_error) result" where
  "close_proposal e pid approvers s =
     and_then (require_admin e approvers s) (\<lambda>_.
     and_then (get_proposal pid s) (\<lambda>p.
     let p = p\<lparr>is_open := False\<rparr>
     in Ok (p, write_proposal p s)))"

section \<open>Entry points\<close>

definition gov_initialize ::
  "env \<Rightarrow> address \<Rightarrow> i128 \<Rightarrow> bool \<Rightarrow> governance \<Rightarrow> (governance, gov_error) result" where
  "gov_initialize e admin min_units required s = initialize_governance e [admin] 1 min_units required s"

definition gov_initialize_with_signers ::
  "env \<Rightarrow> address list \<Rightarrow> u32 \<Rightarrow> i128 \<Rightarrow> bool \<Rightarrow> governance \<Rightarrow> (governance, gov_error) result" where
  "gov_initialize_with_signers e as threshold min_units required s =
     initialize_governance e as threshold min_units required s"

definition gov_get_config :: "governance \<Rightarrow> (governance_config, gov_error) result" where
  "gov_get_config s = get_config s"

definition gov_register_voter ::
  "env \<Rightarrow> address \<Rightarrow> i128 \<Rightarrow> bytes32 \<Rightarrow> governance \<Rightarrow> (voter_profile \<times> governance, gov_error) result" where
  "gov_register_voter e voter units identity s =
     and_then (default_approvers s) (\<lambda>approvers. register_voter e voter units identity approvers s)"

definition gov_register_voter_with_approvals ::
  "env \<Rightarrow> address \<Rightarrow> i128 \<Rightarrow> bytes32 \<Rightarrow> address list \<Rightarrow> governance
    \<Rightarrow> (voter_profile \<times> governance, gov_error) result" where
  "gov_register_voter_with_approvals e voter units identity approvers s =
     register_voter e voter units identity approvers s"

definition gov_get_voter :: "address \<Rightarrow> governance \<Rightarrow> (voter_profile, gov_error) result" where
  "gov_get_voter voter s = ok_or (voters s voter) VoterNotRegistered"

definition gov_create_proposal ::
  "env \<Rightarrow> string \<Rightarrow> string \<Rightarrow> u32 \<Rightarrow> governance \<Rightarrow> (proposal \<times> governance, gov_error) result" where
  "gov_create_proposal e ti de ends s =
     and_then (default_approvers s) (\<lambda>approvers. create_proposal e ti de ends approvers s)"

definition gov_create_proposal_with_approvals ::
  "env \<Rightarrow> string \<Rightarrow> string \<Rightarrow> u32 \<Rightarrow> address list \<Rightarrow> governance
    \<Rightarrow> (proposal \<times> governance, gov_error) result" where
  "gov_create_proposal_with_approvals e ti de ends approvers s = create_proposal e ti de ends approvers s"

definition gov_get_proposal :: "u32 \<Rightarrow> governance \<Rightarrow> (proposal, gov_error) result" where
  "gov_get_proposal pid s = get_proposal pid s"

definition gov_close_proposal ::
  "env \<Rightarrow> u32 \<Rightarrow> governance \<Rightarrow> (proposal \<times> governance, gov_error) result" where
  "gov_close_proposal e pid s =
     and_then (default_approvers s) (\<lambda>approvers. close_proposal e pid approvers s)"

definition gov_close_proposal_with_approvals ::
  "env \<Rightarrow> u32 \<Rightarrow> address list \<Rightarrow> governance \<Rightarrow> (proposal \<times> governance, gov_error) result" where
  "gov_close_proposal_with_approvals e pid approvers s = close_proposal e pid approvers s"

definition gov_add_signer ::
  "env \<Rightarrow> address list \<Rightarrow> address \<Rightarrow> governance \<Rightarrow> (governance, gov_error) result" where
  "gov_add_signer e approvers new_signer s =
     and_then (require_admin e approvers s) (\<lambda>_.
     and_then (map_err map_guard_error (eg_add_admin e approvers new_signer (committee_guard s))) (\<lambda>g.
     Ok (s\<lparr>committee_guard := g\<rparr>)))"

definition gov_remove_signer ::
  "env \<Rightarrow> address list \<Rightarrow> address \<Rightarrow> governance \<Rightarrow> (governance, gov_error) result" where
  "gov_remove_signer e approvers signer s =
     and_then (require_admin e approvers s) (\<lambda>current_admin.
     and_then (map_err map_guard_error (eg_remove_admin e approvers signer (committee_guard s))) (\<lambda>g.
     let s = s\<lparr>committee_guard := g\<rparr>
     in if signer = current_admin
        then and_then (ok_or (first_of (guard_get_admins g)) InvalidThreshold) (\<lambda>next_admin.
             Ok (s\<lparr>gov_admin_slot := Some next_admin\<rparr>))
        else Ok s))"

definition gov_set_signature_threshold ::
  "env \<Rightarrow> address list \<Rightarrow> u32 \<Rightarrow> governance \<Rightarrow> (governance, gov_error) result" where
  "gov_set_signature_threshold e approvers threshold s =
     and_then (require_admin e approvers s) (\<lambda>_.
     if threshold = 0 \<or> length (guard_get_admins (committee_guard s)) < unat threshold
     then Err InvalidThreshold
     else Ok (s\<lparr>committee_guard := (committee_guard s)\<lparr>signature_threshold := Some threshold\<rparr>\<rparr>))"

definition gov_enable_module ::
  "env \<Rightarrow> address list \<Rightarrow> address \<Rightarrow> governance \<Rightarrow> (governance, gov_error) result" where
  "gov_enable_module e approvers module s =
     and_then (require_admin e approvers s) (\<lambda>_.
     if modules s module \<noteq> None then Err ModuleAlreadyEnabled
     else Ok (s\<lparr>modules := (modules s)(module \<mapsto> True)\<rparr>))"

definition gov_disable_module ::
  "env \<Rightarrow> address list \<Rightarrow> address \<Rightarrow> governance \<Rightarrow> (governance, gov_error) result" where
  "gov_disable_module e approvers module s =
     and_then (require_admin e approvers s) (\<lambda>_.
     if modules s module = None then Err ModuleNotEnabled
     else Ok (s\<lparr>modules := (modules s)(module := None)\<rparr>))"

definition gov_is_module_enabled :: "address \<Rightarrow> governance \<Rightarrow> bool" where
  "gov_is_module_enabled module s \<longleftrightarrow> modules s module \<noteq> None"

text \<open>A call of another contract, with the address called, the function, its arguments and the ledger.\<close>

type_synonym ('v, 't, 'x) invocation =
  "env \<Rightarrow> address \<Rightarrow> string \<Rightarrow> 'v list \<Rightarrow> 't \<Rightarrow> ('v \<times> 't, 'x) result"

definition gov_execute_transaction ::
  "('v, 't, 'x) invocation \<Rightarrow> env \<Rightarrow> address list \<Rightarrow> address \<Rightarrow> string \<Rightarrow> 'v list \<Rightarrow> governance \<Rightarrow> 't
    \<Rightarrow> ('v \<times> 't, gov_error) result" where
  "gov_execute_transaction invoke e approvers target func args s t =
     and_then (require_admin e approvers s) (\<lambda>_.
     sub_call (invoke (invoke_env e target) target func args t))"

definition gov_execute_module ::
  "('v, 't, 'x) invocation \<Rightarrow> env \<Rightarrow> address \<Rightarrow> address \<Rightarrow> string \<Rightarrow> 'v list \<Rightarrow> governance \<Rightarrow> 't
    \<Rightarrow> ('v \<times> 't, gov_error) result" where
  "gov_execute_module invoke e module target func args s t =
     (if modules s module = None then Err ModuleNotEnabled
      else and_then (require_auth e module) (\<lambda>_.
           sub_call (invoke (invoke_env e target) target func args t)))"

definition gov_quote_votes_for_credits :: "env \<Rightarrow> i128 \<Rightarrow> (i128, gov_error) result" where
  "gov_quote_votes_for_credits e credits = (if credits < 0 then Err InvalidCredits else gov_sqrt e credits)"

definition gov_quote_credits_for_votes :: "i128 \<Rightarrow> (i128, gov_error) result" where
  "gov_quote_credits_for_votes votes =
     (if votes < 0 then Err InvalidCredits else ok_or (checked_mul votes votes) InvalidCredits)"

definition gov_get_vote_receipt :: "u32 \<Rightarrow> address \<Rightarrow> governance \<Rightarrow> vote_receipt option" where
  "gov_get_vote_receipt pid voter s = receipts s (pid, voter)"

text \<open>The receipt a vote starts from, and the tally it adds to.\<close>

definition receipt_or_new :: "u32 \<Rightarrow> address \<Rightarrow> bool \<Rightarrow> voter_profile \<Rightarrow> governance \<Rightarrow> vote_receipt" where
  "receipt_or_new pid voter side profile s =
     (case receipts s (pid, voter) of
        Some r \<Rightarrow> r
      | None \<Rightarrow> \<lparr>support = side, credits_spent = 0, votes_cast = 0,
                 voting_units_snapshot = voting_units profile\<rparr>)"

definition add_votes :: "bool \<Rightarrow> i128 \<Rightarrow> proposal \<Rightarrow> (proposal, gov_error) result" where
  "add_votes side delta p =
     (if side
      then and_then (ok_or (checked_add (for_votes p) delta) InvalidCredits) (\<lambda>v. Ok (p\<lparr>for_votes := v\<rparr>))
      else and_then (ok_or (checked_add (against_votes p) delta) InvalidCredits) (\<lambda>v. Ok (p\<lparr>against_votes := v\<rparr>)))"

definition gov_cast_vote ::
  "env \<Rightarrow> u32 \<Rightarrow> address \<Rightarrow> bool \<Rightarrow> i128 \<Rightarrow> governance \<Rightarrow> (vote_receipt \<times> governance, gov_error) result" where
  "gov_cast_vote e pid voter side credits s =
     and_then (require_auth e voter) (\<lambda>_.
     if credits \<le> 0 then Err InvalidCredits
     else
       and_then (get_proposal pid s) (\<lambda>p.
       if \<not> is_open p \<or> voting_ends_at p < sequence e then Err ProposalClosed
       else
         and_then (ok_or (voters s voter) VoterNotRegistered) (\<lambda>profile.
         let r = receipt_or_new pid voter side profile s
         in if 0 < credits_spent r \<and> support r \<noteq> side then Err VoteSideMismatch
            else
              and_then (ok_or (checked_add (credits_spent r) credits) InvalidCredits) (\<lambda>updated.
              if voting_units_snapshot r < updated then Err InsufficientVotingUnits
              else
                and_then (gov_sqrt e (credits_spent r)) (\<lambda>votes_before.
                and_then (gov_sqrt e updated) (\<lambda>votes_after.
                if votes_after \<le> votes_before then Err InvalidCredits
                else
                  and_then (plain_i128 e (votes_after - votes_before)) (\<lambda>delta.
                  and_then (add_votes side delta p) (\<lambda>p.
                  let r = r\<lparr>support := side, credits_spent := updated, votes_cast := votes_after\<rparr>;
                      s = write_proposal p s
                  in Ok (r, s\<lparr>receipts := (receipts s)((pid, voter) \<mapsto> r)\<rparr>)))))))))"

definition gov_create_voting_snapshot ::
  "env \<Rightarrow> address \<Rightarrow> governance \<Rightarrow> (voting_snapshot \<times> governance, gov_error) result" where
  "gov_create_voting_snapshot e voter s =
     and_then (ok_or (voters s voter) VoterNotRegistered) (\<lambda>profile.
     and_then (snap_get_next_snapshot_id e s) (\<lambda>(i, s).
     Ok (snap_create_voting_snapshot e voter i s)))"

definition gov_get_snapshot_voting_power :: "address \<Rightarrow> u64 \<Rightarrow> governance \<Rightarrow> i128 option" where
  "gov_get_snapshot_voting_power voter i s = snap_read_snapshot_voting_power voter i s"

section \<open>Histories\<close>

datatype gov_call =
    Initialize address i128 bool
  | InitializeWithSigners "address list" u32 i128 bool
  | RegisterVoter address i128 bytes32
  | RegisterVoterWithApprovals address i128 bytes32 "address list"
  | CreateProposal string string u32
  | CreateProposalWithApprovals string string u32 "address list"
  | CloseProposal u32
  | CloseProposalWithApprovals u32 "address list"
  | AddSigner "address list" address
  | RemoveSigner "address list" address
  | SetSignatureThreshold "address list" u32
  | EnableModule "address list" address
  | DisableModule "address list" address
  | CastVote u32 address bool i128
  | CreateVotingSnapshot address

definition gov_drop :: "('r \<times> governance, gov_error) result \<Rightarrow> (governance, gov_error) result" where
  "gov_drop m = and_then m (\<lambda>(r, s). Ok s)"

fun gov_exec :: "env \<Rightarrow> gov_call \<Rightarrow> governance \<Rightarrow> (governance, gov_error) result" where
  "gov_exec e (Initialize a m b) s = gov_initialize e a m b s"
| "gov_exec e (InitializeWithSigners as t m b) s = gov_initialize_with_signers e as t m b s"
| "gov_exec e (RegisterVoter v u i) s = gov_drop (gov_register_voter e v u i s)"
| "gov_exec e (RegisterVoterWithApprovals v u i as) s = gov_drop (gov_register_voter_with_approvals e v u i as s)"
| "gov_exec e (CreateProposal t d n) s = gov_drop (gov_create_proposal e t d n s)"
| "gov_exec e (CreateProposalWithApprovals t d n as) s = gov_drop (gov_create_proposal_with_approvals e t d n as s)"
| "gov_exec e (CloseProposal i) s = gov_drop (gov_close_proposal e i s)"
| "gov_exec e (CloseProposalWithApprovals i as) s = gov_drop (gov_close_proposal_with_approvals e i as s)"
| "gov_exec e (AddSigner as a) s = gov_add_signer e as a s"
| "gov_exec e (RemoveSigner as a) s = gov_remove_signer e as a s"
| "gov_exec e (SetSignatureThreshold as t) s = gov_set_signature_threshold e as t s"
| "gov_exec e (EnableModule as m) s = gov_enable_module e as m s"
| "gov_exec e (DisableModule as m) s = gov_disable_module e as m s"
| "gov_exec e (CastVote i v b c) s = gov_drop (gov_cast_vote e i v b c s)"
| "gov_exec e (CreateVotingSnapshot v) s = gov_drop (gov_create_voting_snapshot e v s)"

definition fresh_governance :: governance where
  "fresh_governance = \<lparr>committee_guard = fresh_guard, gov_admin_slot = None, min_voting_units_slot = None,
     identity_required_slot = None, next_proposal_id = None, voters = Map.empty, identity_owner = Map.empty,
     proposals = Map.empty, receipts = Map.empty, modules = Map.empty, voting_power = Map.empty,
     voting_snapshots = Map.empty, proposal_snapshot = Map.empty, snapshot_counter = None\<rparr>"

text \<open>The states of a deployed contract: any calls, by anyone, in either build.\<close>

definition gov_run :: "governance \<Rightarrow> bool" where
  "gov_run = reach (\<lambda>s. s = fresh_governance) (\<lambda>s s'. \<exists>e c. gov_exec e c s = Ok s')"

end
