(* ===== verification/Gov_Votes.thy ===== *)
theory Gov_Votes
  imports Governance
begin

text \<open>
  The properties of the governance contract: its square root, the committee, the identities of the
  voters, and tallies that are the sums of the receipts.
\<close>

section \<open>The square root\<close>

definition is_root :: "int \<Rightarrow> int \<Rightarrow> bool" where
  "is_root x r \<longleftrightarrow> 0 \<le> r \<and> r * r \<le> x \<and> x < (r + 1) * (r + 1)"

lemma is_root_mono:
  assumes "is_root x r" and "is_root y q" and "x \<le> y"
  shows "r \<le> q"
proof (rule ccontr)
  assume "\<not> r \<le> q"
  then have "(q + 1) * (q + 1) \<le> r * r" using assms by (intro mult_mono) (auto simp: is_root_def)
  with assms show False by (simp add: is_root_def)
qed

lemma is_root_unique: "is_root x r \<Longrightarrow> is_root x q \<Longrightarrow> r = q"
  using is_root_mono [of x r x q] is_root_mono [of x q x r] by simp

lemma is_root_le: "is_root x r \<Longrightarrow> r \<le> x"
  by (cases "r = 0") (auto simp: is_root_def intro: order_trans [of r "r * r"])

text \<open>One round of Newton's iteration from above stays above the root and inside the machine range.\<close>

lemma newton_above:
  fixes x y :: int
  assumes "0 < x" and "0 < y"
  shows "x < ((x div y + y) div 2 + 1) * ((x div y + y) div 2 + 1)"
proof -
  define q where "q = x div y"
  define w where "w = (q + y) div 2"
  have q: "0 \<le> q" using assms by (simp add: q_def pos_imp_zdiv_nonneg_iff)
  have "x = q * y + x mod y" by (simp add: q_def)
  then have "x < q * y + y" using pos_mod_bound [of y x] assms by linarith
  moreover have "4 * (q * y + y) \<le> (q + 1 + y) * (q + 1 + y)"
    using zero_le_square [of "q + 1 - y"] by (simp add: algebra_simps)
  moreover have "q + 1 + y \<le> 2 * (w + 1)" unfolding w_def by presburger
  then have "(q + 1 + y) * (q + 1 + y) \<le> (2 * (w + 1)) * (2 * (w + 1))"
    using q assms by (intro mult_mono) auto
  ultimately have "4 * x < 4 * ((w + 1) * (w + 1))" by (simp add: algebra_simps)
  then show ?thesis by (simp add: w_def q_def)
qed

lemma newton_pos:
  fixes x y :: int
  assumes "0 < y" and "y \<le> x"
  shows "0 < (x div y + y) div 2"
proof -
  have "1 \<le> x div y" using assms by (simp add: int_one_le_iff_zero_less pos_imp_zdiv_pos_iff)
  with assms show ?thesis by linarith
qed

lemma newton_sum:
  fixes x y :: int
  assumes "0 < y" and "y \<le> x"
  shows "0 \<le> x div y" and "x div y + y \<le> x + 1"
proof -
  have q: "1 \<le> x div y" using assms by (simp add: int_one_le_iff_zero_less pos_imp_zdiv_pos_iff)
  then show "0 \<le> x div y" by simp
  have "0 \<le> (x div y - 1) * (y - 1)" using q assms by simp
  then have "x div y + y \<le> x div y * y + 1" by (simp add: algebra_simps)
  also have "x div y * y \<le> x" using assms pos_mod_sign [of y x] div_mult_mod_eq [of x y] by linarith
  finally show "x div y + y \<le> x + 1" by simp
qed

lemma sqrt_round:
  assumes "z < y" and "0 < z" and "z \<le> x" and "x < i128_max"
  shows "sqrt_loop e x y z = sqrt_loop e x z ((x div z + z) div 2)"
proof -
  have "in_i128 (x div z + z)"
    using newton_sum [of z x] assms by (simp add: in_i128_def i128_min_def)
  then show ?thesis
    using assms newton_sum [of z x] by (subst sqrt_loop.simps) (simp add: div_i128_pos plain_i128_ok)
qed

lemma sqrt_loop_root:
  assumes "0 < y" and "y \<le> x" and "x < i128_max" and "x < (y + 1) * (y + 1)"
  shows "\<exists>r. sqrt_loop e x y ((x div y + y) div 2) = Ok r \<and> is_root x r"
  using assms
proof (induction "nat y" arbitrary: y rule: less_induct)
  case less
  let ?z = "(x div y + y) div 2"
  show ?case
  proof (cases "?z < y")
    case True
    have z: "0 < ?z" "?z \<le> x" using newton_pos [of y x] less.prems True by auto
    have "sqrt_loop e x y ?z = sqrt_loop e x ?z ((x div ?z + ?z) div 2)"
      using True z less.prems(3) by (rule sqrt_round)
    moreover have "x < (?z + 1) * (?z + 1)" using newton_above [of x y] less.prems by simp
    moreover have "nat ?z < nat y" using True z by simp
    ultimately show ?thesis using less.hyps [of ?z] z less.prems(3) by presburger
  next
    case False
    then have "y \<le> x div y" by linarith
    then have "y * y \<le> x div y * y" using less.prems by simp
    also have "\<dots> \<le> x" using less.prems pos_mod_sign [of y x] div_mult_mod_eq [of x y] by linarith
    finally show ?thesis using False less.prems by (subst sqrt_loop.simps) (simp add: is_root_def)
  qed
qed

lemma gov_sqrt_root:
  assumes "0 \<le> x" and "x < i128_max"
  shows "\<exists>r. gov_sqrt e x = Ok r \<and> is_root x r"
proof (cases "x = 0")
  case False
  with assms have x: "0 < x" by simp
  then have "gov_sqrt e x = sqrt_loop e x x ((x div x + x) div 2)"
    using assms by (simp add: gov_sqrt_def plain_i128_ok in_i128_def i128_min_def i128_max_def
        div_i128_pos add.commute)
  moreover have "x < (x + 1) * (x + 1)" using x mult_strict_mono' [of x "x + 1" 1 "x + 1"] by simp
  ultimately show ?thesis using sqrt_loop_root [of x x e] x assms by simp
qed (simp add: gov_sqrt_def is_root_def)

text \<open>The largest credit traps in a build that checks overflow and has a negative root in one that does not.\<close>

lemma gov_sqrt_max: "gov_sqrt e i128_max = Ok r \<Longrightarrow> r < 0"
  by (cases "overflow_checks e")
    (simp_all add: gov_sqrt_def plain_i128_def in_i128_def i128_max_def i128_min_def wrap_i128_def
      div_i128_def sqrt_loop.simps signed_divide_int_def sgn_if)

lemma gov_sqrt_ok:
  assumes "gov_sqrt e x = Ok r" and "0 \<le> r" and "in_i128 x" and "0 \<le> x"
  shows "is_root x r"
proof -
  have "x \<noteq> i128_max" using gov_sqrt_max assms by fastforce
  with assms(3) have "x < i128_max" by (simp add: in_i128_def)
  then show ?thesis using gov_sqrt_root [of x e] assms by auto
qed

section \<open>The committee\<close>

lemma require_admin_ok [ok_iff]:
  "require_admin e as s = Ok a \<longleftrightarrow>
     gov_admin_slot s = Some a \<and> guard_validate_multi_sig e (committee_guard s) as = Ok ()"
  by (auto simp: require_admin_def)

text \<open>The committee of the contract is the quorum of its embedded guard, once it is initialized.\<close>

interpretation gov_committee: quorum "\<lambda>e s as. and_then (require_admin e as s) (\<lambda>_. Ok ())"
  "\<lambda>s. set (guard_get_admins (committee_guard s))"
  "\<lambda>s. if gov_admin_slot s = None then None else map_option unat (signature_threshold (committee_guard s))"
  by unfold_locales (auto simp: ok_iff validate_multi_sig_ok)

lemma gov_exec_cases [consumes 1,
    case_names init register create close add remove threshold enable disable vote snapshot]:
  assumes "gov_exec e c s = Ok s'"
  obtains (init) as t m b where "initialize_governance e as t m b s = Ok s'"
  | (register) v u i as p where "register_voter e v u i as s = Ok (p, s')"
  | (create) ti de n as p where "create_proposal e ti de n as s = Ok (p, s')"
  | (close) i as p where "close_proposal e i as s = Ok (p, s')"
  | (add) as a where "gov_add_signer e as a s = Ok s'"
  | (remove) as a where "gov_remove_signer e as a s = Ok s'"
  | (threshold) as t where "gov_set_signature_threshold e as t s = Ok s'"
  | (enable) as m where "gov_enable_module e as m s = Ok s'"
  | (disable) as m where "gov_disable_module e as m s = Ok s'"
  | (vote) i v b n r where "gov_cast_vote e i v b n s = Ok (r, s')"
  | (snapshot) v r where "gov_create_voting_snapshot e v s = Ok (r, s')"
  using assms
  by (cases c)
    (auto simp: gov_drop_def gov_initialize_def gov_initialize_with_signers_def gov_register_voter_def
      gov_register_voter_with_approvals_def gov_create_proposal_def gov_create_proposal_with_approvals_def
      gov_close_proposal_def gov_close_proposal_with_approvals_def)

lemma unique_admins_loop_ok:
  "unique_admins_loop e as u = Ok r \<Longrightarrow> distinct u \<Longrightarrow> distinct (u @ as) \<and> (\<forall>a\<in>set as. authorized e a)"
  by (induction e as u rule: unique_admins_loop.induct) (auto simp: ok_iff)

lemma initialize_ok:
  assumes "initialize_governance e as t m b s = Ok s'"
  shows "gov_admin_slot s = None" and "0 < m" and "distinct as" and "\<forall>a\<in>set as. authorized e a"
    and "\<exists>g a. eg_initialize as t (committee_guard s) = Ok g \<and> a \<in> set as
      \<and> s' = s\<lparr>committee_guard := g, gov_admin_slot := Some a, min_voting_units_slot := Some m,
              identity_required_slot := Some b, next_proposal_id := Some 0\<rparr>"
  using assms
  by (auto simp: initialize_governance_def ok_iff first_of_def dest!: unique_admins_loop_ok split: list.splits)

lemma next_snapshot_ok:
  "snap_get_next_snapshot_id e s = Ok (i, s') \<Longrightarrow> s' = s\<lparr>snapshot_counter := Some i\<rparr>"
  by (auto simp: snap_get_next_snapshot_id_def)

lemma create_ok:
  assumes "create_proposal e ti de n as s = Ok (p, s')"
  shows "\<exists>a. require_admin e as s = Ok a" and "sequence e < n"
    and "\<exists>a i pid. pid = (case next_proposal_id s of None \<Rightarrow> 0 | Some i \<Rightarrow> i)
      \<and> p = \<lparr>proposal_id = pid, creator = a, title = ti, description = de, voting_ends_at = n,
             for_votes = 0, against_votes = 0, is_open = True\<rparr>
      \<and> s' = s\<lparr>snapshot_counter := Some i, proposal_snapshot := (proposal_snapshot s)(pid \<mapsto> i),
              proposals := (proposals s)(pid \<mapsto> p), next_proposal_id := Some (saturating_add_word pid 1)\<rparr>"
  using assms
  by (auto simp: create_proposal_def ok_iff Let_def snap_set_proposal_snapshot_def write_proposal_def
      dest!: next_snapshot_ok)

lemma close_ok:
  assumes "close_proposal e i as s = Ok (p, s')"
  shows "\<exists>a. require_admin e as s = Ok a"
    and "\<exists>q. proposals s i = Some q \<and> s' = write_proposal (q\<lparr>is_open := False\<rparr>) s"
  using assms by (auto simp: close_proposal_def get_proposal_def Let_def)

lemma snapshot_ok:
  assumes "gov_create_voting_snapshot e v s = Ok (r, s')"
  shows "\<exists>i. s' = s\<lparr>snapshot_counter := Some i, voting_snapshots := (voting_snapshots s)((i, v) \<mapsto> r)\<rparr>
    \<and> snapshot_power r = read_voting_power v s"
  using assms
  by (auto simp: gov_create_voting_snapshot_def snap_create_voting_snapshot_def Let_def
      read_voting_power_def dest!: next_snapshot_ok)

lemma claim_ok:
  "claim_identity v i s = Ok s' \<longleftrightarrow>
     (if i = zero_identity then s' = s
      else (identity_owner s i = None \<or> identity_owner s i = Some v)
        \<and> s' = s\<lparr>identity_owner := (identity_owner s)(i \<mapsto> v)\<rparr>)"
  by (auto simp: claim_identity_def)

definition released :: "address \<Rightarrow> bytes32 \<Rightarrow> governance \<Rightarrow> bytes32 \<rightharpoonup> address" where
  "released v i s = 
     (case voters s v of
        Some q \<Rightarrow> if identity_commitment q \<noteq> zero_identity \<and> identity_commitment q \<noteq> i
                  then (identity_owner s)(identity_commitment q := None) else identity_owner s
      | None \<Rightarrow> identity_owner s)"

lemma release_identity_eq: "release_identity v i s = s\<lparr>identity_owner := released v i s\<rparr>"
  by (simp add: release_identity_def released_def split: option.splits)

lemma get_config_ok:
  "get_config s = Ok c \<Longrightarrow>
     config_min_voting_units c = (case min_voting_units_slot s of None \<Rightarrow> 1 | Some m \<Rightarrow> m)
     \<and> config_identity_required c = (identity_required_slot s = Some True)"
  by (auto simp: get_config_def split: option.splits)

lemma register_voter_ok:
  assumes "register_voter e v u i as s = Ok (p, s')"
  shows "\<exists>a. require_admin e as s = Ok a" and "p = \<lparr>voting_units = u, identity_commitment = i\<rparr>"
    and "(case min_voting_units_slot s of None \<Rightarrow> 1 | Some m \<Rightarrow> m) \<le> u"
    and "identity_required_slot s = Some True \<longrightarrow> i \<noteq> zero_identity"
    and "i = zero_identity \<or> released v i s i = None \<or> released v i s i = Some v"
    and "s' = s\<lparr>identity_owner := (if i = zero_identity then released v i s else (released v i s)(i \<mapsto> v)),
      voters := (voters s)(v \<mapsto> p)\<rparr>"
proof -
  obtain a c s1 where 1: "require_admin e as s = Ok a" "get_config s = Ok c"
      "\<not> u < config_min_voting_units c" "\<not> (config_identity_required c \<and> i = zero_identity)"
    and 2: "claim_identity v i (s\<lparr>identity_owner := released v i s\<rparr>) = Ok s1"
    and 3: "p = \<lparr>voting_units = u, identity_commitment = i\<rparr>" "s' = s1\<lparr>voters := (voters s1)(v \<mapsto> p)\<rparr>"
    using assms unfolding register_voter_def release_identity_eq Let_def and_then_eq_Ok check_ok
    by auto
  show "\<exists>a. require_admin e as s = Ok a" "p = \<lparr>voting_units = u, identity_commitment = i\<rparr>"
    using 1 3 by simp_all
  show "(case min_voting_units_slot s of None \<Rightarrow> 1 | Some m \<Rightarrow> m) \<le> u"
    "identity_required_slot s = Some True \<longrightarrow> i \<noteq> zero_identity"
    using 1 get_config_ok [of s c] by auto
  show "i = zero_identity \<or> released v i s i = None \<or> released v i s i = Some v"
    using 2 by (auto simp: claim_ok)
  show "s' = s\<lparr>identity_owner := (if i = zero_identity then released v i s else (released v i s)(i \<mapsto> v)),
      voters := (voters s)(v \<mapsto> p)\<rparr>"
    using 2 3(2) by (cases "i = zero_identity") (simp_all add: claim_ok)
qed

text \<open>Once initialized, the contract has a usable committee, and its administrator is a member.\<close>

definition committee_inv :: "governance \<Rightarrow> bool" where
  "committee_inv s \<longleftrightarrow>
     (case gov_admin_slot s of
        None \<Rightarrow> committee_guard s = fresh_guard
      | Some a \<Rightarrow> committee_ok (committee_guard s) \<and> guard_is_admin (committee_guard s) a)"

lemma committee_inv_frame:
  "committee_inv s \<Longrightarrow> committee_guard s' = committee_guard s \<Longrightarrow> gov_admin_slot s' = gov_admin_slot s \<Longrightarrow>
     committee_inv s'"
  by (simp add: committee_inv_def split: option.splits)

lemma add_admin_members:
  "eg_add_admin e as a g = Ok g' \<Longrightarrow> guard_is_admin g b \<Longrightarrow> guard_is_admin g' b"
  by (auto simp: eg_defs guard_add_admin_def guard_is_admin_def guard_get_admins_def Let_def split: if_splits)

lemma remove_admin_members:
  "eg_remove_admin e as a g = Ok g' \<Longrightarrow> set (guard_get_admins g') = set (guard_get_admins g) - {a}"
  by (auto simp: eg_defs guard_remove_admin_def guard_get_admins_def remove_loop_eq
      Let_def split: if_splits)

lemma gov_exec_committee:
  assumes "committee_inv s" and "gov_exec e c s = Ok s'"
  shows "committee_inv s'"
  using assms(2)
proof (cases rule: gov_exec_cases)
  case (init as t m b)
  then obtain g a where g: "guard_init as t fresh_guard = Ok g" "a \<in> set as" "distinct as"
    "committee_guard s' = g" "gov_admin_slot s' = Some a"
    using initialize_ok [of e as t m b s s'] assms(1) by (auto simp: committee_inv_def eg_defs)
  from g(1) have "t \<noteq> 0" "unat t \<le> length as" "admins g = Some as" "signature_threshold g = Some t"
    by (auto simp: guard_init_def split: if_splits)
  with g show ?thesis
    using unat_gt_0 [of t]
    by (simp add: committee_inv_def committee_ok_def guard_is_admin_def guard_get_admins_def Suc_le_eq)
next
  case (add as a)
  then obtain g b where g: "eg_add_admin e as a (committee_guard s) = Ok g" "gov_admin_slot s = Some b"
    "s' = s\<lparr>committee_guard := g\<rparr>" by (auto simp: gov_add_signer_def ok_iff)
  with assms(1) show ?thesis
    by (auto simp: committee_inv_def intro: eg_step_committee eg_step.add_admin add_admin_members)
next
  case (remove as a)
  then obtain g b where g: "eg_remove_admin e as a (committee_guard s) = Ok g" "gov_admin_slot s = Some b"
    "if a = b then (\<exists>n. first_of (guard_get_admins g) = Some n \<and> s' = s\<lparr>committee_guard := g, gov_admin_slot := Some n\<rparr>)
     else s' = s\<lparr>committee_guard := g\<rparr>" by (auto simp: gov_remove_signer_def ok_iff Let_def split: if_splits)
  moreover have "committee_ok g"
    using g assms(1) by (auto simp: committee_inv_def intro: eg_step_committee eg_step.remove_admin)
  ultimately show ?thesis using assms(1)
    by (auto simp: committee_inv_def remove_admin_members first_of_def guard_is_admin_def
        split: if_splits list.splits)
next
  case (threshold as t)
  with assms(1) unat_gt_0 [of t] show ?thesis
    by (auto simp: gov_set_signature_threshold_def ok_iff committee_inv_def guard_is_admin_def
        guard_get_admins_def Suc_le_eq committee_ok_def split: option.splits)
next
  case (register v u i as p)
  show ?thesis using assms(1) register_voter_ok(6) [OF register] by (auto intro: committee_inv_frame)
next
  case (create ti de n as p)
  show ?thesis using assms(1) create_ok(3) [OF create] by (auto intro: committee_inv_frame)
next
  case (close i as p)
  show ?thesis using assms(1) close_ok(2) [OF close] by (auto simp: write_proposal_def intro: committee_inv_frame)
next
  case (vote i v b n r)
  then have "committee_guard s' = committee_guard s" "gov_admin_slot s' = gov_admin_slot s"
    by (auto simp: gov_cast_vote_def ok_iff Let_def write_proposal_def)
  with assms(1) show ?thesis by (auto intro: committee_inv_frame)
next
  case (snapshot v r)
  show ?thesis using assms(1) snapshot_ok [OF snapshot] by (auto intro: committee_inv_frame)
qed (use assms(1) in \<open>auto simp: gov_enable_module_def gov_disable_module_def ok_iff intro: committee_inv_frame\<close>)

lemma gov_run_invariant [consumes 1, case_names init step]:
  assumes "gov_run s" and "I fresh_governance"
    and "\<And>s s' e c. gov_run s \<Longrightarrow> I s \<Longrightarrow> gov_exec e c s = Ok s' \<Longrightarrow> I s'"
  shows "I s"
  using assms(1) unfolding gov_run_def
  by (induction rule: reach_invariant) (use assms(2,3) in \<open>auto simp: gov_run_def\<close>)

lemma gov_run_committee: "gov_run s \<Longrightarrow> committee_inv s"
proof (induction rule: gov_run_invariant)
  case init
  then show ?case by (simp add: committee_inv_def fresh_governance_def)
qed (rule gov_exec_committee)

section \<open>Identities\<close>

text \<open>
  The owners of the commitments are the voters that registered them, and every voter has at least
  the minimum of voting units and, where it is required, an identity.
\<close>

definition identity_inv :: "governance \<Rightarrow> bool" where
  "identity_inv s \<longleftrightarrow>
     (\<forall>c v. identity_owner s c = Some v \<longleftrightarrow>
        c \<noteq> zero_identity \<and> map_option identity_commitment (voters s v) = Some c)
     \<and> (\<forall>v p. voters s v = Some p \<longrightarrow>
          (\<exists>m. min_voting_units_slot s = Some m \<and> 0 < m \<and> m \<le> voting_units p)
          \<and> (identity_required_slot s = Some True \<longrightarrow> identity_commitment p \<noteq> zero_identity))
     \<and> (case gov_admin_slot s of
          None \<Rightarrow> voters s = Map.empty
        | Some a \<Rightarrow> (\<exists>m. min_voting_units_slot s = Some m \<and> 0 < m))"

lemma identity_inv_frame:
  "identity_inv s \<Longrightarrow> identity_owner s' = identity_owner s \<Longrightarrow> voters s' = voters s \<Longrightarrow>
     min_voting_units_slot s' = min_voting_units_slot s \<Longrightarrow>
     identity_required_slot s' = identity_required_slot s \<Longrightarrow>
     (gov_admin_slot s' = None) = (gov_admin_slot s = None) \<Longrightarrow> identity_inv s'"
  by (simp add: identity_inv_def split: option.splits)

lemma identity_owner_iff:
  "identity_inv s \<Longrightarrow> identity_owner s c = Some v \<longleftrightarrow>
     c \<noteq> zero_identity \<and> map_option identity_commitment (voters s v) = Some c"
  by (simp add: identity_inv_def)

lemma released_eq:
  assumes "identity_inv s"
  shows "released v i s c = Some w \<longleftrightarrow> identity_owner s c = Some w \<and> (w = v \<longrightarrow> c = i)"
proof (cases "voters s v")
  case None
  then show ?thesis using identity_owner_iff [OF assms, of c v] by (auto simp: released_def)
next
  case (Some q)
  then have "identity_owner s c = Some v \<longleftrightarrow> c \<noteq> zero_identity \<and> identity_commitment q = c"
    using identity_owner_iff [OF assms, of c v] by simp
  with Some show ?thesis by (auto simp: released_def)
qed

lemma register_identity:
  assumes "identity_inv s" and "register_voter e v u i as s = Ok (p, s')"
  shows "identity_inv s'"
proof -
  note r = register_voter_ok [OF assms(2)]
  obtain a m where a: "gov_admin_slot s = Some a" "min_voting_units_slot s = Some m" "0 < m"
    using r(1) assms(1) by (auto simp: ok_iff identity_inv_def)
  have owner: "identity_owner s' c = Some w \<longleftrightarrow>
      c \<noteq> zero_identity \<and> map_option identity_commitment (voters s' w) = Some c" for c w
  proof (cases "w = v")
    case True
    then show ?thesis
      using released_eq [OF assms(1), of v i c w] identity_owner_iff [OF assms(1), of c w] r(2,6) by auto
  next
    case False
    then show ?thesis
      using released_eq [OF assms(1), of v i c w] identity_owner_iff [OF assms(1), of c w] r(5,6) by auto
  qed
  show ?thesis
    using assms(1) a owner r(2-4,6) by (simp add: identity_inv_def)
qed

lemma gov_exec_identity:
  assumes "identity_inv s" and "gov_exec e c s = Ok s'"
  shows "identity_inv s'"
  using assms(2)
proof (cases rule: gov_exec_cases)
  case (init as t m b)
  with assms(1) initialize_ok [of e as t m b s s'] show ?thesis by (auto simp: identity_inv_def)
next
  case (register v u i as p)
  with assms(1) show ?thesis by (rule register_identity)
next
  case (create ti de n as p)
  show ?thesis using assms(1) create_ok(3) [OF create] by (auto intro: identity_inv_frame)
next
  case (close i as p)
  show ?thesis using assms(1) close_ok(2) [OF close] by (auto simp: write_proposal_def intro: identity_inv_frame)
next
  case (vote i v b n r)
  with assms(1) show ?thesis
    by (auto simp: gov_cast_vote_def ok_iff Let_def write_proposal_def intro: identity_inv_frame)
next
  case (snapshot v r)
  show ?thesis using assms(1) snapshot_ok [OF snapshot] by (auto intro: identity_inv_frame)
qed (use assms(1) in \<open>auto simp: gov_add_signer_def gov_remove_signer_def gov_set_signature_threshold_def
    gov_enable_module_def gov_disable_module_def ok_iff Let_def split: if_splits intro: identity_inv_frame\<close>)

lemma gov_run_identity: "gov_run s \<Longrightarrow> identity_inv s"
proof (induction rule: gov_run_invariant)
  case init
  then show ?case by (simp add: identity_inv_def fresh_governance_def)
qed (rule gov_exec_identity)

section \<open>Tallies\<close>

text \<open>The votes of the receipts on one side of a proposal, by voter.\<close>

definition votes_on :: "governance \<Rightarrow> u32 \<Rightarrow> bool \<Rightarrow> address \<rightharpoonup> i128" where
  "votes_on s pid b v =
     (case receipts s (pid, v) of
        Some r \<Rightarrow> if support r = b then Some (votes_cast r) else None
      | None \<Rightarrow> None)"

definition tally :: "bool \<Rightarrow> proposal \<Rightarrow> i128" where
  "tally b p = (if b then for_votes p else against_votes p)"

definition receipt_ok :: "vote_receipt \<Rightarrow> bool" where
  "receipt_ok r \<longleftrightarrow> 0 < votes_cast r \<and> is_root (credits_spent r) (votes_cast r)
     \<and> credits_spent r \<le> voting_units_snapshot r"

definition next_id :: "governance \<Rightarrow> u32" where
  "next_id s = (case next_proposal_id s of None \<Rightarrow> 0 | Some i \<Rightarrow> i)"

definition tally_inv :: "governance \<Rightarrow> bool" where
  "tally_inv s \<longleftrightarrow>
     finite (dom (receipts s))
     \<and> (\<forall>k r. receipts s k = Some r \<longrightarrow> receipt_ok r \<and> proposals s (fst k) \<noteq> None)
     \<and> (\<forall>pid p. proposals s pid = Some p \<longrightarrow> proposal_id p = pid \<and> gov_admin_slot s \<noteq> None)
     \<and> (next_id s \<noteq> - 1 \<longrightarrow>
          (\<forall>pid p. proposals s pid = Some p \<longrightarrow>
             pid < next_id s \<and> (\<forall>b. tally b p = map_total (votes_on s pid b))))"

lemma votes_on_finite: "finite (dom (receipts s)) \<Longrightarrow> finite (dom (votes_on s pid b))"
  by (rule finite_subset [of _ "snd ` dom (receipts s)"])
    (force simp: votes_on_def split: option.splits if_splits)+

lemma votes_on_frame: "receipts s' = receipts s \<Longrightarrow> votes_on s' = votes_on s"
  by (simp add: votes_on_def fun_eq_iff)

lemma add_votes_ok:
  assumes "add_votes b d p = Ok p'"
  shows "tally b p' = tally b p + d" and "tally (\<not> b) p' = tally (\<not> b) p"
    and "proposal_id p' = proposal_id p" and "voting_ends_at p' = voting_ends_at p" and "is_open p' = is_open p"
  using assms by (auto simp: add_votes_def tally_def split: if_splits)

lemma receipts_write [simp]: "receipts (write_proposal p s) = receipts s"
  by (simp add: write_proposal_def)

lemma vote_passed:
  assumes "gov_cast_vote e pid v b n s = Ok (r', s')"
  shows "\<exists>p q r m0 m d p'. authorized e v \<and> 0 < n \<and> proposals s pid = Some p \<and> is_open p
    \<and> sequence e \<le> voting_ends_at p \<and> voters s v = Some q \<and> r = receipt_or_new pid v b q s
    \<and> \<not> (0 < credits_spent r \<and> support r \<noteq> b) \<and> in_i128 (credits_spent r + n)
    \<and> credits_spent r + n \<le> voting_units_snapshot r \<and> gov_sqrt e (credits_spent r) = Ok m0
    \<and> gov_sqrt e (credits_spent r + n) = Ok m \<and> m0 < m \<and> (plain_i128 e (m - m0) :: (i128, gov_error) result) = Ok d
    \<and> add_votes b d p = Ok p'
    \<and> r' = r\<lparr>support := b, credits_spent := credits_spent r + n, votes_cast := m\<rparr>
    \<and> s' = (write_proposal p' s)\<lparr>receipts := (receipts s)((pid, v) \<mapsto> r')\<rparr>"
  using assms
  unfolding gov_cast_vote_def get_proposal_def Let_def and_then_eq_Ok check_ok ok_or_eq checked_add_eq
    require_auth_eq not_less not_le result.inject prod.inject de_Morgan_disj not_not
  by (elim exE conjE) (intro exI conjI, (assumption | rule refl | simp; fail)+)

lemma receipt_or_new_ok:
  assumes "tally_inv s"
  shows "is_root (credits_spent (receipt_or_new pid v b q s)) (votes_cast (receipt_or_new pid v b q s))"
    and "receipts s (pid, v) \<noteq> None \<longrightarrow> 0 < credits_spent (receipt_or_new pid v b q s)"
proof -
  show "is_root (credits_spent (receipt_or_new pid v b q s)) (votes_cast (receipt_or_new pid v b q s))"
    using assms
    by (cases "receipts s (pid, v)") (simp_all add: receipt_or_new_def tally_inv_def receipt_ok_def is_root_def)
  then show "receipts s (pid, v) \<noteq> None \<longrightarrow> 0 < credits_spent (receipt_or_new pid v b q s)"
    using assms is_root_le
    by (cases "receipts s (pid, v)")
      (force simp: receipt_or_new_def tally_inv_def receipt_ok_def)+
qed

text \<open>What an accepted vote did: it raised one receipt to the root of its credits and one tally by the rest.\<close>

lemma vote_ok:
  assumes "gov_cast_vote e pid v b n s = Ok (r', s')" and "tally_inv s"
  obtains p q r p' m where "authorized e v" "0 < n" "proposals s pid = Some p" "is_open p"
    "sequence e \<le> voting_ends_at p" "voters s v = Some q" "r = receipt_or_new pid v b q s"
    "receipts s (pid, v) \<noteq> None \<longrightarrow> support r = b"
    "is_root (credits_spent r + n) m" "votes_cast r < m" "credits_spent r + n \<le> voting_units_snapshot r"
    "add_votes b (m - votes_cast r) p = Ok p'"
    "r' = r\<lparr>support := b, credits_spent := credits_spent r + n, votes_cast := m\<rparr>"
    "s' = s\<lparr>proposals := (proposals s)(pid \<mapsto> p'), receipts := (receipts s)((pid, v) \<mapsto> r')\<rparr>"
proof -
  obtain p q r m0 m d p' where
    1: "authorized e v" "0 < n" "proposals s pid = Some p" "is_open p" "sequence e \<le> voting_ends_at p"
      "voters s v = Some q" and r: "r = receipt_or_new pid v b q s"
    and 2: "\<not> (0 < credits_spent r \<and> support r \<noteq> b)" "in_i128 (credits_spent r + n)"
      "credits_spent r + n \<le> voting_units_snapshot r" "gov_sqrt e (credits_spent r) = Ok m0"
      "gov_sqrt e (credits_spent r + n) = Ok m" "m0 < m" "(plain_i128 e (m - m0) :: (i128, gov_error) result) = Ok d"
      "add_votes b d p = Ok p'"
    and 3: "r' = r\<lparr>support := b, credits_spent := credits_spent r + n, votes_cast := m\<rparr>"
      "s' = (write_proposal p' s)\<lparr>receipts := (receipts s)((pid, v) \<mapsto> r')\<rparr>"
    using vote_passed [OF assms(1)] by blast
  have old: "is_root (credits_spent r) (votes_cast r)" "receipts s (pid, v) \<noteq> None \<longrightarrow> 0 < credits_spent r"
    using receipt_or_new_ok [OF assms(2)] r by simp_all
  have c: "0 \<le> credits_spent r" "credits_spent r < i128_max"
    using is_root_le [OF old(1)] old(1) 1(2) 2(2) by (simp_all add: is_root_def in_i128_def)
  obtain m' where "gov_sqrt e (credits_spent r) = Ok m'" "is_root (credits_spent r) m'"
    using gov_sqrt_root [OF c] by blast
  with 2(4) old(1) have m0: "m0 = votes_cast r" by (simp add: is_root_unique)
  have v0: "0 \<le> votes_cast r" using old(1) by (simp add: is_root_def)
  have m: "is_root (credits_spent r + n) m"
    using gov_sqrt_ok [OF 2(5)] 2(2,6) c(1) 1(2) v0 m0 by simp
  have "in_i128 (m - m0)"
    using in_i128_between [OF in_i128_0 2(2), of "m - m0"] is_root_le [OF m] 2(6) v0 m0 by simp
  with 2(7) have d: "d = m - votes_cast r" by (simp add: plain_i128_ok m0)
  have p': "proposal_id p' = pid" using add_votes_ok(3) [OF 2(8)] assms(2) 1(3) by (simp add: tally_inv_def)
  show ?thesis
  proof (rule that [OF 1 r])
    show "receipts s (pid, v) \<noteq> None \<longrightarrow> support r = b" using 2(1) old(2) by blast
    show "s' = s\<lparr>proposals := (proposals s)(pid \<mapsto> p'), receipts := (receipts s)((pid, v) \<mapsto> r')\<rparr>"
      using 3(2) p' by (simp add: write_proposal_def)
  qed (use m 2(3,6,8) m0 d 3(1) in simp_all)
qed

lemma votes_on_receipt:
  assumes "receipts s (pid, v) \<noteq> None \<longrightarrow> support (the (receipts s (pid, v))) = support r"
    and "receipts s' = (receipts s)((pid, v) \<mapsto> r)"
  shows "votes_on s' i b =
    (if i = pid \<and> b = support r then (votes_on s i b)(v \<mapsto> votes_cast r) else votes_on s i b)"
  using assms by (cases "receipts s (pid, v)") (auto simp: votes_on_def fun_eq_iff)

lemma next_id_up:
  fixes i :: u32
  assumes "saturating_add_word i 1 \<noteq> - 1"
  shows "i \<noteq> - 1" and "j \<le> i \<Longrightarrow> j < saturating_add_word i 1"
proof -
  have i: "unat i + 1 < 2 ^ 32"
    using assms by (auto simp: saturating_add_word_def checked_add_word_def split: if_splits)
  then show "i \<noteq> - 1" by (auto simp: unsigned_minus_1_eq_mask mask_eq_exp_minus_1)
  show "j < saturating_add_word i 1" if "j \<le> i"
    using that i by (auto simp: saturating_add_word_def checked_add_word_def word_less_nat_alt word_le_nat_alt
        unat_word_ariths)
qed

lemma create_tally:
  assumes "tally_inv s" and "create_proposal e ti de n as s = Ok (p, s')"
  shows "tally_inv s'"
proof -
  let ?i = "next_id s"
  obtain a where a: "gov_admin_slot s = Some a" using create_ok(1) [OF assms(2)] by (auto simp: ok_iff)
  from create_ok(3) [OF assms(2)]
  have p: "proposal_id p = ?i" "tally b p = 0" for b by (auto simp: next_id_def tally_def)
  from create_ok(3) [OF assms(2)]
  have s': "proposals s' = (proposals s)(?i \<mapsto> p)" "receipts s' = receipts s"
    "next_id s' = saturating_add_word ?i 1" "gov_admin_slot s' = gov_admin_slot s"
    by (auto simp: next_id_def)
  have new: "map_total (votes_on s ?i b) = 0" if "next_id s \<noteq> - 1" for b
  proof -
    have "proposals s ?i = None"
      using assms(1) that by (cases "proposals s ?i") (auto simp: tally_inv_def)
    then have "receipts s (?i, v) = None" for v
      using assms(1) unfolding tally_inv_def by (metis fst_conv not_None_eq)
    then have "votes_on s ?i b = Map.empty" by (simp add: votes_on_def fun_eq_iff)
    then show ?thesis by simp
  qed
  have "pid < next_id s' \<and> (\<forall>b. tally b q = map_total (votes_on s' pid b))"
    if "next_id s' \<noteq> - 1" "proposals s' pid = Some q" for pid q
    using that assms(1) new p next_id_up [of ?i] unfolding s' votes_on_frame [OF s'(2)]
    by (cases "pid = ?i") (auto simp: tally_inv_def less_imp_le)
  then show ?thesis
    using assms(1) s' a p by (auto simp: tally_inv_def)
qed

lemma vote_tally:
  assumes "tally_inv s" and "gov_cast_vote e pid v b n s = Ok (r', s')"
  shows "tally_inv s'"
  using assms(2,1)
proof (rule vote_ok)
  fix p q r p' m
  assume h: "proposals s pid = Some p" "r = receipt_or_new pid v b q s"
    "receipts s (pid, v) \<noteq> None \<longrightarrow> support r = b" "is_root (credits_spent r + n) m" "votes_cast r < m"
    "credits_spent r + n \<le> voting_units_snapshot r" "add_votes b (m - votes_cast r) p = Ok p'"
    "r' = r\<lparr>support := b, credits_spent := credits_spent r + n, votes_cast := m\<rparr>"
    and s': "s' = s\<lparr>proposals := (proposals s)(pid \<mapsto> p'), receipts := (receipts s)((pid, v) \<mapsto> r')\<rparr>"
  have on: "votes_on s' i c = (if i = pid \<and> c = b then (votes_on s i c)(v \<mapsto> m) else votes_on s i c)" for i c
  proof -
    have "receipts s (pid, v) \<noteq> None \<longrightarrow> support (the (receipts s (pid, v))) = support r'"
      using h(2,3,8) by (auto simp: receipt_or_new_def)
    from votes_on_receipt [OF this, of s'] show ?thesis by (simp add: s' h(8))
  qed
  have "get0 (votes_on s pid b) v = votes_cast r"
    using h(2,3) by (cases "receipts s (pid, v)") (auto simp: votes_on_def get0_def receipt_or_new_def)
  moreover have fin: "finite (dom (receipts s))" using assms(1) by (simp add: tally_inv_def)
  ultimately have up: "map_total ((votes_on s pid b)(v \<mapsto> m)) = map_total (votes_on s pid b) + (m - votes_cast r)"
    using votes_on_finite [OF fin] by simp
  have "receipt_ok r'"
    using h(4-6,8) receipt_or_new_ok(1) [OF assms(1), of pid v b q] h(2) by (simp add: receipt_ok_def is_root_def)
  moreover have "tally c p' = map_total (votes_on s' pid c)" if "next_id s \<noteq> - 1" for c
    using that assms(1) h(1) add_votes_ok(1,2) [OF h(7)] up
    by (cases "c = b") (auto simp: on tally_inv_def)
  moreover have "proposals s' = (proposals s)(pid \<mapsto> p')" "receipts s' = (receipts s)((pid, v) \<mapsto> r')"
    "next_id s' = next_id s" "gov_admin_slot s' = gov_admin_slot s"
    by (simp_all add: s' next_id_def)
  moreover have "votes_on s' i = votes_on s i" if "i \<noteq> pid" for i using that by (simp add: on fun_eq_iff)
  ultimately show "tally_inv s'"
    using assms(1) h(1) add_votes_ok(3) [OF h(7)] unfolding tally_inv_def by auto
qed

definition same_ballots :: "governance \<Rightarrow> governance \<Rightarrow> bool" where
  "same_ballots s s' \<longleftrightarrow> proposals s' = proposals s \<and> receipts s' = receipts s
     \<and> next_proposal_id s' = next_proposal_id s \<and> (gov_admin_slot s \<noteq> None \<longrightarrow> gov_admin_slot s' \<noteq> None)"

lemma same_ballots_tally: "same_ballots s s' \<Longrightarrow> tally_inv s \<Longrightarrow> tally_inv s'"
  unfolding tally_inv_def same_ballots_def next_id_def by (elim conjE) (simp add: votes_on_frame [of s' s])

lemma ballots_frame:
  "register_voter e v u i as s = Ok (p, s') \<Longrightarrow> same_ballots s s'"
  "gov_add_signer e as a s = Ok s' \<Longrightarrow> same_ballots s s'"
  "gov_remove_signer e as a s = Ok s' \<Longrightarrow> same_ballots s s'"
  "gov_set_signature_threshold e as t s = Ok s' \<Longrightarrow> same_ballots s s'"
  "gov_enable_module e as a s = Ok s' \<Longrightarrow> same_ballots s s'"
  "gov_disable_module e as a s = Ok s' \<Longrightarrow> same_ballots s s'"
  "gov_create_voting_snapshot e v s = Ok (r, s') \<Longrightarrow> same_ballots s s'"
  by (auto simp: same_ballots_def gov_add_signer_def gov_remove_signer_def gov_set_signature_threshold_def
      gov_enable_module_def gov_disable_module_def check_ok Let_def
      dest!: register_voter_ok(6) snapshot_ok split: if_splits)

lemma close_tally:
  assumes "tally_inv s" and "close_proposal e i as s = Ok (p, s')"
  shows "tally_inv s'"
proof -
  obtain q where q: "proposals s i = Some q" "s' = write_proposal (q\<lparr>is_open := False\<rparr>) s"
    using close_ok(2) [OF assms(2)] by blast
  moreover have "proposal_id q = i" using assms(1) q(1) by (simp add: tally_inv_def)
  ultimately have s': "proposals s' = (proposals s)(i \<mapsto> q\<lparr>is_open := False\<rparr>)" "receipts s' = receipts s"
    "next_id s' = next_id s" "gov_admin_slot s' = gov_admin_slot s"
    by (simp_all add: write_proposal_def next_id_def)
  have "tally b (q\<lparr>is_open := False\<rparr>) = tally b q" for b by (simp add: tally_def)
  with assms(1) q(1) show ?thesis unfolding tally_inv_def s' votes_on_frame [OF s'(2)] by simp blast
qed

lemma initialize_tally:
  assumes "tally_inv s" and "initialize_governance e as t m b s = Ok s'"
  shows "tally_inv s'"
proof -
  have p: "proposals s i = None" for i
    using assms(1) initialize_ok(1) [OF assms(2)] unfolding tally_inv_def by (meson not_None_eq)
  then have "receipts s k = None" for k
    using assms(1) unfolding tally_inv_def by (meson not_None_eq)
  moreover from initialize_ok(5) [OF assms(2)] have "receipts s' = receipts s" "proposals s' = proposals s" by auto
  ultimately show ?thesis using assms(1) p by (simp add: tally_inv_def)
qed

lemma gov_exec_tally:
  assumes "tally_inv s" and "gov_exec e c s = Ok s'"
  shows "tally_inv s'"
  using assms(2)
proof (cases rule: gov_exec_cases)
  case (create ti de n as p)
  with assms(1) show ?thesis by (rule create_tally)
next
  case (close i as p)
  with assms(1) show ?thesis by (rule close_tally)
next
  case (vote i v b n r)
  with assms(1) show ?thesis by (rule vote_tally)
next
  case (init as t m b)
  with assms(1) show ?thesis by (rule initialize_tally)
qed (rule same_ballots_tally [OF _ assms(1)], erule ballots_frame)+

lemma gov_run_tally: "gov_run s \<Longrightarrow> tally_inv s"
proof (induction rule: gov_run_invariant)
  case init
  then show ?case by (simp add: tally_inv_def fresh_governance_def)
qed (rule gov_exec_tally)

section \<open>Steps\<close>

text \<open>What a call may do to the ballot of a proposal that exists.\<close>

definition later_receipt :: "vote_receipt \<Rightarrow> vote_receipt \<Rightarrow> bool" where
  "later_receipt r r' \<longleftrightarrow> support r' = support r \<and> credits_spent r < credits_spent r'
     \<and> votes_cast r < votes_cast r' \<and> voting_units_snapshot r' = voting_units_snapshot r"

definition ballot_step :: "env \<Rightarrow> u32 \<Rightarrow> governance \<Rightarrow> governance \<Rightarrow> bool" where
  "ballot_step e pid s s' \<longleftrightarrow>
     (\<forall>p. proposals s pid = Some p \<longrightarrow>
       (\<exists>p'. proposals s' pid = Some p' \<and> voting_ends_at p' = voting_ends_at p \<and> (is_open p' \<longrightarrow> is_open p)
         \<and> (\<forall>b. tally b p \<le> tally b p')
         \<and> ((\<exists>b. tally b p < tally b p') \<longrightarrow> is_open p \<and> sequence e \<le> voting_ends_at p)
         \<and> (\<forall>v. receipts s' (pid, v) \<noteq> receipts s (pid, v) \<longrightarrow>
              authorized e v \<and> voters s v \<noteq> None \<and> is_open p \<and> sequence e \<le> voting_ends_at p
              \<and> (\<forall>r. receipts s (pid, v) = Some r \<longrightarrow>
                   (\<exists>r'. receipts s' (pid, v) = Some r' \<and> later_receipt r r')))))"

lemma ballot_stepI:
  assumes "receipts s' = receipts s"
    and "\<And>p. proposals s pid = Some p \<Longrightarrow>
      \<exists>p'. proposals s' pid = Some p' \<and> voting_ends_at p' = voting_ends_at p \<and> (is_open p' \<longrightarrow> is_open p)
        \<and> (\<forall>b. tally b p' = tally b p)"
  shows "ballot_step e pid s s'"
  using assms unfolding ballot_step_def by fastforce

lemma same_ballots_step: "same_ballots s s' \<Longrightarrow> ballot_step e pid s s'"
  by (rule ballot_stepI) (simp_all add: same_ballots_def)

lemma vote_step:
  assumes "tally_inv s" and "gov_cast_vote e i v b n s = Ok (r', s')"
  shows "ballot_step e pid s s'"
  using assms(2,1)
proof (rule vote_ok)
  fix p q r p' m
  assume h: "authorized e v" "0 < n" "proposals s i = Some p" "is_open p" "sequence e \<le> voting_ends_at p"
    "voters s v = Some q" "r = receipt_or_new i v b q s" "receipts s (i, v) \<noteq> None \<longrightarrow> support r = b"
    "votes_cast r < m" "add_votes b (m - votes_cast r) p = Ok p'"
    "r' = r\<lparr>support := b, credits_spent := credits_spent r + n, votes_cast := m\<rparr>"
    and s': "s' = s\<lparr>proposals := (proposals s)(i \<mapsto> p'), receipts := (receipts s)((i, v) \<mapsto> r')\<rparr>"
  have "later_receipt r0 r'" if "receipts s (i, v) = Some r0" for r0
    using that h(2,7,8,9,11) by (simp add: later_receipt_def receipt_or_new_def)
  moreover have "tally c p \<le> tally c p'" for c using add_votes_ok(1,2) [OF h(10)] h(9) by (cases "c = b") auto
  ultimately show "ballot_step e pid s s'"
    using h(1,3-6) add_votes_ok(4,5) [OF h(10)] by (cases "pid = i") (auto simp: ballot_step_def s')
qed

lemma create_step:
  assumes "tally_inv s" and "create_proposal e ti de n as s = Ok (p, s')" and "next_id s' \<noteq> - 1"
  shows "ballot_step e pid s s'"
proof -
  from create_ok(3) [OF assms(2)]
  have s': "proposals s' = (proposals s)(next_id s \<mapsto> p)" "receipts s' = receipts s"
    "next_id s' = saturating_add_word (next_id s) 1" by (auto simp: next_id_def)
  have "pid \<noteq> next_id s" if "proposals s pid = Some q" for q
    using that assms(1,3) next_id_up(1) [of "next_id s"] unfolding s'(3) tally_inv_def by blast
  then show ?thesis using s' by (intro ballot_stepI) auto
qed

lemma close_step:
  assumes "tally_inv s" and "close_proposal e i as s = Ok (p, s')"
  shows "ballot_step e pid s s'"
proof -
  obtain q where q: "proposals s i = Some q" "s' = write_proposal (q\<lparr>is_open := False\<rparr>) s"
    using close_ok(2) [OF assms(2)] by blast
  moreover have "proposal_id q = i" using assms(1) q(1) by (simp add: tally_inv_def)
  ultimately show ?thesis by (intro ballot_stepI) (auto simp: write_proposal_def tally_def)
qed

lemma gov_exec_ballot:
  assumes "tally_inv s" and "gov_exec e c s = Ok s'" and "next_id s' \<noteq> - 1"
  shows "ballot_step e pid s s'"
  using assms(2)
proof (cases rule: gov_exec_cases)
  case (create ti de n as p)
  from assms(1) this assms(3) show ?thesis by (rule create_step)
next
  case (close i as p)
  with assms(1) show ?thesis by (rule close_step)
next
  case (vote i v b n r)
  with assms(1) show ?thesis by (rule vote_step)
next
  case (init as t m b)
  have "proposals s pid = None"
    using assms(1) initialize_ok(1) [OF init] unfolding tally_inv_def by (meson not_None_eq)
  then show ?thesis by (simp add: ballot_step_def)
qed (rule same_ballots_step, erule ballots_frame)+

text \<open>The votes of at least as many committee members as the threshold asks for.\<close>

definition gov_signed :: "env \<Rightarrow> governance \<Rightarrow> bool" where
  "gov_signed e s \<longleftrightarrow> unat (guard_get_threshold (committee_guard s)) \<le>
     card {a \<in> set (guard_get_admins (committee_guard s)). authorized e a}"

lemma require_admin_signed: "require_admin e as s = Ok a \<Longrightarrow> gov_signed e s"
  using gov_committee.signers [of e as s "()"]
  by (auto simp: gov_signed_def guard_get_threshold_def ok_iff)

definition gov_settings where
  "gov_settings s = (committee_guard s, gov_admin_slot s, min_voting_units_slot s, identity_required_slot s,
     next_proposal_id s, voters s, identity_owner s, modules s, \<lambda>i. map_option is_open (proposals s i))"

lemma gov_exec_admin: "gov_exec e c s = Ok s' \<Longrightarrow> gov_admin_slot s \<noteq> None \<Longrightarrow> gov_admin_slot s' \<noteq> None"
proof (erule gov_exec_cases)
  fix i v b n r
  assume "gov_cast_vote e i v b n s = Ok (r, s')" "gov_admin_slot s \<noteq> None"
  then show ?thesis using vote_passed by (fastforce simp: write_proposal_def)
qed (auto dest!: ballots_frame initialize_ok(5) create_ok(3) close_ok(2) simp: same_ballots_def write_proposal_def)

lemma gov_exec_signed:
  assumes "tally_inv s" and "gov_exec e c s = Ok s'" and "gov_admin_slot s = Some a"
  shows "gov_signed e s \<or> gov_settings s' = gov_settings s"
  using assms(2)
proof (cases rule: gov_exec_cases)
  case (init as t m b)
  with assms(3) show ?thesis using initialize_ok(1) by fastforce
next
  case (vote i v b n r)
  from this assms(1) show ?thesis
  proof (rule vote_ok)
    fix p p' r0 m
    assume "proposals s i = Some p" "add_votes b (m - votes_cast r0) p = Ok p'"
      "s' = s\<lparr>proposals := (proposals s)(i \<mapsto> p'), receipts := (receipts s)((i, v) \<mapsto> r)\<rparr>"
    then show ?thesis using add_votes_ok(5) by (auto simp: gov_settings_def fun_eq_iff)
  qed
next
  case (snapshot v r)
  then show ?thesis using snapshot_ok [OF snapshot] by (auto simp: gov_settings_def)
qed (auto dest!: register_voter_ok(1) create_ok(1) close_ok(1) intro: require_admin_signed simp: gov_add_signer_def
    gov_remove_signer_def gov_set_signature_threshold_def gov_enable_module_def gov_disable_module_def)

section \<open>Snapshots\<close>

definition snapshot_inv :: "governance \<Rightarrow> bool" where
  "snapshot_inv s \<longleftrightarrow> voting_power s = Map.empty \<and> (\<forall>k x. voting_snapshots s k = Some x \<longrightarrow> snapshot_power x = 0)"

lemma snapshot_frame:
  "gov_exec e c s = Ok s' \<Longrightarrow> voting_power s' = voting_power s
     \<and> (voting_snapshots s' = voting_snapshots s
        \<or> (\<exists>k x. voting_snapshots s' = (voting_snapshots s)(k \<mapsto> x) \<and> snapshot_power x = get0 (voting_power s) (snd k)))"
proof (erule gov_exec_cases)
  fix i v b n r
  assume "gov_cast_vote e i v b n s = Ok (r, s')"
  from vote_passed [OF this] show ?thesis by (auto simp: write_proposal_def)
qed (auto simp: gov_add_signer_def gov_remove_signer_def gov_set_signature_threshold_def gov_enable_module_def
    gov_disable_module_def write_proposal_def read_voting_power_def check_ok Let_def split: if_splits
    dest!: initialize_ok(5) register_voter_ok(6) create_ok(3) close_ok(2) snapshot_ok intro!: exI)

lemma gov_run_snapshot: "gov_run s \<Longrightarrow> snapshot_inv s"
proof (induction rule: gov_run_invariant)
  case (step s s' e c)
  from snapshot_frame [OF step(2)] step(3) show ?case by (auto simp: snapshot_inv_def split: if_splits)
qed (simp add: snapshot_inv_def fresh_governance_def)

text \<open>
  Snapshots protect nothing. No entry point writes the voting power they record, so every recorded
  snapshot is zero, and a first vote is measured against the units the voter has at that moment, not
  at the creation of the proposal.
\<close>

lemma gov_snapshots_unused:
  assumes "gov_run s"
  shows "gov_get_snapshot_voting_power v i s \<in> {None, Some 0}"
    and "gov_cast_vote e pid v b n s = Ok (r, s') \<Longrightarrow> receipts s (pid, v) = None \<Longrightarrow>
      \<exists>q. voters s v = Some q \<and> voting_units_snapshot r = voting_units q"
proof -
  show "gov_get_snapshot_voting_power v i s \<in> {None, Some 0}"
    using gov_run_snapshot [OF assms]
    by (cases "voting_snapshots s (i, v)")
      (auto simp: gov_get_snapshot_voting_power_def snap_read_snapshot_voting_power_def snapshot_inv_def)
  assume "gov_cast_vote e pid v b n s = Ok (r, s')" "receipts s (pid, v) = None"
  then show "\<exists>q. voters s v = Some q \<and> voting_units_snapshot r = voting_units q"
    using vote_passed by (fastforce simp: receipt_or_new_def)
qed

section \<open>An election\<close>

definition gov_env :: "u32 \<Rightarrow> env" where
  "gov_env now = \<lparr>sequence = now, timestamp = 1000, authorized = (\<lambda>a. a < 10), self = 50,
     overflow_checks = True\<rparr>"

fun gov_play :: "(u32 \<times> gov_call) list \<Rightarrow> governance \<Rightarrow> (governance, gov_error) result" where
  "gov_play [] s = Ok s"
| "gov_play ((now, c) # cs) s = and_then (gov_exec (gov_env now) c s) (\<lambda>s. gov_play cs s)"

lemma gov_play_run: "gov_play cs s = Ok s' \<Longrightarrow> gov_run s \<Longrightarrow> gov_run s'"
proof (induction cs arbitrary: s)
  case (Cons x cs)
  then obtain now c s1 where "gov_exec (gov_env now) c s = Ok s1" "gov_play cs s1 = Ok s'"
    by (cases x) auto
  with Cons.IH [of s1] Cons.prems(2) show ?case unfolding gov_run_def by (blast intro: reach_step)
qed simp

definition gov_holds :: "(governance \<Rightarrow> bool) \<Rightarrow> (governance, gov_error) result \<Rightarrow> bool" where
  "gov_holds P r = (case r of Ok s \<Rightarrow> P s | _ \<Rightarrow> False)"

lemma gov_playE:
  assumes "gov_holds P (gov_play cs fresh_governance)"
  obtains s where "gov_run s" "P s"
proof -
  have "gov_run fresh_governance" unfolding gov_run_def by (rule reach_init) simp
  with assms show thesis by (auto simp: gov_holds_def split: result.splits intro: that gov_play_run)
qed

text \<open>Two of three signers register two voters and open a proposal; 5 votes for it twice, 6 against it.\<close>

definition gov_setup :: "(u32 \<times> gov_call) list" where
  "gov_setup = [(100, InitializeWithSigners [1, 2, 3] 2 1 True),
     (100, RegisterVoterWithApprovals 5 100 77 [1, 2]), (100, RegisterVoterWithApprovals 6 50 88 [3, 1]),
     (100, CreateProposalWithApprovals ''t'' ''d'' 200 [1, 2]), (110, CastVote 0 5 True 26),
     (120, CastVote 0 6 False 10), (130, CastVote 0 5 True 10)]"

lemma gov_setup_state:
  obtains s p where "gov_run s" "next_proposal_id s = Some 1" "gov_admin_slot s = Some 1"
    "proposals s 0 = Some p" "for_votes p = 6" "against_votes p = 3" "is_open p" "voting_ends_at p = 200"
    "map_option identity_commitment (voters s 5) = Some 77" "receipts s (0, 7) = None"
    "gov_holds (\<lambda>s'. receipts s' (0, 6) \<noteq> receipts s (0, 6) \<and> map_option against_votes (proposals s' 0) = Some 4
       \<and> next_proposal_id s' = Some 1)
       (gov_exec (gov_env 140) (CastVote 0 6 False 6) s)"
    "gov_holds (\<lambda>s'. modules s' 9 \<noteq> modules s 9) (gov_exec (gov_env 140) (EnableModule [2, 3] 9) s)"
proof -
  have "gov_holds (\<lambda>s. next_proposal_id s = Some 1 \<and> gov_admin_slot s = Some 1
      \<and> (case proposals s 0 of Some p \<Rightarrow> for_votes p = 6 \<and> against_votes p = 3 \<and> is_open p \<and> voting_ends_at p = 200
         | None \<Rightarrow> False)
      \<and> map_option identity_commitment (voters s 5) = Some 77 \<and> receipts s (0, 7) = None
      \<and> gov_holds (\<lambda>s'. receipts s' (0, 6) \<noteq> receipts s (0, 6) \<and> map_option against_votes (proposals s' 0) = Some 4
         \<and> next_proposal_id s' = Some 1)
        (gov_exec (gov_env 140) (CastVote 0 6 False 6) s)
      \<and> gov_holds (\<lambda>s'. modules s' 9 \<noteq> modules s 9) (gov_exec (gov_env 140) (EnableModule [2, 3] 9) s))
    (gov_play gov_setup fresh_governance)"
    by code_simp
  then show thesis
    by (rule gov_playE) (auto split: option.splits intro: that)
qed

section \<open>Properties\<close>

text \<open>
  C19. The tallies are exact: as long as the proposal numbers last, the votes for and against a proposal
  are the sums of the votes on the receipts of its two sides, and each receipt holds as many votes as
  the integer square root of the credits spent, which never exceed the voting units it was opened with.
\<close>

theorem gov_tally_exact:
  assumes "gov_run s" and "next_proposal_id s \<noteq> Some (- 1)" and "gov_get_proposal pid s = Ok p"
  shows "for_votes p = map_total (votes_on s pid True) \<and> against_votes p = map_total (votes_on s pid False)
    \<and> (\<forall>v r. gov_get_vote_receipt pid v s = Some r \<longrightarrow>
         0 < votes_cast r \<and> votes_cast r * votes_cast r \<le> credits_spent r
         \<and> credits_spent r < (votes_cast r + 1) * (votes_cast r + 1)
         \<and> credits_spent r \<le> voting_units_snapshot r)"
proof -
  have "next_id s \<noteq> - 1" using assms(2) by (auto simp: next_id_def split: option.splits)
  moreover have "proposals s pid = Some p" using assms(3) by (simp add: gov_get_proposal_def get_proposal_def)
  ultimately have "tally b p = map_total (votes_on s pid b)" for b
    using gov_run_tally [OF assms(1)] by (simp add: tally_inv_def)
  from this [of True] this [of False] show ?thesis
    using gov_run_tally [OF assms(1)]
    by (auto simp: tally_inv_def receipt_ok_def is_root_def gov_get_vote_receipt_def tally_def)
qed

theorem gov_tally_exact_witness:
  "\<exists>s p. gov_run s \<and> next_proposal_id s \<noteq> Some (- 1) \<and> gov_get_proposal 0 s = Ok p
     \<and> map_total (votes_on s 0 True) = 6 \<and> map_total (votes_on s 0 False) = 3"
proof -
  obtain s p where s: "gov_run s" "next_proposal_id s = Some 1" "proposals s 0 = Some p" "for_votes p = 6"
    "against_votes p = 3" by (rule gov_setup_state)
  then have n: "next_proposal_id s \<noteq> Some (- 1)" and p: "gov_get_proposal 0 s = Ok p"
    by (simp_all add: gov_get_proposal_def get_proposal_def)
  from gov_tally_exact [OF s(1) n p] s n p show ?thesis by auto
qed

text \<open>
  A ballot changes only by its voters: no call removes a proposal, moves the end of its voting or
  reopens it, and tallies never fall. They rise only while the proposal is open and its voting has not
  ended; a receipt changes only with the signature of a registered voter, and then keeps its side and
  its voting units and gains credits and votes.
\<close>

lemma gov_ballot_protected:
  assumes "gov_run s" and "gov_exec e c s = Ok s'" and "next_proposal_id s' \<noteq> Some (- 1)"
    and "proposals s pid = Some p"
  shows "\<exists>p'. proposals s' pid = Some p' \<and> voting_ends_at p' = voting_ends_at p \<and> (is_open p' \<longrightarrow> is_open p)
    \<and> for_votes p \<le> for_votes p' \<and> against_votes p \<le> against_votes p'
    \<and> (for_votes p < for_votes p' \<or> against_votes p < against_votes p' \<longrightarrow>
         is_open p \<and> sequence e \<le> voting_ends_at p)
    \<and> (\<forall>v. receipts s' (pid, v) \<noteq> receipts s (pid, v) \<longrightarrow>
         authorized e v \<and> voters s v \<noteq> None \<and> is_open p \<and> sequence e \<le> voting_ends_at p
         \<and> (\<forall>r. receipts s (pid, v) = Some r \<longrightarrow>
              (\<exists>r'. receipts s' (pid, v) = Some r' \<and> support r' = support r \<and> credits_spent r < credits_spent r'
                \<and> votes_cast r < votes_cast r' \<and> voting_units_snapshot r' = voting_units_snapshot r)))"
proof -
  have "next_id s' \<noteq> - 1" using assms(3) by (auto simp: next_id_def split: option.splits)
  from gov_exec_ballot [OF gov_run_tally [OF assms(1)] assms(2) this, of pid] assms(4)
  show ?thesis unfolding ballot_step_def later_receipt_def
    by (elim allE [of _ p]) (auto simp: tally_def all_bool_eq ex_bool_eq)
qed

text \<open>
  C20. The committee governs. Once the contract is initialized its committee stays usable and its
  administrator a member, and whatever changes the committee, the voters, the modules, the settings or
  the opening and closing of proposals carries the signatures of at least the threshold of the members.
  The same holds for a transaction executed for the committee, and a module's transaction is executed
  only for an enabled module that signed it.
\<close>

theorem gov_changes_need_quorum:
  assumes "gov_run s" and "gov_admin_slot s = Some a"
  shows "(gov_exec e c s = Ok s' \<longrightarrow> committee_ok (committee_guard s')
      \<and> (\<exists>a'. gov_admin_slot s' = Some a' \<and> guard_is_admin (committee_guard s') a')
      \<and> (gov_settings s' \<noteq> gov_settings s \<longrightarrow> gov_signed e s))
    \<and> (gov_execute_transaction invoke e as target func args s t = Ok r \<longrightarrow> gov_signed e s)
    \<and> (gov_execute_module invoke e module target func args s t = Ok r \<longrightarrow>
        gov_is_module_enabled module s \<and> authorized e module)"
proof (intro conjI impI)
  assume x: "gov_exec e c s = Ok s'"
  have i: "committee_inv s'" using gov_exec_committee [OF gov_run_committee [OF assms(1)] x] .
  have "gov_admin_slot s' \<noteq> None" using gov_exec_admin [OF x] assms(2) by simp
  with i show "committee_ok (committee_guard s')"
    "\<exists>a'. gov_admin_slot s' = Some a' \<and> guard_is_admin (committee_guard s') a'"
    by (auto simp: committee_inv_def)
  assume "gov_settings s' \<noteq> gov_settings s"
  with gov_exec_signed [OF gov_run_tally [OF assms(1)] x assms(2)] show "gov_signed e s" by simp
qed (auto simp: gov_execute_transaction_def gov_execute_module_def gov_is_module_enabled_def ok_iff
    intro: require_admin_signed)

theorem gov_changes_need_quorum_witness:
  "\<exists>s s'. gov_run s \<and> gov_admin_slot s = Some 1 \<and> gov_exec (gov_env 140) (EnableModule [2, 3] 9) s = Ok s'
     \<and> gov_settings s' \<noteq> gov_settings s \<and> gov_signed (gov_env 140) s \<and> committee_ok (committee_guard s')"
proof -
  obtain s where s: "gov_run s" "gov_admin_slot s = Some 1"
    and h: "gov_holds (\<lambda>s'. modules s' 9 \<noteq> modules s 9) (gov_exec (gov_env 140) (EnableModule [2, 3] 9) s)"
    by (rule gov_setup_state)
  then obtain s' where x: "gov_exec (gov_env 140) (EnableModule [2, 3] 9) s = Ok s'" "modules s' 9 \<noteq> modules s 9"
    by (auto simp: gov_holds_def split: result.splits)
  then have "gov_settings s' \<noteq> gov_settings s" by (auto simp: gov_settings_def)
  with conjunct1 [OF gov_changes_need_quorum [OF s, of "gov_env 140" "EnableModule [2, 3] 9" s']] s x show ?thesis
    by blast
qed

text \<open>
  One person, one voter: two registered voters never share an identity commitment, where the
  contract requires identities no voter is without one, and every voter has at least the configured
  minimum of voting units, which is positive.
\<close>

lemma gov_identities_unique:
  assumes "gov_run s" and "gov_get_voter v s = Ok p"
  shows "(\<exists>m. min_voting_units_slot s = Some m \<and> 0 < m \<and> m \<le> voting_units p)
    \<and> (identity_required_slot s = Some True \<longrightarrow> identity_commitment p \<noteq> zero_identity)
    \<and> (identity_commitment p \<noteq> zero_identity \<longrightarrow>
        (\<forall>w q. gov_get_voter w s = Ok q \<and> identity_commitment q = identity_commitment p \<longrightarrow> w = v))"
proof -
  note i = gov_run_identity [OF assms(1)]
  have p: "voters s v = Some p" using assms(2) by (simp add: gov_get_voter_def)
  have "w = v" if "identity_commitment p \<noteq> zero_identity" "gov_get_voter w s = Ok q"
    "identity_commitment q = identity_commitment p" for w q
    using that p identity_owner_iff [OF i, of "identity_commitment p" v]
      identity_owner_iff [OF i, of "identity_commitment p" w] by (simp add: gov_get_voter_def)
  with i p show ?thesis by (auto simp: identity_inv_def)
qed

text \<open>
  The quotes return, in either build, for every number of credits below the largest: the votes are
  the integer square root of the credits, the price of these votes is affordable, and quoting the votes
  for that price gives them back.
\<close>

lemma gov_quotes_exact:
  assumes "0 \<le> credits" and "credits < i128_max"
  shows "\<exists>n price. gov_quote_votes_for_credits e credits = Ok n \<and> 0 \<le> n \<and> credits < (n + 1) * (n + 1)
    \<and> gov_quote_credits_for_votes n = Ok price \<and> price = n * n \<and> price \<le> credits
    \<and> gov_quote_votes_for_credits e price = Ok n"
proof -
  obtain n where n: "gov_sqrt e credits = Ok n" "is_root credits n" using gov_sqrt_root [OF assms] by blast
  have le: "0 \<le> n * n" "n * n \<le> credits" "0 \<le> n" using n(2) by (auto simp: is_root_def)
  have "is_root (n * n) n" using le by (simp add: is_root_def algebra_simps)
  moreover obtain n' where "gov_sqrt e (n * n) = Ok n'" "is_root (n * n) n'"
    using gov_sqrt_root [of "n * n" e] le assms(2) by auto
  ultimately have "gov_sqrt e (n * n) = Ok n" by (simp add: is_root_unique)
  moreover have "i128_min \<le> 0" by (simp add: i128_min_def)
  then have "in_i128 (n * n)" using le assms(2) unfolding in_i128_def by linarith
  moreover have c: "(credits < 0) = False" using assms(1) by simp
  ultimately show ?thesis using n le
    by (simp add: c gov_quote_votes_for_credits_def gov_quote_credits_for_votes_def is_root_def checked_mul_def)
qed

end
