(* ===== verification/Spec2Isabelle.thy ===== *)
theory Spec2Isabelle
  imports Prelude Fixed_Math Guards Token Policy_Vault Timelock Vault_Guard Erc4626 Erc4626_Accounts
    Fee_Engine Fee_Accounts Vault_Strategy Access_Control Acl_Policy Cdp Cdp_Accounts Governance Gov_Votes
begin

text \<open>
  Perigee is a set of Soroban smart contracts, written in Rust under \<open>src/contracts\<close>, around tokenised
  vaults: a token, an ERC-4626 vault over an asset token, a fee engine that charges vaults and takes
  stakes in a governance token, a registry of strategies, a policy that limits the creation of vaults,
  debt positions that lend a stable coin against collateral, and the contracts that guard and govern
  them (an emergency guard, a vault guard, access control lists, a timelock controller and a governance
  contract with quadratic votes). This library models these contracts as functions on explicit state and proves
  what makes each of them correct.

  \<^bold>\<open>How a contract is modelled.\<close> The storage of a contract is a record: one optional field for a single
  key, one map for a family of keys, with the names of the source's \<open>DataKey\<close>. An entry point is one
  function with the name of the source behind a short prefix. It takes the environment, the arguments
  and the state, and returns a \<open>result\<close>: \<open>Ok\<close> with the new state, \<open>Err\<close> with the contract's error, or
  \<open>Panic\<close> where the host traps; a call that does not return \<open>Ok\<close> leaves the state as it was, since the
  host rolls it back. \<open>env\<close> carries the ledger sequence and time, who authorized the invocation, the
  contract's own address and whether the build checks overflow. \<open>u32\<close>, \<open>u64\<close> and \<open>u128\<close> are machine
  words; \<open>i128\<close> is an integer with the range written out: \<open>plain_i128\<close> traps or wraps as the build
  says, the checked and saturating operations do what the standard library says. The host bounds
  vectors by \<open>2 ^ 32\<close> elements, so a list length is compared as a natural number.

  \<^bold>\<open>The theories and the code they model.\<close>

  \<^item> \<open>Prelude\<close>: results and their bind, machine arithmetic, the environment, sub-calls, finite sums, runs
    of a step function, and the interfaces the contracts share as locales: \<open>admin_gate\<close> (an entry
    point behind an administrator), \<open>token_iface\<close> (what a contract relies on of a token it calls) and
    \<open>fee_split\<close> (a fee split that loses nothing).
  \<^item> \<open>Fixed_Math\<close> (\<open>math/src/lib.rs\<close>, \<open>error_codes/src/lib.rs\<close>): fixed-point arithmetic over 128-bit
    integers with the long division of a double-width product, \<open>ln\<close>, \<open>exp\<close> and \<open>pow\<close>.
  \<^item> \<open>Guards\<close> (\<open>guards/src/lib.rs\<close>, \<open>emergency_guard/src/lib.rs\<close>): pause masks, the committee and its
    multi-signature check, the reentrancy lock. The locale \<open>quorum\<close> is the contract of that check.
  \<^item> \<open>Token\<close> (\<open>token/src\<close>): balances, allowances, minting, the emergency guard it embeds (\<open>Guards\<close>),
    and the cache of the metadata URI. It provides \<open>token_iface\<close>.
  \<^item> \<open>Policy_Vault\<close> (\<open>policy_vault/src/lib.rs\<close>): rate limits for vault creation per ledger epoch.
  \<^item> \<open>Timelock\<close> (\<open>timelock_controller/src/lib.rs\<close>): queued operations. \<open>execute\<close> is split at the call
    of its target, so that a target may call the controller again; the hash of an operation and the
    target are parameters.
  \<^item> \<open>Vault_Guard\<close> (\<open>vault_guard/src/lib.rs\<close>): pauses with a delay before they are lifted.
  \<^item> \<open>Erc4626\<close> (\<open>erc4626_vault/src/lib.rs\<close>): the vault over an asset token, which is a parameter with
    the laws of \<open>token_iface\<close>; \<open>Erc4626_Accounts\<close> holds its proofs and runs it over \<open>Token\<close>.
  \<^item> \<open>Fee_Engine\<close> (\<open>fee_engine/src/lib.rs\<close>): fee configuration, tiers, stakes in the governance token,
    accrual and crystallisation; \<open>Fee_Accounts\<close> holds its proofs and runs it over \<open>Token\<close>.
  \<^item> \<open>Vault_Strategy\<close> (\<open>vault_strategy/src/lib.rs\<close>): the strategy registry, rotations and fees.
  \<^item> \<open>Access_Control\<close> (\<open>access_control/src/lib.rs\<close>, \<open>selector.rs\<close>): grants, roles, wildcards, batches and
    lockdown; \<open>Acl_Policy\<close> holds the abstract policy and the refinement.
  \<^item> \<open>Cdp\<close> (\<open>cdp/src/lib.rs\<close>): debt positions, interest, liquidation. The collateral token is a parameter
    with the laws of \<open>token_iface\<close>, the oracle a function that answers the same within one invocation;
    \<open>Cdp_Accounts\<close> holds the ledger the positions refine and runs the contract over \<open>Token\<close>.
  \<^item> \<open>Governance\<close> (\<open>governance/src/lib.rs\<close>, \<open>snapshot.rs\<close>): voters, proposals, quadratic votes, modules
    and the committee, which is the guard of \<open>Guards\<close>; \<open>Gov_Votes\<close> holds its proofs. A contract the
    committee or a module calls is a parameter.

  \<^bold>\<open>What the theorems show.\<close>

  \<^item> Refinements: the timelock implements a life cycle per operation; the access control lists implement
    a role-based policy of plain sets, including the decision whether a selector is permitted.
  \<^item> Accounting: token balances are the sums of accepted postings; the vault's shares sum to its supply and
    its assets are held; stakes are backed by governance tokens; fee records are complete and bounded by
    the high-water mark; collateral, debt and stable coins of the debt positions agree; tallies are the
    sums of the vote receipts; counters of vaults, strategies and wildcard uses are exact.
  \<^item> Authority: committees, debits of tokens and shares, stakes, strategy changes, new permissions and the
    acts of governance need the authority the code documents; in lockdown only root can be handed over.
    Collateral leaves a position only with its owner's authority or by the liquidation of a position
    below the minimum ratio, which borrowing never leaves behind.
  \<^item> Time: an operation is invoked only after its delay and becomes executable after it; a global pause is
    lifted only after its delay; creations stay within the rate limit of an epoch.
  \<^item> Arithmetic: multiplication and division in fixed point are exact for every input, the loops of \<open>ln\<close>
    end, the integer square root of the votes is exact in either build, roundings of the vault favour the
    vault, the borrow rate stays within its curve, and fees are the stated floors.
  \<^item> Flaws: \<open>mint\<close> of the vault sells below the price, a transfer of a negative amount steals, duplicate
    administrators freeze a guard, resuming single operations cancels the unpause delay, anyone can raise
    a high-water mark, a claw-back makes paid fees negative, \<open>exp\<close> drops high bits, a token credit past
    the largest \<open>i128\<close> wraps in a build without overflow checks, voting snapshots record nothing.

  \<^bold>\<open>Runs and bounds.\<close> Properties of histories quantify over all finite sequences of calls, accepted or
  not, by any callers, interleaved where a contract calls another one with steps of that one.
  Histories of the token, the policy vault, the timelock, the guards, access control and governance are
  those of either build. Histories of the vault (\<open>e4_run\<close>), the fee engine (\<open>fe_run\<close>) and the debt
  positions (\<open>cdp_run\<close>) are those of a build that checks overflow, by callers other than the contract
  itself, over a token that keeps the laws of \<open>token_iface\<close>, where between two calls of the contract
  others may move tokens but do not lower the contract's own balance; the workspace sets no
  \<open>overflow-checks\<close> for its release profile, so a release build that wants these theorems has to.
  Those of the strategy registry (\<open>vs_reach\<close>) are of a checking build too.
  The division loop of \<open>Fixed_Math\<close> runs over the 128 bits of its operand and the series of \<open>exp\<close> and
  \<open>ln\<close> over the source's fixed numbers of terms; the range reductions of \<open>ln\<close> are \<open>partial_function\<close>s
  proved to return, and the square root loop is a \<open>function\<close> with a measure, so no fuel is used.
  The tallies are exact until proposal number \<open>2 ^ 32 - 1\<close>, after which the saturating counter reuses it. The access control histories hold fewer than \<open>2 ^ 32\<close> stored
  selectors, the range of the counters.

  \<^bold>\<open>Not modelled.\<close> Events and the time to live of storage entries are not state of these contracts.
  \<open>liquidity_pool\<close> and \<open>vault_accounting\<close> are not programs: the first holds an unresolved merge with
  duplicated definitions, the second names undeclared items. The other contracts of \<open>src/contracts\<close>
  (staking rewards, strategies, markets, auctions, oracles, bridges) are separate programs that none of
  the contracts above calls, as are the files of \<open>governance/src\<close> and \<open>math/src\<close> that no module declares. The service under \<open>src/core\<close>, the web client and the scripts
  are input and output over databases, the network and a browser.
\<close>

end
